theory Spec2Isabelle
  imports Complex_Main "HOL-Library.Monad_Syntax" "HOL-Library.Product_Lexorder"
begin

section \<open>Dense vectors and matrices\<close>

text \<open>
  The solvers work on \<^verbatim>\<open>Vector<double>\<close> and \<^verbatim>\<open>Matrix<double>\<close>. Doubles are
  modelled as reals. A vector is the list of its entries; a matrix carries its two
  dimensions and its entries, read with \<^verbatim>\<open>M(i,j)\<close>.
  The matrix library itself is not among the sources; its operations are written here
  the way the solvers use them: a constructor (and \<^verbatim>\<open>resize\<close>) with three arguments
  yields a matrix of the given shape with every entry equal to the fill value, and the
  arithmetic operators throw when the shapes of their operands disagree
  (\<open>None\<close> below).
\<close>

type_synonym Vector = "real list"

record Matrix =
  rows :: nat
  cols :: nat
  elems :: "nat \<Rightarrow> nat \<Rightarrow> real"

definition Matrix_fill :: "nat \<Rightarrow> nat \<Rightarrow> real \<Rightarrow> Matrix" where
  "Matrix_fill r c v = \<lparr>rows = r, cols = c, elems = (\<lambda>i j. v)\<rparr>"

definition Vector_fill :: "nat \<Rightarrow> real \<Rightarrow> Vector" where
  "Vector_fill n v = replicate n v"

definition isSquare :: "Matrix \<Rightarrow> bool" where
  "isSquare M = (rows M = cols M)"

definition mget :: "Matrix \<Rightarrow> nat \<Rightarrow> nat \<Rightarrow> real" where
  "mget M i j = elems M i j"

definition mset :: "Matrix \<Rightarrow> nat \<Rightarrow> nat \<Rightarrow> real \<Rightarrow> Matrix" where
  "mset M i j v = M\<lparr>elems := (elems M)(i := (elems M i)(j := v))\<rparr>"

definition transpose_m :: "Matrix \<Rightarrow> Matrix" where
  "transpose_m M = \<lparr>rows = cols M, cols = rows M, elems = (\<lambda>i j. elems M j i)\<rparr>"

definition mat_mul :: "Matrix \<Rightarrow> Matrix \<Rightarrow> Matrix option" where
  "mat_mul A B =
     (if cols A \<noteq> rows B then None
      else Some \<lparr>rows = rows A, cols = cols B,
                 elems = (\<lambda>i j. sum_list (map (\<lambda>k. elems A i k * elems B k j) [0..<cols A]))\<rparr>)"

definition mat_add :: "Matrix \<Rightarrow> Matrix \<Rightarrow> Matrix option" where
  "mat_add A B =
     (if rows A \<noteq> rows B \<or> cols A \<noteq> cols B then None
      else Some \<lparr>rows = rows A, cols = cols A, elems = (\<lambda>i j. elems A i j + elems B i j)\<rparr>)"

definition mat_vec :: "Matrix \<Rightarrow> Vector \<Rightarrow> Vector option" where
  "mat_vec A x =
     (if cols A \<noteq> length x then None
      else Some (map (\<lambda>i. sum_list (map (\<lambda>k. elems A i k * x ! k) [0..<cols A])) [0..<rows A]))"

definition vec_add :: "Vector \<Rightarrow> Vector \<Rightarrow> Vector option" where
  "vec_add x y = (if length x \<noteq> length y then None else Some (map (\<lambda>(a, b). a + b) (zip x y)))"

definition vec_sub :: "Vector \<Rightarrow> Vector \<Rightarrow> Vector option" where
  "vec_sub x y = (if length x \<noteq> length y then None else Some (map (\<lambda>(a, b). a - b) (zip x y)))"

text \<open>
  \<^verbatim>\<open>inverseChol\<close> is a function of the matrix library, not of the solvers. The solvers
  take it as a parameter \<open>inverseChol\<close>: \<open>None\<close> when it throws (the matrix is not square or
  not positive definite). What the solvers rely on is its shape: a result has the shape
  of the square argument.
\<close>

type_synonym inverter = "Matrix \<Rightarrow> Matrix option"

definition inverseChol_shape :: "inverter \<Rightarrow> bool" where
  "inverseChol_shape inverseChol =
     (\<forall>A B. inverseChol A = Some B \<longrightarrow> isSquare A \<and> rows B = rows A \<and> cols B = cols A)"

text \<open>
  A small inverter for running the update on concrete data: it inverts square diagonal
  matrices with positive diagonal (entry by entry) and refuses everything else.
\<close>

definition is_diag_pos :: "Matrix \<Rightarrow> bool" where
  "is_diag_pos A =
     list_all (\<lambda>i. list_all (\<lambda>j. if i = j then 0 < elems A i j else elems A i j = 0)
                      [0..<cols A]) [0..<rows A]"

definition inverseDiag :: inverter where
  "inverseDiag A =
     (if rows A = cols A \<and> is_diag_pos A
      then Some \<lparr>rows = rows A, cols = cols A,
                 elems = (\<lambda>i j. if i = j \<and> i < rows A then 1 / elems A i i else 0)\<rparr>
      else None)"

section \<open>Errors\<close>

datatype error =
    InvalidSolver string
  | ProcessingException string
  | SVNumException string
  | MatrixException
  | UndefinedBehaviour string
  | Terminate string

section \<open>The Kalman filter members shared by both solvers\<close>

record SolverBase =
  firstTime :: bool
  measVector :: Vector
  hMatrix :: Matrix
  rMatrix :: Matrix
  phiMatrix :: Matrix
  qMatrix :: Matrix
  xhat :: Vector
  P :: Matrix
  xhatminus :: Vector
  Pminus :: Matrix
  solution :: Vector
  covMatrix :: Matrix
  postfitResiduals :: Vector
  valid :: bool

text \<open>
  \<^verbatim>\<open>TimeUpdate\<close>: the checks, then \<^verbatim>\<open>xhatminus = phi*xhat\<close> and
  \<^verbatim>\<open>Pminus = phi*P*phiT + Q\<close> inside one \<^verbatim>\<open>try\<close>. \<open>numUnknowns\<close> is the solver's
  member (PPPUC) or the equation system's count (UpdNL). The second squareness check
  reads the member \<^verbatim>\<open>qMatrix\<close>, the sum uses the argument.
\<close>

definition TimeUpdate ::
  "nat \<Rightarrow> Matrix \<Rightarrow> Matrix \<Rightarrow> 'a SolverBase_scheme \<Rightarrow> (error + int) \<times> 'a SolverBase_scheme" where
  "TimeUpdate numUnknowns phi processNoiseCovariance s =
     (if \<not> isSquare phi then (Inl (InvalidSolver ''phiMatrix is not square''), s)
      else if length (xhat s) \<noteq> numUnknowns
        then (Inl (InvalidSolver ''TimeUpdate(): Size of a posteriori state estimation vector do not match the number of unknowns''), s)
      else if rows phi \<noteq> numUnknowns
        then (Inl (InvalidSolver ''Number of unknowns does not match dimension of phiMatrix''), s)
      else if \<not> isSquare (qMatrix s) then (Inl (InvalidSolver ''qMatrix is not square''), s)
      else if rows (qMatrix s) \<noteq> numUnknowns
        then (Inl (InvalidSolver ''Number of unknowns does not match dimension of qMatrix''), s)
      else
        (case mat_vec phi (xhat s) of
           None \<Rightarrow> (Inl (InvalidSolver ''TimeUpdate(): Unable to predict next state.''), s)
         | Some xm \<Rightarrow>
            (let s1 = s\<lparr>xhatminus := xm\<rparr> in
             case Option.bind (Option.bind (mat_mul phi (P s1)) (\<lambda>a. mat_mul a (transpose_m phi)))
                              (\<lambda>b. mat_add b processNoiseCovariance) of
               None \<Rightarrow> (Inl (InvalidSolver ''TimeUpdate(): Unable to predict next state.''), s1)
             | Some pm \<Rightarrow> (Inr 0, s1\<lparr>Pminus := pm\<rparr>))))"

text \<open>
  \<^verbatim>\<open>SolverPPPUC::MeasUpdate\<close>. \<^verbatim>\<open>valid\<close> is cleared first. Each assignment of the
  source is one record update, in the source's order, so the state returned with an
  error is the state the object is left in when the exception leaves the method:
  \<^verbatim>\<open>P\<close> is assigned inside the second \<^verbatim>\<open>try\<close>, \<^verbatim>\<open>xhat\<close> inside the third,
  \<^verbatim>\<open>solution\<close> and \<^verbatim>\<open>covMatrix\<close> after it. The last statement (the postfit
  residuals) is outside every \<^verbatim>\<open>try\<close>: an exception there leaves as it is.
\<close>

definition MeasUpdate_checks ::
  "Vector \<Rightarrow> Matrix \<Rightarrow> Matrix \<Rightarrow> 'a SolverBase_scheme \<Rightarrow> error option" where
  "MeasUpdate_checks prefitResiduals designMatrix weightMatrix s =
     (if \<not> isSquare weightMatrix
        then Some (InvalidSolver ''MeasUpdate(): Weight matrix is not square'')
      else if rows weightMatrix \<noteq> length prefitResiduals
        then Some (InvalidSolver ''MeasUpdate(): prefitResiduals size does not match dimension of weightMatrix'')
      else if rows designMatrix \<noteq> length prefitResiduals
        then Some (InvalidSolver ''MeasUpdate(): prefitResiduals size does not match dimension of designMatrix'')
      else if cols designMatrix \<noteq> length (xhatminus s)
        then Some (InvalidSolver ''MeasUpdate(): designMatrix size and a priori state estimation vector do not match.'')
      else if cols (Pminus s) \<noteq> length (xhatminus s)
        then Some (InvalidSolver ''MeasUpdate(): Sizes of a priori error covariance matrix and a priori state estimation vector do not match.'')
      else None)"

definition MeasUpdate_P :: "inverter \<Rightarrow> Matrix \<Rightarrow> Matrix \<Rightarrow> Matrix \<Rightarrow> Matrix \<Rightarrow> Matrix option" where
  "MeasUpdate_P inverseChol designMatrixT weightMatrix designMatrix invPMinus =
     (case mat_mul designMatrixT weightMatrix of None \<Rightarrow> None
      | Some a \<Rightarrow> (case mat_mul a designMatrix of None \<Rightarrow> None
      | Some b \<Rightarrow> (case mat_add b invPMinus of None \<Rightarrow> None
      | Some invTemp \<Rightarrow> inverseChol invTemp)))"

definition MeasUpdate_xhat ::
  "Matrix \<Rightarrow> Matrix \<Rightarrow> Matrix \<Rightarrow> Vector \<Rightarrow> Matrix \<Rightarrow> Vector \<Rightarrow> Vector option" where
  "MeasUpdate_xhat Pnew designMatrixT weightMatrix prefitResiduals invPMinus xm =
     (case mat_mul designMatrixT weightMatrix of None \<Rightarrow> None
      | Some a \<Rightarrow> (case mat_vec a prefitResiduals of None \<Rightarrow> None
      | Some l \<Rightarrow> (case mat_vec invPMinus xm of None \<Rightarrow> None
      | Some r \<Rightarrow> (case vec_add l r of None \<Rightarrow> None
      | Some t \<Rightarrow> mat_vec Pnew t))))"

definition MeasUpdate_postfit :: "Vector \<Rightarrow> Matrix \<Rightarrow> Vector \<Rightarrow> Vector option" where
  "MeasUpdate_postfit prefitResiduals designMatrix sol =
     (case mat_vec designMatrix sol of None \<Rightarrow> None
      | Some hx \<Rightarrow> vec_sub prefitResiduals hx)"

definition PPPUC_MeasUpdate ::
  "inverter \<Rightarrow> Vector \<Rightarrow> Matrix \<Rightarrow> Matrix \<Rightarrow> 'a SolverBase_scheme
     \<Rightarrow> (error + int) \<times> 'a SolverBase_scheme" where
  "PPPUC_MeasUpdate inverseChol prefitResiduals designMatrix weightMatrix s =
     (let s0 = s\<lparr>valid := False\<rparr> in
      case MeasUpdate_checks prefitResiduals designMatrix weightMatrix s0 of
        Some e \<Rightarrow> (Inl e, s0)
      | None \<Rightarrow>
         (let designMatrixT = transpose_m designMatrix in
          case inverseChol (Pminus s0) of
            None \<Rightarrow> (Inl (InvalidSolver ''MeasUpdate(): Unable to compute invPMinus matrix.''), s0)
          | Some invPMinus \<Rightarrow>
             (case MeasUpdate_P inverseChol designMatrixT weightMatrix designMatrix invPMinus of
                None \<Rightarrow> (Inl (InvalidSolver ''MeasUpdate(): Unable to compute P matrix.''), s0)
              | Some Pnew \<Rightarrow>
                 (let s1 = s0\<lparr>P := Pnew\<rparr> in
                  case MeasUpdate_xhat (P s1) designMatrixT weightMatrix prefitResiduals
                         invPMinus (xhatminus s1) of
                    None \<Rightarrow> (Inl (InvalidSolver ''MeasUpdate(): Unable to compute xhat.''), s1)
                  | Some x \<Rightarrow>
                     (let s2 = s1\<lparr>xhat := x\<rparr>;
                          s3 = s2\<lparr>solution := xhat s2\<rparr>;
                          s4 = s3\<lparr>covMatrix := P s3\<rparr> in
                      case MeasUpdate_postfit prefitResiduals designMatrix (solution s4) of
                        None \<Rightarrow> (Inl MatrixException, s4)
                      | Some r \<Rightarrow> (Inr 0, s4\<lparr>postfitResiduals := r, valid := True\<rparr>))))))"

text \<open>
  \<^verbatim>\<open>SolverUpdNL::MeasUpdate\<close> is the same method with two more assignments after the
  third \<^verbatim>\<open>try\<close>: \<^verbatim>\<open>xhatminus = xhat; Pminus = P;\<close>.
\<close>

definition UpdNL_MeasUpdate ::
  "inverter \<Rightarrow> Vector \<Rightarrow> Matrix \<Rightarrow> Matrix \<Rightarrow> 'a SolverBase_scheme
     \<Rightarrow> (error + int) \<times> 'a SolverBase_scheme" where
  "UpdNL_MeasUpdate inverseChol prefitResiduals designMatrix weightMatrix s =
     (let s0 = s\<lparr>valid := False\<rparr> in
      case MeasUpdate_checks prefitResiduals designMatrix weightMatrix s0 of
        Some e \<Rightarrow> (Inl e, s0)
      | None \<Rightarrow>
         (let designMatrixT = transpose_m designMatrix in
          case inverseChol (Pminus s0) of
            None \<Rightarrow> (Inl (InvalidSolver ''MeasUpdate(): Unable to compute invPMinus matrix.''), s0)
          | Some invPMinus \<Rightarrow>
             (case MeasUpdate_P inverseChol designMatrixT weightMatrix designMatrix invPMinus of
                None \<Rightarrow> (Inl (InvalidSolver ''MeasUpdate(): Unable to compute P matrix.''), s0)
              | Some Pnew \<Rightarrow>
                 (let s1 = s0\<lparr>P := Pnew\<rparr> in
                  case MeasUpdate_xhat (P s1) designMatrixT weightMatrix prefitResiduals
                         invPMinus (xhatminus s1) of
                    None \<Rightarrow> (Inl (InvalidSolver ''MeasUpdate(): Unable to compute xhat.''), s1)
                  | Some x \<Rightarrow>
                     (let s2 = s1\<lparr>xhat := x\<rparr>;
                          s2a = s2\<lparr>xhatminus := xhat s2\<rparr>;
                          s2b = s2a\<lparr>Pminus := P s2a\<rparr>;
                          s3 = s2b\<lparr>solution := xhat s2b\<rparr>;
                          s4 = s3\<lparr>covMatrix := P s3\<rparr> in
                      case MeasUpdate_postfit prefitResiduals designMatrix (solution s4) of
                        None \<Rightarrow> (Inl MatrixException, s4)
                      | Some r \<Rightarrow> (Inr 0, s4\<lparr>postfitResiduals := r, valid := True\<rparr>))))))"

text \<open>
  The update as the specification words it (information form), for comparison with the
  methods above: \<open>posteriorCov = inverse(transpose(H) R H + inverse(predictedCov))\<close>,
  \<open>posteriorState = posteriorCov (transpose(H) R prefit + inverse(predictedCov) predictedState)\<close>,
  \<open>postfit = prefit - H posteriorState\<close>. Each is \<open>None\<close> when an operation in it
  is undefined.
\<close>

definition spec_posteriorCov :: "inverter \<Rightarrow> Matrix \<Rightarrow> Matrix \<Rightarrow> Matrix \<Rightarrow> Matrix option" where
  "spec_posteriorCov inverseChol H R predictedCov =
     do { ip \<leftarrow> inverseChol predictedCov;
          htr \<leftarrow> mat_mul (transpose_m H) R;
          htrh \<leftarrow> mat_mul htr H;
          info \<leftarrow> mat_add htrh ip;
          inverseChol info }"

definition spec_posteriorState ::
  "inverter \<Rightarrow> Matrix \<Rightarrow> Matrix \<Rightarrow> Vector \<Rightarrow> Vector \<Rightarrow> Matrix \<Rightarrow> Matrix \<Rightarrow> Vector option" where
  "spec_posteriorState inverseChol H R prefit predictedState predictedCov posteriorCov =
     do { ip \<leftarrow> inverseChol predictedCov;
          htr \<leftarrow> mat_mul (transpose_m H) R;
          a \<leftarrow> mat_vec htr prefit;
          b \<leftarrow> mat_vec ip predictedState;
          c \<leftarrow> vec_add a b;
          mat_vec posteriorCov c }"

definition spec_postfit :: "Vector \<Rightarrow> Matrix \<Rightarrow> Vector \<Rightarrow> Vector option" where
  "spec_postfit prefit H posteriorState =
     do { hx \<leftarrow> mat_vec H posteriorState; vec_sub prefit hx }"

section \<open>Variables and Variable-keyed containers\<close>

datatype TypeID =
    wetMap | prefitC | prefitP2 | prefitL1 | prefitL2 | prefitL
  | postfitC | postfitP2 | postfitL1 | postfitL2 | postfitL
  | dx | dy | dz | dLat | dLon | dH | cdt
  | elevation | weight | ionoL1 | BL1 | BL2 | BLC | BWL

text \<open>
  Modelled from the spec: the integer behind each \<^verbatim>\<open>TypeID\<close> (the enumeration is not
  among the sources). The solvers' comments fix the order they rely on: \<^verbatim>\<open>wetMap\<close>
  first, then the coordinates, then \<^verbatim>\<open>cdt\<close>; and \<^verbatim>\<open>ionoL1\<close>, \<^verbatim>\<open>BL1\<close>,
  \<^verbatim>\<open>BL2\<close> in this order.
\<close>

primrec TypeID_code :: "TypeID \<Rightarrow> nat" where
  "TypeID_code wetMap = 0"
| "TypeID_code prefitC = 1"
| "TypeID_code prefitP2 = 2"
| "TypeID_code prefitL1 = 3"
| "TypeID_code prefitL2 = 4"
| "TypeID_code prefitL = 5"
| "TypeID_code postfitC = 6"
| "TypeID_code postfitP2 = 7"
| "TypeID_code postfitL1 = 8"
| "TypeID_code postfitL2 = 9"
| "TypeID_code postfitL = 10"
| "TypeID_code dx = 11"
| "TypeID_code dy = 12"
| "TypeID_code dz = 13"
| "TypeID_code dLat = 14"
| "TypeID_code dLon = 15"
| "TypeID_code dH = 16"
| "TypeID_code cdt = 17"
| "TypeID_code elevation = 18"
| "TypeID_code weight = 19"
| "TypeID_code ionoL1 = 20"
| "TypeID_code BL1 = 21"
| "TypeID_code BL2 = 22"
| "TypeID_code BLC = 23"
| "TypeID_code BWL = 24"

text \<open>A satellite is a system and a number; a source is a number.\<close>

type_synonym SatID = "nat \<times> int"
type_synonym SourceID = nat

definition allSources :: SourceID where
  "allSources = 0"

definition noSats :: SatID where
  "noSats = (0, -1)"

record Variable =
  varType :: TypeID
  pVarModel :: nat
  isSourceIndexed :: bool
  isSatIndexed :: bool
  isTypeIndexed :: bool
  initialVariance :: real
  defaultCoefficient :: real
  forceDefault :: bool
  varSource :: SourceID
  varSat :: SatID
  m_now_index :: int
  m_pre_index :: int

text \<open>
  The common constructor \<^verbatim>\<open>Variable(type)\<close> with the defaults of its declaration:
  source-indexed, not satellite-indexed, variance \<open>1.0e10\<close>, coefficient \<open>1.0\<close>.
\<close>

definition Variable_of :: "TypeID \<Rightarrow> Variable" where
  "Variable_of ty =
     \<lparr>varType = ty, pVarModel = 0, isSourceIndexed = True, isSatIndexed = False,
      isTypeIndexed = True, initialVariance = 10000000000, defaultCoefficient = 1,
      forceDefault = False, varSource = allSources, varSat = noSats,
      m_now_index = -1, m_pre_index = -1\<rparr>"

definition setSatellite :: "SatID \<Rightarrow> Variable \<Rightarrow> Variable" where
  "setSatellite satellite v = v\<lparr>varSat := satellite\<rparr>"

definition getInitialVariance :: "Variable \<Rightarrow> real" where
  "getInitialVariance v = initialVariance v"

text \<open>
  Modelled from the spec: \<^verbatim>\<open>Variable::operator==\<close> and \<^verbatim>\<open>Variable::operator<\<close>
  are declared in the header and defined elsewhere. The specification gives the identity
  of a Variable as (observable type, owning source, owning satellite, source-indexed
  flag, satellite-indexed flag), independent of model, variance and indices, and asks
  for a total order on it. Two Variables are the same key exactly when their
  identities are equal, and the order of a set of Variables is the lexicographic order
  of the identities.
\<close>

type_synonym VarId = "nat \<times> SourceID \<times> SatID \<times> bool \<times> bool"

definition identity :: "Variable \<Rightarrow> VarId" where
  "identity v = (TypeID_code (varType v), varSource v, varSat v, isSourceIndexed v, isSatIndexed v)"

text \<open>
  A \<^verbatim>\<open>std::set<Variable>\<close> is the list of its elements in iteration order: strictly
  increasing identities. \<^verbatim>\<open>insert\<close> keeps an element already present;
  \<^verbatim>\<open>erase\<close> removes the element with the given identity.
\<close>

type_synonym VariableSet = "Variable list"

definition is_VariableSet :: "VariableSet \<Rightarrow> bool" where
  "is_VariableSet us = sorted_wrt (<) (map identity us)"

fun set_insert :: "Variable \<Rightarrow> VariableSet \<Rightarrow> VariableSet" where
  "set_insert v [] = [v]"
| "set_insert v (u # us) =
     (if identity v < identity u then v # u # us
      else if identity v = identity u then u # us
      else u # set_insert v us)"

definition set_erase :: "Variable \<Rightarrow> VariableSet \<Rightarrow> VariableSet" where
  "set_erase v us = filter (\<lambda>u. identity u \<noteq> identity v) us"

text \<open>
  \<^verbatim>\<open>std::map\<close> with \<^verbatim>\<open>operator[]\<close>: reading a missing key inserts the default
  value (\<open>0.0\<close>, or an empty inner map) and returns it.
\<close>

type_synonym VariableDataMap = "VarId \<rightharpoonup> real"
type_synonym CovarianceMap = "VarId \<rightharpoonup> VariableDataMap"

definition map_at :: "('k \<rightharpoonup> real) \<Rightarrow> 'k \<Rightarrow> real \<times> ('k \<rightharpoonup> real)" where
  "map_at m k = (case m k of Some v \<Rightarrow> (v, m) | None \<Rightarrow> (0, m(k \<mapsto> 0)))"

definition map_inner :: "('k \<rightharpoonup> ('j \<rightharpoonup> real)) \<Rightarrow> 'k \<Rightarrow> ('j \<rightharpoonup> real)" where
  "map_inner m k = (case m k of Some inner \<Rightarrow> inner | None \<Rightarrow> Map.empty)"

definition map_at2 ::
  "('k \<rightharpoonup> ('j \<rightharpoonup> real)) \<Rightarrow> 'k \<Rightarrow> 'j \<Rightarrow> real \<times> ('k \<rightharpoonup> ('j \<rightharpoonup> real))" where
  "map_at2 m k1 k2 =
     (let (v, inner) = map_at (map_inner m k1) k2 in (v, m(k1 \<mapsto> inner)))"

definition map_put2 ::
  "('k \<rightharpoonup> ('j \<rightharpoonup> real)) \<Rightarrow> 'k \<Rightarrow> 'j \<Rightarrow> real \<Rightarrow> ('k \<rightharpoonup> ('j \<rightharpoonup> real))" where
  "map_put2 m k1 k2 v = m(k1 \<mapsto> (map_inner m k1)(k2 \<mapsto> v))"

section \<open>SolverUpdNL\<close>

text \<open>
  The equation system is an external collaborator; the solver reads these seven
  results of \<^verbatim>\<open>equSystem.Prepare\<close> through its getters.
\<close>

record EquationSystem =
  getPrefitsVector :: Vector
  getGeometryMatrix :: Matrix
  getWeightsMatrix :: Matrix
  getPhiMatrix :: Matrix
  getQMatrix :: Matrix
  getTotalNumVariables :: nat
  getVarUnknowns :: VariableSet

record SolverUpdNL = SolverBase +
  index :: int
  stateMap :: VariableDataMap
  covarianceMap :: CovarianceMap
  stateMapminus :: VariableDataMap
  covMapminus :: CovarianceMap
  ambFixedMap :: "(Variable \<times> real) list"
  isIndepAmbDatum :: bool

text \<open>
  Every exception of type \<^verbatim>\<open>Exception\<close> raised inside \<^verbatim>\<open>preCompute\<close>,
  \<^verbatim>\<open>AmbiguityConstr\<close>, \<^verbatim>\<open>postCompute\<close> and \<^verbatim>\<open>Process\<close> is caught and thrown
  again as a \<^verbatim>\<open>ProcessingException\<close> with the text
  \<^verbatim>\<open>getClassName() + ":" + StringUtils::asString( getIndex() ) + ":" + u.what()\<close>.
  \<^verbatim>\<open>getIndex\<close> returns the member \<^verbatim>\<open>index\<close>; \<^verbatim>\<open>asString\<close> of an integer is
  its decimal representation.
\<close>

fun asString_nat :: "nat \<Rightarrow> string" where
  "asString_nat n =
     (if n < 10 then [''0123456789'' ! n]
      else asString_nat (n div 10) @ [''0123456789'' ! (n mod 10)])"

declare asString_nat.simps [simp del]

definition asString :: "int \<Rightarrow> string" where
  "asString i = (if i < 0 then ''-'' @ asString_nat (nat (- i)) else asString_nat (nat i))"

fun what :: "error \<Rightarrow> string" where
  "what (InvalidSolver m) = m"
| "what (ProcessingException m) = m"
| "what (SVNumException m) = m"
| "what MatrixException = ''MatrixException''"
| "what (UndefinedBehaviour m) = m"
| "what (Terminate m) = m"

text \<open>
  Undefined behaviour is not an exception, and after \<^verbatim>\<open>std::terminate\<close> no handler
  runs: both pass through.
\<close>

definition rethrow :: "string \<Rightarrow> int \<Rightarrow> error \<Rightarrow> error" where
  "rethrow className idx u =
     (case u of UndefinedBehaviour m \<Rightarrow> UndefinedBehaviour m
      | Terminate m \<Rightarrow> Terminate m
      | _ \<Rightarrow> ProcessingException (className @ '':'' @ asString idx @ '':'' @ what u))"

text \<open>
  \<^verbatim>\<open>Compute\<close> is declared \<^verbatim>\<open>throw(InvalidSolver)\<close>. An exception of another type
  that reaches this exception specification calls \<^verbatim>\<open>std::unexpected\<close>, which ends
  the process: no handler of the callers sees it.
\<close>

definition throw_InvalidSolver :: "error \<Rightarrow> error" where
  "throw_InvalidSolver u =
     (case u of InvalidSolver m \<Rightarrow> InvalidSolver m
      | UndefinedBehaviour m \<Rightarrow> UndefinedBehaviour m
      | Terminate m \<Rightarrow> Terminate m
      | _ \<Rightarrow> Terminate (''std::unexpected: '' @ what u))"

text \<open>
  The loops over the unknowns. The source walks the set with an iterator and a running
  index; the functions below take the rest of the walk and the index. A read or write at
  an index outside a vector or matrix is undefined in the source: the callers below
  check the sizes first and report \<open>UndefinedBehaviour\<close> instead of running such a
  loop.
\<close>

text \<open>\<^verbatim>\<open>initialErrorCovariance(i,i) = (*itVar).getInitialVariance(); ++i;\<close>\<close>

fun fill_initialCov :: "VariableSet \<Rightarrow> nat \<Rightarrow> Matrix \<Rightarrow> Matrix" where
  "fill_initialCov [] i M = M"
| "fill_initialCov (v # vs) i M = fill_initialCov vs (Suc i) (mset M i i (getInitialVariance v))"

text \<open>\<^verbatim>\<open>currentState(i) = stateMap[ (*itVar) ]; ++i;\<close>\<close>

fun fill_currentState ::
  "VariableSet \<Rightarrow> nat \<Rightarrow> Vector \<times> VariableDataMap \<Rightarrow> Vector \<times> VariableDataMap" where
  "fill_currentState [] i (cs, sm) = (cs, sm)"
| "fill_currentState (v # vs) i (cs, sm) =
     (let (x, sm') = map_at sm (identity v)
      in fill_currentState vs (Suc i) (cs[i := x], sm'))"

text \<open>
  The inner loop over \<^verbatim>\<open>tempSet\<close>:
  \<^verbatim>\<open>currentErrorCov(i,j) = currentErrorCov(j,i) = covarianceMap[*itVar1][*itVar2]; ++j;\<close>
\<close>

fun fill_covRow ::
  "VarId \<Rightarrow> VariableSet \<Rightarrow> nat \<Rightarrow> nat \<Rightarrow> Matrix \<times> CovarianceMap \<Rightarrow> Matrix \<times> CovarianceMap" where
  "fill_covRow k1 [] i j (M, cm) = (M, cm)"
| "fill_covRow k1 (v2 # vs) i j (M, cm) =
     (let (x, cm') = map_at2 cm k1 (identity v2)
      in fill_covRow k1 vs i (Suc j) (mset (mset M j i x) i j x, cm'))"

text \<open>
  The outer loop: the diagonal entry from the map when the Variable is a key of
  \<^verbatim>\<open>covarianceMap\<close>, its initial variance otherwise; then the Variable is erased from
  \<^verbatim>\<open>tempSet\<close> and the inner loop runs over what is left.
\<close>

fun fill_currentErrorCov ::
  "VariableSet \<Rightarrow> VariableSet \<Rightarrow> nat \<Rightarrow> Matrix \<times> CovarianceMap \<Rightarrow> Matrix \<times> CovarianceMap" where
  "fill_currentErrorCov [] tempSet i (M, cm) = (M, cm)"
| "fill_currentErrorCov (v1 # vs) tempSet i (M, cm) =
     (let (M1, cm1) =
            (if cm (identity v1) \<noteq> None
             then (let (x, cm') = map_at2 cm (identity v1) (identity v1) in (mset M i i x, cm'))
             else (mset M i i (getInitialVariance v1), cm));
          tempSet1 = set_erase v1 tempSet;
          (M2, cm2) = fill_covRow (identity v1) tempSet1 i (Suc i) (M1, cm1)
      in fill_currentErrorCov vs tempSet1 (Suc i) (M2, cm2))"

definition UpdNL_preCompute ::
  "EquationSystem \<Rightarrow> SolverUpdNL \<Rightarrow> (error + unit) \<times> SolverUpdNL" where
  "UpdNL_preCompute equSystem s =
     (let s1 = s\<lparr>measVector := getPrefitsVector equSystem,
                  hMatrix := getGeometryMatrix equSystem,
                  rMatrix := getWeightsMatrix equSystem,
                  phiMatrix := getPhiMatrix equSystem,
                  qMatrix := getQMatrix equSystem\<rparr>;
          numUnknowns = getTotalNumVariables equSystem;
          unkSet = getVarUnknowns equSystem
      in if numUnknowns < length unkSet
         then (Inl (UndefinedBehaviour ''preCompute: index beyond the number of unknowns''), s1)
         else if firstTime s1 then
           (let initialState = Vector_fill numUnknowns 0;
                initialErrorCovariance =
                  fill_initialCov unkSet 0 (Matrix_fill numUnknowns numUnknowns 0)
            in (Inr (), s1\<lparr>xhat := initialState, P := initialErrorCovariance, firstTime := False\<rparr>))
         else
           (let (currentState, sm) =
                  fill_currentState unkSet 0 (Vector_fill numUnknowns 0, stateMap s1);
                tempSet = unkSet;
                (currentErrorCov, cm) =
                  fill_currentErrorCov unkSet tempSet 0
                    (Matrix_fill numUnknowns numUnknowns 0, covarianceMap s1)
            in (Inr (), s1\<lparr>stateMap := sm, covarianceMap := cm,
                           xhat := currentState, P := currentErrorCov\<rparr>)))"

text \<open>
  \<^verbatim>\<open>postCompute\<close>, the part that stores the posterior: both maps are cleared, then
  \<^verbatim>\<open>stateMap[*itVar] = solution(i)\<close>, \<^verbatim>\<open>covarianceMap[*itVar1][*itVar1] = covMatrix(i,i)\<close>
  and, over \<^verbatim>\<open>tempSet\<close>, \<^verbatim>\<open>covarianceMap[*itVar1][*itVar2] = covMatrix(i,j)\<close>.
  What follows in the source writes the postfit residuals into the data structure and
  counts fixed ambiguities per satellite; neither touches the filter.
\<close>

fun store_state :: "VariableSet \<Rightarrow> nat \<Rightarrow> Vector \<Rightarrow> VariableDataMap \<Rightarrow> VariableDataMap" where
  "store_state [] i sol sm = sm"
| "store_state (v # vs) i sol sm = store_state vs (Suc i) sol (sm(identity v \<mapsto> sol ! i))"

fun store_covRow ::
  "VarId \<Rightarrow> VariableSet \<Rightarrow> nat \<Rightarrow> nat \<Rightarrow> Matrix \<Rightarrow> CovarianceMap \<Rightarrow> CovarianceMap" where
  "store_covRow k1 [] i j C cm = cm"
| "store_covRow k1 (v2 # vs) i j C cm =
     store_covRow k1 vs i (Suc j) C (map_put2 cm k1 (identity v2) (mget C i j))"

fun store_cov ::
  "VariableSet \<Rightarrow> VariableSet \<Rightarrow> nat \<Rightarrow> Matrix \<Rightarrow> CovarianceMap \<Rightarrow> CovarianceMap" where
  "store_cov [] tempSet i C cm = cm"
| "store_cov (v1 # vs) tempSet i C cm =
     (let cm1 = map_put2 cm (identity v1) (identity v1) (mget C i i);
          tempSet1 = set_erase v1 tempSet;
          cm2 = store_covRow (identity v1) tempSet1 i (Suc i) C cm1
      in store_cov vs tempSet1 (Suc i) C cm2)"

definition UpdNL_postCompute ::
  "EquationSystem \<Rightarrow> SolverUpdNL \<Rightarrow> (error + unit) \<times> SolverUpdNL" where
  "UpdNL_postCompute equSystem s =
     (let s1 = s\<lparr>stateMap := Map.empty, covarianceMap := Map.empty\<rparr>;
          unkSet = getVarUnknowns equSystem
      in if length (solution s1) < length unkSet \<or> rows (covMatrix s1) < length unkSet
            \<or> cols (covMatrix s1) < length unkSet
         then (Inl (UndefinedBehaviour ''postCompute: index beyond the solution''), s1)
         else
           (let sm = store_state unkSet 0 (solution s1) (stateMap s1);
                cm = store_cov unkSet unkSet 0 (covMatrix s1) (covarianceMap s1)
            in (Inr (), s1\<lparr>stateMap := sm, covarianceMap := cm\<rparr>)))"

subsection \<open>The ambiguity constraints\<close>

text \<open>
  The resolvers (\<^verbatim>\<open>indepAmbDatum\<close>, \<^verbatim>\<open>ambiguityDatum\<close>) are external: each is a
  function from the predicted state and covariance maps to the map of fixed
  ambiguities, given as the list of its entries in iteration order.
\<close>

type_synonym resolver = "VariableDataMap \<Rightarrow> CovarianceMap \<Rightarrow> (Variable \<times> real) list"

text \<open>
  \<^verbatim>\<open>while( (*itUnk) != (*it).first ) { ++jcol; ++itUnk; }\<close>: the column of a fixed
  ambiguity. The loop has no end test; when the Variable is not in the set the iterator
  runs past the end (\<open>None\<close>).
\<close>

fun find_jcol :: "Variable \<Rightarrow> VariableSet \<Rightarrow> nat \<Rightarrow> nat option" where
  "find_jcol a [] jcol = None"
| "find_jcol a (u # us) jcol =
     (if identity u \<noteq> identity a then find_jcol a us (Suc jcol) else Some jcol)"

text \<open>
  The loop over \<^verbatim>\<open>ambFixedMap\<close>: per entry the prefit is the fixed value, the
  coefficient in the Variable's column is \<open>1.0\<close> and the weight is \<open>1.0E+14\<close>.
\<close>

fun fixed_equations ::
  "(Variable \<times> real) list \<Rightarrow> VariableSet \<Rightarrow> nat \<Rightarrow> Vector \<times> Matrix \<times> Matrix
     \<Rightarrow> error + Vector \<times> Matrix \<times> Matrix" where
  "fixed_equations [] unkSet nrow (mv, hm, rm) = Inr (mv, hm, rm)"
| "fixed_equations (it # rest) unkSet nrow (mv, hm, rm) =
     (case find_jcol (fst it) unkSet 0 of
        None \<Rightarrow> Inl (UndefinedBehaviour ''AmbiguityConstr: iterator beyond the end of unkSet'')
      | Some jcol \<Rightarrow>
          if cols hm \<le> jcol
          then Inl (UndefinedBehaviour ''AmbiguityConstr: column beyond hMatrixFix'')
          else fixed_equations rest unkSet (Suc nrow)
                 (mv[nrow := snd it], mset hm nrow jcol 1, mset rm nrow nrow 100000000000000))"

text \<open>
  The two copy loops into \<^verbatim>\<open>tempPrefit\<close>, \<^verbatim>\<open>tempGeometry\<close> and \<^verbatim>\<open>tempWeight\<close>:
  of the weights only the diagonal entry \<^verbatim>\<open>(i,i)\<close> is copied.
\<close>

definition copy_row ::
  "nat \<Rightarrow> nat \<Rightarrow> nat \<Rightarrow> Vector \<Rightarrow> Matrix \<Rightarrow> Matrix \<Rightarrow> Vector \<times> Matrix \<times> Matrix
     \<Rightarrow> Vector \<times> Matrix \<times> Matrix" where
  "copy_row numUnknowns rowStart i mv hm rm T =
     (case T of (tempPrefit, tempGeometry, tempWeight) \<Rightarrow>
        (tempPrefit[rowStart + i := mv ! i],
         fold (\<lambda>j g. mset g (rowStart + i) j (mget hm i j)) [0..<numUnknowns] tempGeometry,
         mset tempWeight (rowStart + i) (rowStart + i) (mget rm i i)))"

definition copy_rows ::
  "nat \<Rightarrow> nat \<Rightarrow> nat \<Rightarrow> Vector \<Rightarrow> Matrix \<Rightarrow> Matrix \<Rightarrow> Vector \<times> Matrix \<times> Matrix
     \<Rightarrow> Vector \<times> Matrix \<times> Matrix" where
  "copy_rows numUnknowns rowStart n mv hm rm T =
     fold (\<lambda>i. copy_row numUnknowns rowStart i mv hm rm) [0..<n] T"

text \<open>
  \<^verbatim>\<open>AmbiguityConstr\<close>: the predicted state and covariance go into
  \<^verbatim>\<open>stateMapminus\<close> and \<^verbatim>\<open>covMapminus\<close> (the same two walks as in
  \<^verbatim>\<open>postCompute\<close>, reading \<^verbatim>\<open>xhatminus\<close> and \<^verbatim>\<open>Pminus\<close>), the resolver
  chosen by \<^verbatim>\<open>isIndepAmbDatum\<close> gives \<^verbatim>\<open>ambFixedMap\<close>, an empty map raises, and
  the constraint rows are appended below the measurement rows. The exception is caught
  by the method's own handler and thrown again.
\<close>

definition AmbiguityConstr ::
  "resolver \<Rightarrow> resolver \<Rightarrow> EquationSystem \<Rightarrow> SolverUpdNL \<Rightarrow> (error + unit) \<times> SolverUpdNL" where
  "AmbiguityConstr indepAmbDatum ambiguityDatum equSystem s =
     (let unkSet = getVarUnknowns equSystem;
          numUnknowns = getTotalNumVariables equSystem;
          s1 = s\<lparr>stateMapminus := Map.empty, covMapminus := Map.empty\<rparr>
      in if length (xhatminus s1) < length unkSet \<or> rows (Pminus s1) < length unkSet
            \<or> cols (Pminus s1) < length unkSet
         then (Inl (UndefinedBehaviour ''AmbiguityConstr: index beyond the predicted state''), s1)
         else
          (let s2 = s1\<lparr>stateMapminus := store_state unkSet 0 (xhatminus s1) (stateMapminus s1)\<rparr>;
               s3 = s2\<lparr>covMapminus := store_cov unkSet unkSet 0 (Pminus s2) (covMapminus s2)\<rparr>;
               s4 = s3\<lparr>ambFixedMap :=
                          (if isIndepAmbDatum s3
                           then indepAmbDatum (stateMapminus s3) (covMapminus s3)
                           else ambiguityDatum (stateMapminus s3) (covMapminus s3))\<rparr>;
               numFix = length (ambFixedMap s4)
           in if numFix = 0
              then (Inl (rethrow ''SolverUpdNL'' (index s4)
                      (ProcessingException ''The ambiguity constraint equation number is 0.'')), s4)
              else
               (case fixed_equations (ambFixedMap s4) unkSet 0
                       (Vector_fill numFix 0, Matrix_fill numFix numUnknowns 0,
                        Matrix_fill numFix numFix 0) of
                  Inl e \<Rightarrow> (Inl e, s4)
                | Inr (measVectorFix, hMatrixFix, rMatrixFix) \<Rightarrow>
                   (let numMeas = length (measVector s4);
                        numEqu = numMeas + numFix
                    in if rows (hMatrix s4) < numMeas \<or> cols (hMatrix s4) < numUnknowns
                          \<or> rows (rMatrix s4) < numMeas \<or> cols (rMatrix s4) < numMeas
                       then (Inl (UndefinedBehaviour
                                    ''AmbiguityConstr: index beyond hMatrix or rMatrix''), s4)
                       else
                        (let T0 = (Vector_fill numEqu 0, Matrix_fill numEqu numUnknowns 0,
                                   Matrix_fill numEqu numEqu 0);
                             T1 = copy_rows numUnknowns 0 numMeas
                                    (measVector s4) (hMatrix s4) (rMatrix s4) T0;
                             rowStart = numMeas;
                             T2 = copy_rows numUnknowns rowStart numFix
                                    measVectorFix hMatrixFix rMatrixFix T1
                         in case T2 of (tempPrefit, tempGeometry, tempWeight) \<Rightarrow>
                              (Inr (), s4\<lparr>measVector := tempPrefit, hMatrix := tempGeometry,
                                            rMatrix := tempWeight\<rparr>))))))"

text \<open>
  \<^verbatim>\<open>Compute\<close> and \<^verbatim>\<open>Process\<close> of SolverUpdNL: time update, ambiguity
  constraints, measurement update. An \<^verbatim>\<open>InvalidSolver\<close> ends the sequence and is
  thrown again by \<^verbatim>\<open>Process\<close>; the \<^verbatim>\<open>ProcessingException\<close> of
  \<^verbatim>\<open>AmbiguityConstr\<close> is not in the exception specification of \<^verbatim>\<open>Compute\<close> and
  ends the process.
\<close>

definition UpdNL_Compute ::
  "inverter \<Rightarrow> resolver \<Rightarrow> resolver \<Rightarrow> EquationSystem \<Rightarrow> SolverUpdNL
     \<Rightarrow> (error + unit) \<times> SolverUpdNL" where
  "UpdNL_Compute inverseChol indepAmbDatum ambiguityDatum equSystem s =
     (case TimeUpdate (getTotalNumVariables equSystem) (phiMatrix s) (qMatrix s) s of
        (Inl e, s1) \<Rightarrow> (Inl (throw_InvalidSolver e), s1)
      | (Inr _, s1) \<Rightarrow>
         (case AmbiguityConstr indepAmbDatum ambiguityDatum equSystem s1 of
            (Inl e, s2) \<Rightarrow> (Inl (throw_InvalidSolver e), s2)
          | (Inr _, s2) \<Rightarrow>
             (case UpdNL_MeasUpdate inverseChol (measVector s2) (hMatrix s2) (rMatrix s2) s2 of
                (Inl e, s3) \<Rightarrow> (Inl (throw_InvalidSolver e), s3)
              | (Inr _, s3) \<Rightarrow> (Inr (), s3))))"

definition UpdNL_Process ::
  "inverter \<Rightarrow> resolver \<Rightarrow> resolver \<Rightarrow> EquationSystem \<Rightarrow> SolverUpdNL
     \<Rightarrow> (error + unit) \<times> SolverUpdNL" where
  "UpdNL_Process inverseChol indepAmbDatum ambiguityDatum equSystem s =
     (case UpdNL_preCompute equSystem s of
        (Inl e, s1) \<Rightarrow> (Inl (rethrow ''SolverUpdNL'' (index s1) e), s1)
      | (Inr _, s1) \<Rightarrow>
         (case UpdNL_Compute inverseChol indepAmbDatum ambiguityDatum equSystem s1 of
            (Inl e, s2) \<Rightarrow> (Inl (rethrow ''SolverUpdNL'' (index s2) e), s2)
          | (Inr _, s2) \<Rightarrow>
             (case UpdNL_postCompute equSystem s2 of
                (Inl e, s3) \<Rightarrow> (Inl (rethrow ''SolverUpdNL'' (index s3) e), s3)
              | (Inr _, s3) \<Rightarrow> (Inr (), s3))))"

text \<open>
  The solver at the moment the resolver has answered: the predicted state and covariance
  are in the maps and \<^verbatim>\<open>ambFixedMap\<close> holds the answer.
\<close>

definition after_resolver ::
  "resolver \<Rightarrow> resolver \<Rightarrow> EquationSystem \<Rightarrow> SolverUpdNL \<Rightarrow> SolverUpdNL" where
  "after_resolver indepAmbDatum ambiguityDatum equSystem s =
     (let sm = store_state (getVarUnknowns equSystem) 0 (xhatminus s) Map.empty;
          cm = store_cov (getVarUnknowns equSystem) (getVarUnknowns equSystem) 0 (Pminus s) Map.empty
      in s\<lparr>stateMapminus := sm, covMapminus := cm,
            ambFixedMap := (if isIndepAmbDatum s then indepAmbDatum sm cm else ambiguityDatum sm cm)\<rparr>)"

section \<open>Reading the maps without changing them\<close>

text \<open>
  What \<^verbatim>\<open>m[k]\<close> and \<^verbatim>\<open>m[k1][k2]\<close> return: the stored value, \<open>0\<close> for a missing key.
\<close>

definition lookup0 :: "('k \<rightharpoonup> real) \<Rightarrow> 'k \<Rightarrow> real" where
  "lookup0 m k = (case m k of Some v \<Rightarrow> v | None \<Rightarrow> 0)"

definition lookup2 :: "('k \<rightharpoonup> ('j \<rightharpoonup> real)) \<Rightarrow> 'k \<Rightarrow> 'j \<Rightarrow> real" where
  "lookup2 m k1 k2 = lookup0 (map_inner m k1) k2"

section \<open>SolverPPPUC\<close>

subsection \<open>The data of one epoch\<close>

text \<open>
  Modelled from the spec: the GNSS data structure (\<^verbatim>\<open>gnssRinex\<close>) is not among the
  sources. The solver consumes, per satellite, the prefit residuals of the four
  observables, the elevation, the a-priori ionospheric delay, an optional weight and the
  partial derivatives of the core unknowns, and per epoch the a-priori wet delay. The
  body is the list of the tracked satellites in their order, each with its values by
  type. The accessors are written the way the solver uses them:
  \<^verbatim>\<open>getVectorOfTypeID\<close> has one entry per satellite (\<open>0\<close> where the satellite lacks
  the type), \<^verbatim>\<open>extractTypeID\<close> keeps the satellites that have the type,
  \<^verbatim>\<open>getMatrixOfTypes\<close> has one row per satellite and one column per type.
\<close>

type_synonym typeValueMap = "TypeID \<rightharpoonup> real"
type_synonym satTypeValueMap = "(SatID \<times> typeValueMap) list"

record gnssRinex =
  zwdMap :: typeValueMap
  body :: satTypeValueMap

definition numSats :: "satTypeValueMap \<Rightarrow> nat" where
  "numSats b = length b"

definition getSatID :: "satTypeValueMap \<Rightarrow> SatID list" where
  "getSatID b = map fst b"

definition getVectorOfTypeID :: "TypeID \<Rightarrow> satTypeValueMap \<Rightarrow> Vector" where
  "getVectorOfTypeID ty b = map (\<lambda>stv. lookup0 (snd stv) ty) b"

definition extractTypeID :: "TypeID \<Rightarrow> satTypeValueMap \<Rightarrow> satTypeValueMap" where
  "extractTypeID ty b =
     map (\<lambda>stv. (fst stv, (snd stv) |` {ty})) (filter (\<lambda>stv. snd stv ty \<noteq> None) b)"

definition getMatrixOfTypes :: "TypeID list \<Rightarrow> satTypeValueMap \<Rightarrow> Matrix" where
  "getMatrixOfTypes tys b =
     \<lparr>rows = length b, cols = length tys,
      elems = (\<lambda>i j. if i < length b \<and> j < length tys then lookup0 (snd (b ! i)) (tys ! j) else 0)\<rparr>"

text \<open>
  The stochastic models are external: what the solver reads from each after
  \<^verbatim>\<open>Prepare\<close> is the pair of \<^verbatim>\<open>getPhi()\<close> and \<^verbatim>\<open>getQ()\<close>.
\<close>

record StochasticModels =
  tropoModel :: "real \<times> real"
  coordXModel :: "real \<times> real"
  coordYModel :: "real \<times> real"
  coordZModel :: "real \<times> real"
  clockModel :: "real \<times> real"
  ionoModel :: "SatID \<Rightarrow> real \<times> real"
  ambiModelL1 :: "SatID \<Rightarrow> real \<times> real"
  ambiModelL2 :: "SatID \<Rightarrow> real \<times> real"

subsection \<open>The solver\<close>

text \<open>
  The value type of this solver's \<^verbatim>\<open>covarianceMap\<close>: the covariances of one
  satellite-indexed Variable with the satellite-indexed Variables and with the
  source-indexed types. The two maps and the member \<^verbatim>\<open>index\<close> of this solver carry
  the suffix \<open>UC\<close> here (SolverUpdNL has members of the same names).
\<close>

record varCov =
  satIndexedVarCov :: VariableDataMap
  srcIndexedVarCov :: "TypeID \<rightharpoonup> real"

record SolverPPPUC = SolverBase +
  indexUC :: int
  fixCoordinate :: bool
  initialTropVar :: real
  initialIonoVar :: real
  srcIndexedTypes :: "TypeID list"
  satIndexedTypes :: "TypeID list"
  currSatSet :: "SatID list"
  varUnknowns :: VariableSet
  numCurrentSV :: nat
  numMeas :: nat
  numVar :: nat
  numUnknowns :: nat
  stateMapUC :: VariableDataMap
  covarianceMapUC :: "VarId \<rightharpoonup> varCov"

text \<open>
  \<^verbatim>\<open>setNEU\<close>: the source-indexed types, in the order of the set (\<^verbatim>\<open>wetMap\<close>, the
  three coordinates unless the position is fixed, \<^verbatim>\<open>cdt\<close>), and the
  satellite-indexed types. A \<^verbatim>\<open>std::set<TypeID>\<close> is the list of its elements in
  increasing order of their codes.
\<close>

fun type_insert :: "TypeID \<Rightarrow> TypeID list \<Rightarrow> TypeID list" where
  "type_insert t [] = [t]"
| "type_insert t (u # us) =
     (if TypeID_code t < TypeID_code u then t # u # us
      else if t = u then u # us
      else u # type_insert t us)"

definition setNEU :: "bool \<Rightarrow> SolverPPPUC \<Rightarrow> SolverPPPUC" where
  "setNEU useNEU s =
     (let src0 = type_insert wetMap (srcIndexedTypes s);
          src1 = (if \<not> fixCoordinate s
                  then (if useNEU
                        then type_insert dH (type_insert dLon (type_insert dLat src0))
                        else type_insert dz (type_insert dy (type_insert dx src0)))
                  else src0);
          src2 = type_insert cdt src1;
          sat = type_insert BL2 (type_insert BL1 (type_insert ionoL1 (satIndexedTypes s)))
      in s\<lparr>srcIndexedTypes := src2, satIndexedTypes := sat\<rparr>)"

text \<open>
  The constructor: \<^verbatim>\<open>firstTime(true)\<close>, \<^verbatim>\<open>fixCoordinate(fixPos)\<close>, both
  constraint variances \<open>1.0E+9\<close>, then \<^verbatim>\<open>setNEU\<close> and \<^verbatim>\<open>setIndex\<close>. Vectors and
  matrices start empty. \<^verbatim>\<open>setIndex\<close> is defined in the header; the index it gives
  is the value of \<^verbatim>\<open>classIndex\<close>, which is \<open>9300000\<close> for the first solver that is
  constructed.
\<close>

definition SolverPPPUC_new :: "bool \<Rightarrow> bool \<Rightarrow> SolverPPPUC" where
  "SolverPPPUC_new useNEU fixPos =
     setNEU useNEU
       \<lparr>firstTime = True, measVector = [], hMatrix = Matrix_fill 0 0 0,
        rMatrix = Matrix_fill 0 0 0, phiMatrix = Matrix_fill 0 0 0, qMatrix = Matrix_fill 0 0 0,
        xhat = [], P = Matrix_fill 0 0 0, xhatminus = [], Pminus = Matrix_fill 0 0 0,
        solution = [], covMatrix = Matrix_fill 0 0 0, postfitResiduals = [], valid = False,
        indexUC = 9300000,
        fixCoordinate = fixPos, initialTropVar = 1000000000, initialIonoVar = 1000000000,
        srcIndexedTypes = [], satIndexedTypes = [], currSatSet = [], varUnknowns = [],
        numCurrentSV = 0, numMeas = 0, numVar = 0, numUnknowns = 0,
        stateMapUC = Map.empty, covarianceMapUC = Map.empty\<rparr>"

subsection \<open>preCompute: the equations\<close>

text \<open>
  The satellite-related unknowns: for every satellite-indexed type a Variable of that
  type, and for every current satellite that Variable with the satellite set, inserted
  into \<^verbatim>\<open>varUnknowns\<close>.
\<close>

definition build_varUnknowns :: "TypeID list \<Rightarrow> SatID list \<Rightarrow> VariableSet" where
  "build_varUnknowns tys sats =
     fold (\<lambda>ty vu. fold (\<lambda>sat vu. set_insert (setSatellite sat (Variable_of ty)) vu) sats vu)
       tys []"

text \<open>
  The measurement count as the source computes it: four observables per satellite, one
  ionospheric constraint per satellite but one, one tropospheric constraint.
\<close>

definition count_numMeas :: "nat \<Rightarrow> nat" where
  "count_numMeas nSV =
     (let numIono = nSV - 1; numTrop = 1 in 4 * nSV + numIono + numTrop)"

definition count_numUnknowns :: "nat \<Rightarrow> nat \<Rightarrow> nat" where
  "count_numUnknowns nVar nSV = nVar + 3 * nSV"

text \<open>The four blocks of prefit residuals.\<close>

definition fill_prefits :: "nat \<Rightarrow> Vector \<Rightarrow> Vector \<Rightarrow> Vector \<Rightarrow> Vector \<Rightarrow> Vector \<Rightarrow> Vector" where
  "fill_prefits N pC pP2 pL1 pL2 mv =
     fold (\<lambda>i mv. mv[i := pC ! i, i + N := pP2 ! i, i + 2 * N := pL1 ! i, i + 3 * N := pL2 ! i])
       [0..<N] mv"

text \<open>
  The scan for the highest satellite. \<^verbatim>\<open>imax\<close> is declared without a value and
  \<^verbatim>\<open>maxElev\<close> starts at \<open>0.0\<close>: when no elevation is above \<open>0\<close> the index stays
  without a value (\<open>None\<close>), and reading it afterwards is undefined.
\<close>

definition find_imax :: "nat \<Rightarrow> Vector \<Rightarrow> real \<times> nat option" where
  "find_imax N elev =
     fold (\<lambda>i (maxElev, imax). if elev ! i > maxElev then (elev ! i, Some i) else (maxElev, imax))
       [0..<N] (0, None)"

text \<open>
  The loops over the satellites that skip the reference satellite and count the rows
  they write in \<^verbatim>\<open>c1\<close> (\<^verbatim>\<open>count1\<close>): \<open>upd c1 i\<close> is the body for satellite \<open>i\<close>.
\<close>

definition skip_loop :: "nat \<Rightarrow> nat \<Rightarrow> (nat \<Rightarrow> nat \<Rightarrow> 'x \<Rightarrow> 'x) \<Rightarrow> 'x \<Rightarrow> 'x" where
  "skip_loop N imax upd X =
     snd (fold (\<lambda>i (c1, X). if i \<noteq> imax then (Suc c1, upd c1 i X) else (c1, X)) [0..<N] (0, X))"

definition assemble_measVector :: "nat \<Rightarrow> gnssRinex \<Rightarrow> nat \<Rightarrow> Vector" where
  "assemble_measVector N gData imax =
     (let mv0 = Vector_fill (count_numMeas N) 0;
          mv1 = fill_prefits N (getVectorOfTypeID prefitC (body gData))
                  (getVectorOfTypeID prefitP2 (body gData))
                  (getVectorOfTypeID prefitL1 (body gData))
                  (getVectorOfTypeID prefitL2 (body gData)) mv0;
          initialIono = getVectorOfTypeID ionoL1 (body gData);
          ionoBase = initialIono ! imax;
          mv2 = skip_loop N imax (\<lambda>c1 i mv. mv[c1 + 4 * N := initialIono ! i - ionoBase]) mv1;
          initialTrop = lookup0 (zwdMap gData) wetMap
      in mv2[5 * N - 1 := initialTrop])"

text \<open>
  The weights. When every satellite carries a weight the code and phase weights are
  multiplied by it, and so is the weight of the ionospheric constraint written for that
  satellite; otherwise the plain values are used.
\<close>

definition assemble_rMatrix :: "nat \<Rightarrow> gnssRinex \<Rightarrow> nat \<Rightarrow> real \<Rightarrow> real \<Rightarrow> Matrix" where
  "assemble_rMatrix N gData imax ionoVar tropVar =
     (let R0 = Matrix_fill (count_numMeas N) (count_numMeas N) 0;
          dummy = extractTypeID weight (body gData)
      in if numSats dummy = N then
           (let wVec = getVectorOfTypeID weight (body gData);
                R1 = fold (\<lambda>i M.
                        mset (mset (mset (mset M i i (11.111111 * wVec ! i))
                          (i + N) (i + N) (11.111111 * wVec ! i))
                          (i + 2 * N) (i + 2 * N) (111111.11 * wVec ! i))
                          (i + 3 * N) (i + 3 * N) (111111.11 * wVec ! i)) [0..<N] R0;
                R2 = skip_loop N imax
                       (\<lambda>c1 i M. mset M (c1 + 4 * N) (c1 + 4 * N) (1 / ionoVar * wVec ! i)) R1
            in mset R2 (5 * N - 1) (5 * N - 1) (1 / tropVar))
         else
           (let R1 = fold (\<lambda>i M.
                        mset (mset (mset (mset M i i 11.111111)
                          (i + N) (i + N) 11.111111)
                          (i + 2 * N) (i + 2 * N) 111111.11)
                          (i + 3 * N) (i + 3 * N) 111111.11) [0..<N] R0;
                R2 = skip_loop N imax
                       (\<lambda>c1 i M. mset M (c1 + 4 * N) (c1 + 4 * N) (1 / ionoVar)) R1
            in mset R2 (5 * N - 1) (5 * N - 1) (1 / tropVar)))"

text \<open>
  The design matrix: the partials of the core unknowns in the four blocks, the
  ionospheric coefficients, the two ambiguity coefficients, the single-difference
  constraint rows, and the tropospheric constraint in the last row.
\<close>

definition assemble_hMatrix :: "nat \<Rightarrow> nat \<Rightarrow> TypeID list \<Rightarrow> gnssRinex \<Rightarrow> nat \<Rightarrow> Matrix" where
  "assemble_hMatrix N nVar srcTypes gData imax =
     (let H0 = Matrix_fill (count_numMeas N) (count_numUnknowns nVar N) 0;
          dMatrix = getMatrixOfTypes srcTypes (body gData);
          H1 = fold (\<lambda>i H. fold (\<lambda>j H.
                  mset (mset (mset (mset H i j (mget dMatrix i j))
                    (i + N) j (mget dMatrix i j))
                    (i + 2 * N) j (mget dMatrix i j))
                    (i + 3 * N) j (mget dMatrix i j)) [0..<nVar] H) [0..<N] H0;
          H2 = fold (\<lambda>count1 H.
                  mset (mset (mset (mset H count1 (nVar + count1) 1)
                    (count1 + N) (nVar + count1) 1.646944444)
                    (count1 + 2 * N) (nVar + count1) (- 1))
                    (count1 + 3 * N) (nVar + count1) (- 1.646944444))
                 [0..<length (getSatID (body gData))] H1;
          H3 = fold (\<lambda>count1 H.
                  mset (mset H (count1 + 2 * N) (nVar + N + count1) 0.190293672798)
                    (count1 + 3 * N) (nVar + 2 * N + count1) 0.244210213425)
                 [0..<length (getSatID (body gData))] H2;
          H4 = skip_loop N imax
                 (\<lambda>count1 i H. mset (mset H (count1 + 4 * N) (nVar + i) 1)
                                      (count1 + 4 * N) (nVar + imax) (- 1)) H3
      in mset H4 (5 * N - 1) 0 1)"

text \<open>The transition and process-noise matrices, diagonal, from the stochastic models.\<close>

definition put_model :: "nat \<Rightarrow> real \<times> real \<Rightarrow> Matrix \<times> Matrix \<Rightarrow> Matrix \<times> Matrix" where
  "put_model k pq PQ = (mset (fst PQ) k k (fst pq), mset (snd PQ) k k (snd pq))"

definition sat_models ::
  "nat \<Rightarrow> (SatID \<Rightarrow> real \<times> real) \<Rightarrow> SatID list \<Rightarrow> Matrix \<times> Matrix \<Rightarrow> Matrix \<times> Matrix" where
  "sat_models count2 model sats PQ =
     snd (fold (\<lambda>sat (c, PQ). (Suc c, put_model c (model sat) PQ)) sats (count2, PQ))"

definition assemble_phiQ ::
  "StochasticModels \<Rightarrow> bool \<Rightarrow> nat \<Rightarrow> nat \<Rightarrow> SatID list \<Rightarrow> Matrix \<times> Matrix" where
  "assemble_phiQ sto fixCoord nVar N sats =
     (let n = count_numUnknowns nVar N;
          PQ0 = (Matrix_fill n n 0, Matrix_fill n n 0);
          PQ1 = put_model 0 (tropoModel sto) PQ0;
          PQ2 = (if \<not> fixCoord
                 then put_model 4 (clockModel sto)
                        (put_model 3 (coordZModel sto)
                          (put_model 2 (coordYModel sto)
                            (put_model 1 (coordXModel sto) PQ1)))
                 else put_model 1 (clockModel sto) PQ1);
          PQ3 = sat_models nVar (ionoModel sto) sats PQ2;
          PQ4 = sat_models (nVar + N) (ambiModelL1 sto) sats PQ3
      in sat_models (nVar + 2 * N) (ambiModelL2 sto) sats PQ4)"

subsection \<open>preCompute: the state and covariance fed to the filter\<close>

text \<open>
  First epoch: zero state and a diagonal covariance with fixed variances:
  troposphere \<open>0.25\<close>, coordinates \<open>0.25\<close> and clock \<open>9.0e10\<close> (or the clock alone in
  column 1 when the position is fixed), ionosphere \<open>2500\<close>, ambiguities \<open>4.0e14\<close>.
\<close>

definition initialErrorCovariance :: "bool \<Rightarrow> nat \<Rightarrow> nat \<Rightarrow> Matrix" where
  "initialErrorCovariance fixCoord nVar N =
     (let n = count_numUnknowns nVar N;
          C0 = mset (Matrix_fill n n 0) 0 0 0.25;
          C1 = (if \<not> fixCoord
                then mset (fold (\<lambda>i C. mset C i i 0.25) [1..<4] C0) 4 4 90000000000
                else mset C0 1 1 90000000000);
          C2 = fold (\<lambda>i C. mset C i i 2500) [nVar..<nVar + N] C1
      in fold (\<lambda>i C. mset C i i 400000000000000) [nVar + N..<n] C2)"

text \<open>
  Later epochs. The block of the core unknowns is copied by position from
  \<^verbatim>\<open>solution\<close> and \<^verbatim>\<open>covMatrix\<close>; the satellite-indexed unknowns are read from the
  maps by Variable, as in SolverUpdNL, with the index starting at \<^verbatim>\<open>numVar\<close>, and
  their covariances with the core unknowns from \<^verbatim>\<open>srcIndexedVarCov\<close>.
\<close>

definition varCov_at :: "(VarId \<rightharpoonup> varCov) \<Rightarrow> VarId \<Rightarrow> varCov" where
  "varCov_at cm k =
     (case cm k of Some u \<Rightarrow> u
      | None \<Rightarrow> \<lparr>satIndexedVarCov = Map.empty, srcIndexedVarCov = Map.empty\<rparr>)"

definition sat_at :: "(VarId \<rightharpoonup> varCov) \<Rightarrow> VarId \<Rightarrow> VarId \<Rightarrow> real \<times> (VarId \<rightharpoonup> varCov)" where
  "sat_at cm k1 k2 =
     (let u = varCov_at cm k1; (v, inner) = map_at (satIndexedVarCov u) k2
      in (v, cm(k1 \<mapsto> u\<lparr>satIndexedVarCov := inner\<rparr>)))"

definition src_at :: "(VarId \<rightharpoonup> varCov) \<Rightarrow> VarId \<Rightarrow> TypeID \<Rightarrow> real \<times> (VarId \<rightharpoonup> varCov)" where
  "src_at cm k1 ty =
     (let u = varCov_at cm k1; (v, inner) = map_at (srcIndexedVarCov u) ty
      in (v, cm(k1 \<mapsto> u\<lparr>srcIndexedVarCov := inner\<rparr>)))"

definition copy_core :: "nat \<Rightarrow> Vector \<Rightarrow> Matrix \<Rightarrow> Vector \<times> Matrix \<Rightarrow> Vector \<times> Matrix" where
  "copy_core nVar sol cov SC =
     fold (\<lambda>i (cs, C). (cs[i := sol ! i], fold (\<lambda>j C. mset C i j (mget cov i j)) [0..<nVar] C))
       [0..<nVar] SC"

fun fill_covRowUC ::
  "VarId \<Rightarrow> VariableSet \<Rightarrow> nat \<Rightarrow> nat \<Rightarrow> Matrix \<times> (VarId \<rightharpoonup> varCov)
     \<Rightarrow> Matrix \<times> (VarId \<rightharpoonup> varCov)" where
  "fill_covRowUC k1 [] c1 c2 (M, cm) = (M, cm)"
| "fill_covRowUC k1 (v2 # vs) c1 c2 (M, cm) =
     (let (x, cm') = sat_at cm k1 (identity v2)
      in fill_covRowUC k1 vs c1 (Suc c2) (mset (mset M c2 c1 x) c1 c2 x, cm'))"

fun fill_srcRowUC ::
  "VarId \<Rightarrow> TypeID list \<Rightarrow> nat \<Rightarrow> nat \<Rightarrow> Matrix \<times> (VarId \<rightharpoonup> varCov)
     \<Rightarrow> Matrix \<times> (VarId \<rightharpoonup> varCov)" where
  "fill_srcRowUC k1 [] c1 c3 (M, cm) = (M, cm)"
| "fill_srcRowUC k1 (ty # tys) c1 c3 (M, cm) =
     (let (x, cm') = src_at cm k1 ty
      in fill_srcRowUC k1 tys c1 (Suc c3) (mset (mset M c3 c1 x) c1 c3 x, cm'))"

fun fill_currentErrorCovUC ::
  "TypeID list \<Rightarrow> VariableSet \<Rightarrow> VariableSet \<Rightarrow> nat \<Rightarrow> Matrix \<times> (VarId \<rightharpoonup> varCov)
     \<Rightarrow> Matrix \<times> (VarId \<rightharpoonup> varCov)" where
  "fill_currentErrorCovUC srcTypes [] tempSet c1 (M, cm) = (M, cm)"
| "fill_currentErrorCovUC srcTypes (v1 # vs) tempSet c1 (M, cm) =
     (let (M1, cm1) =
            (if cm (identity v1) \<noteq> None
             then (let (x, cm') = sat_at cm (identity v1) (identity v1) in (mset M c1 c1 x, cm'))
             else (mset M c1 c1 (getInitialVariance v1), cm));
          tempSet1 = set_erase v1 tempSet;
          (M2, cm2) = fill_covRowUC (identity v1) tempSet1 c1 (Suc c1) (M1, cm1);
          (M3, cm3) = fill_srcRowUC (identity v1) srcTypes c1 0 (M2, cm2)
      in fill_currentErrorCovUC srcTypes vs tempSet1 (Suc c1) (M3, cm3))"

definition feed_filter :: "SolverPPPUC \<Rightarrow> (error + unit) \<times> SolverPPPUC" where
  "feed_filter s =
     (if firstTime s then
        (Inr (), s\<lparr>xhat := Vector_fill (numUnknowns s) 0,
                    P := initialErrorCovariance (fixCoordinate s) (numVar s) (numCurrentSV s),
                    firstTime := False\<rparr>)
      else if length (solution s) < numVar s \<or> rows (covMatrix s) < numVar s
              \<or> cols (covMatrix s) < numVar s
              \<or> numUnknowns s < numVar s + length (varUnknowns s)
        then (Inl (UndefinedBehaviour ''preCompute: index beyond solution or covMatrix''), s)
      else
        (let (cs0, C0) = copy_core (numVar s) (solution s) (covMatrix s)
                           (Vector_fill (numUnknowns s) 0,
                            Matrix_fill (numUnknowns s) (numUnknowns s) 0);
             (currentState, sm) = fill_currentState (varUnknowns s) (numVar s) (cs0, stateMapUC s);
             tempSet = varUnknowns s;
             (currentErrorCov, cm) =
               fill_currentErrorCovUC (srcIndexedTypes s) (varUnknowns s) tempSet (numVar s)
                 (C0, covarianceMapUC s)
         in (Inr (), s\<lparr>stateMapUC := sm, covarianceMapUC := cm,
                        xhat := currentState, P := currentErrorCov\<rparr>)))"

subsection \<open>preCompute, Compute, postCompute and Process\<close>

text \<open>
  \<^verbatim>\<open>preCompute\<close>. The satellite set and the unknowns are rebuilt and the satellite
  count is stored before the count is tested; fewer than four satellites raise
  \<^verbatim>\<open>SVNumException\<close>, which the handlers pass on unchanged.
\<close>

definition PPPUC_preCompute ::
  "StochasticModels \<Rightarrow> gnssRinex \<Rightarrow> SolverPPPUC \<Rightarrow> (error + unit) \<times> SolverPPPUC" where
  "PPPUC_preCompute sto gData s =
     (let s1 = s\<lparr>currSatSet := getSatID (body gData)\<rparr>;
          s2 = s1\<lparr>varUnknowns := build_varUnknowns (satIndexedTypes s1) (currSatSet s1)\<rparr>;
          s3 = s2\<lparr>numCurrentSV := numSats (body gData)\<rparr>
      in if numCurrentSV s3 < 4
         then (Inl (SVNumException ''Satellite number is less than 4''), s3)
         else
          (let N = numCurrentSV s3;
               s4 = s3\<lparr>numMeas := count_numMeas N\<rparr>;
               s5 = s4\<lparr>numVar := length (srcIndexedTypes s4)\<rparr>;
               s6 = s5\<lparr>numUnknowns := count_numUnknowns (numVar s5) N\<rparr>
           in case snd (find_imax N (getVectorOfTypeID elevation (body gData))) of
                None \<Rightarrow> (Inl (UndefinedBehaviour ''preCompute: imax is read without a value''),
                         s6\<lparr>measVector :=
                              fill_prefits N (getVectorOfTypeID prefitC (body gData))
                                (getVectorOfTypeID prefitP2 (body gData))
                                (getVectorOfTypeID prefitL1 (body gData))
                                (getVectorOfTypeID prefitL2 (body gData))
                                (Vector_fill (numMeas s6) 0)\<rparr>)
              | Some imax \<Rightarrow>
                 (let s7 = s6\<lparr>measVector := assemble_measVector N gData imax\<rparr>;
                      s8 = s7\<lparr>rMatrix := assemble_rMatrix N gData imax (initialIonoVar s7)
                                            (initialTropVar s7)\<rparr>;
                      s9 = s8\<lparr>hMatrix := assemble_hMatrix N (numVar s8) (srcIndexedTypes s8)
                                            gData imax\<rparr>;
                      PQ = assemble_phiQ sto (fixCoordinate s9) (numVar s9) N (currSatSet s9);
                      s10 = s9\<lparr>phiMatrix := fst PQ, qMatrix := snd PQ\<rparr>
                  in feed_filter s10)))"

text \<open>
  \<^verbatim>\<open>Compute\<close>: time update, then measurement update, under the exception
  specification \<^verbatim>\<open>throw(InvalidSolver)\<close>.
\<close>

definition PPPUC_Compute ::
  "inverter \<Rightarrow> SolverPPPUC \<Rightarrow> (error + unit) \<times> SolverPPPUC" where
  "PPPUC_Compute inverseChol s =
     (case TimeUpdate (numUnknowns s) (phiMatrix s) (qMatrix s) s of
        (Inl e, s1) \<Rightarrow> (Inl (throw_InvalidSolver e), s1)
      | (Inr _, s1) \<Rightarrow>
         (case PPPUC_MeasUpdate inverseChol (measVector s1) (hMatrix s1) (rMatrix s1) s1 of
            (Inl e, s2) \<Rightarrow> (Inl (throw_InvalidSolver e), s2)
          | (Inr _, s2) \<Rightarrow> (Inr (), s2)))"

text \<open>
  \<^verbatim>\<open>postCompute\<close>, the part that stores the posterior of the satellite-indexed
  unknowns (the rest writes residuals and estimates into the data structure).
\<close>

definition sat_put :: "(VarId \<rightharpoonup> varCov) \<Rightarrow> VarId \<Rightarrow> VarId \<Rightarrow> real \<Rightarrow> (VarId \<rightharpoonup> varCov)" where
  "sat_put cm k1 k2 v =
     (let u = varCov_at cm k1 in cm(k1 \<mapsto> u\<lparr>satIndexedVarCov := (satIndexedVarCov u)(k2 \<mapsto> v)\<rparr>))"

definition src_put :: "(VarId \<rightharpoonup> varCov) \<Rightarrow> VarId \<Rightarrow> TypeID \<Rightarrow> real \<Rightarrow> (VarId \<rightharpoonup> varCov)" where
  "src_put cm k1 ty v =
     (let u = varCov_at cm k1 in cm(k1 \<mapsto> u\<lparr>srcIndexedVarCov := (srcIndexedVarCov u)(ty \<mapsto> v)\<rparr>))"

fun store_covRowUC ::
  "VarId \<Rightarrow> VariableSet \<Rightarrow> nat \<Rightarrow> nat \<Rightarrow> Matrix \<Rightarrow> (VarId \<rightharpoonup> varCov) \<Rightarrow> (VarId \<rightharpoonup> varCov)" where
  "store_covRowUC k1 [] i j C cm = cm"
| "store_covRowUC k1 (v2 # vs) i j C cm =
     store_covRowUC k1 vs i (Suc j) C (sat_put cm k1 (identity v2) (mget C i j))"

fun store_srcRowUC ::
  "VarId \<Rightarrow> TypeID list \<Rightarrow> nat \<Rightarrow> nat \<Rightarrow> Matrix \<Rightarrow> (VarId \<rightharpoonup> varCov) \<Rightarrow> (VarId \<rightharpoonup> varCov)" where
  "store_srcRowUC k1 [] i k C cm = cm"
| "store_srcRowUC k1 (ty # tys) i k C cm =
     store_srcRowUC k1 tys i (Suc k) C (src_put cm k1 ty (mget C i k))"

fun store_covUC ::
  "TypeID list \<Rightarrow> VariableSet \<Rightarrow> VariableSet \<Rightarrow> nat \<Rightarrow> Matrix \<Rightarrow> (VarId \<rightharpoonup> varCov)
     \<Rightarrow> (VarId \<rightharpoonup> varCov)" where
  "store_covUC srcTypes [] tempSet i C cm = cm"
| "store_covUC srcTypes (v1 # vs) tempSet i C cm =
     (let cm1 = sat_put cm (identity v1) (identity v1) (mget C i i);
          tempSet1 = set_erase v1 tempSet;
          cm2 = store_covRowUC (identity v1) tempSet1 i (Suc i) C cm1;
          cm3 = store_srcRowUC (identity v1) srcTypes i 0 C cm2
      in store_covUC srcTypes vs tempSet1 (Suc i) C cm3)"

definition PPPUC_postCompute :: "gnssRinex \<Rightarrow> SolverPPPUC \<Rightarrow> (error + unit) \<times> SolverPPPUC" where
  "PPPUC_postCompute gData s =
     (let s1 = s\<lparr>stateMapUC := Map.empty, covarianceMapUC := Map.empty\<rparr>
      in if length (solution s1) < numVar s1 + length (varUnknowns s1)
            \<or> rows (covMatrix s1) < numVar s1 + length (varUnknowns s1)
            \<or> cols (covMatrix s1) < numVar s1 + length (varUnknowns s1)
         then (Inl (UndefinedBehaviour ''postCompute: index beyond the solution''), s1)
         else
           (let sm = store_state (varUnknowns s1) (numVar s1) (solution s1) (stateMapUC s1);
                cm = store_covUC (srcIndexedTypes s1) (varUnknowns s1) (varUnknowns s1)
                       (numVar s1) (covMatrix s1) (covarianceMapUC s1)
            in (Inr (), s1\<lparr>stateMapUC := sm, covarianceMapUC := cm,
                           numCurrentSV := numSats (body gData),
                           currSatSet := getSatID (body gData)\<rparr>)))"

text \<open>
  \<^verbatim>\<open>Process\<close>: the three steps in order; \<^verbatim>\<open>SVNumException\<close> is passed on as it is,
  every other exception becomes a \<^verbatim>\<open>ProcessingException\<close>.
\<close>

definition rethrowUC :: "int \<Rightarrow> error \<Rightarrow> error" where
  "rethrowUC idx u =
     (case u of SVNumException m \<Rightarrow> SVNumException m | _ \<Rightarrow> rethrow ''SolverPPPUC'' idx u)"

definition PPPUC_Process ::
  "inverter \<Rightarrow> StochasticModels \<Rightarrow> gnssRinex \<Rightarrow> SolverPPPUC \<Rightarrow> (error + unit) \<times> SolverPPPUC" where
  "PPPUC_Process inverseChol sto gData s =
     (case PPPUC_preCompute sto gData s of
        (Inl e, s1) \<Rightarrow> (Inl (rethrowUC (indexUC s1) e), s1)
      | (Inr _, s1) \<Rightarrow>
         (case PPPUC_Compute inverseChol s1 of
            (Inl e, s2) \<Rightarrow> (Inl (rethrowUC (indexUC s2) e), s2)
          | (Inr _, s2) \<Rightarrow>
             (case PPPUC_postCompute gData s2 of
                (Inl e, s3) \<Rightarrow> (Inl (rethrowUC (indexUC s3) e), s3)
              | (Inr _, s3) \<Rightarrow> (Inr (), s3))))"

section \<open>One step of the covariance walk\<close>

text \<open>
  The first half of an iteration of the outer loop of the carry-forward: the diagonal
  entry, read from the map (which \<^verbatim>\<open>operator[]\<close> may extend) or from the Variable.
\<close>

definition diag_step :: "Variable \<Rightarrow> nat \<Rightarrow> Matrix \<times> CovarianceMap \<Rightarrow> Matrix \<times> CovarianceMap" where
  "diag_step v1 i Mc =
     (if snd Mc (identity v1) \<noteq> None
      then (mset (fst Mc) i i (lookup2 (snd Mc) (identity v1) (identity v1)),
            snd (map_at2 (snd Mc) (identity v1) (identity v1)))
      else (mset (fst Mc) i i (getInitialVariance v1), snd Mc))"

text \<open>
  The same for SolverPPPUC: what \<^verbatim>\<open>covarianceMap[v1].satIndexedVarCov[v2]\<close> and
  \<^verbatim>\<open>covarianceMap[v1].srcIndexedVarCov[ty]\<close> read, and the diagonal step of its walk.
\<close>

definition lookupSat :: "(VarId \<rightharpoonup> varCov) \<Rightarrow> VarId \<Rightarrow> VarId \<Rightarrow> real" where
  "lookupSat cm k1 k2 = lookup0 (satIndexedVarCov (varCov_at cm k1)) k2"

definition lookupSrc :: "(VarId \<rightharpoonup> varCov) \<Rightarrow> VarId \<Rightarrow> TypeID \<Rightarrow> real" where
  "lookupSrc cm k1 ty = lookup0 (srcIndexedVarCov (varCov_at cm k1)) ty"

definition diag_stepUC ::
  "Variable \<Rightarrow> nat \<Rightarrow> Matrix \<times> (VarId \<rightharpoonup> varCov) \<Rightarrow> Matrix \<times> (VarId \<rightharpoonup> varCov)" where
  "diag_stepUC v1 c1 Mc =
     (if snd Mc (identity v1) \<noteq> None
      then (mset (fst Mc) c1 c1 (lookupSat (snd Mc) (identity v1) (identity v1)),
            snd (sat_at (snd Mc) (identity v1) (identity v1)))
      else (mset (fst Mc) c1 c1 (getInitialVariance v1), snd Mc))"

section \<open>Concrete data for running the model\<close>

text \<open>A one-unknown filter: predicted state \<open>2\<close> with predicted variance \<open>pm\<close>.\<close>

definition example_filter :: "real \<Rightarrow> SolverBase" where
  "example_filter pm =
     \<lparr>firstTime = False, measVector = [], hMatrix = Matrix_fill 0 0 0,
      rMatrix = Matrix_fill 0 0 0, phiMatrix = Matrix_fill 0 0 0, qMatrix = Matrix_fill 0 0 0,
      xhat = [7], P = Matrix_fill 1 1 5, xhatminus = [2], Pminus = Matrix_fill 1 1 pm,
      solution = [7], covMatrix = Matrix_fill 1 1 5, postfitResiduals = [], valid = True\<rparr>"

text \<open>
  Ambiguity unknowns of three satellites, an equation system that offers a given set of
  unknowns, and a solver holding a two-unknown posterior.
\<close>

definition example_var :: "int \<Rightarrow> Variable" where
  "example_var n = setSatellite (1, n) (Variable_of BL1)"

definition example_equ :: "VariableSet \<Rightarrow> EquationSystem" where
  "example_equ us =
     \<lparr>getPrefitsVector = [], getGeometryMatrix = Matrix_fill 0 (length us) 0,
      getWeightsMatrix = Matrix_fill 0 0 0,
      getPhiMatrix = Matrix_fill (length us) (length us) 0,
      getQMatrix = Matrix_fill (length us) (length us) 0,
      getTotalNumVariables = length us, getVarUnknowns = us\<rparr>"

definition example_UpdNL :: SolverUpdNL where
  "example_UpdNL =
     \<lparr>firstTime = False, measVector = [], hMatrix = Matrix_fill 0 0 0,
      rMatrix = Matrix_fill 0 0 0, phiMatrix = Matrix_fill 0 0 0, qMatrix = Matrix_fill 0 0 0,
      xhat = [], P = Matrix_fill 0 0 0, xhatminus = [], Pminus = Matrix_fill 0 0 0,
      solution = [3, 4],
      covMatrix = \<lparr>rows = 2, cols = 2, elems = (\<lambda>i j. if i = j then 2 else 1)\<rparr>,
      postfitResiduals = [], valid = True, index = 9510000,
      stateMap = Map.empty, covarianceMap = Map.empty,
      stateMapminus = Map.empty, covMapminus = Map.empty,
      ambFixedMap = [], isIndepAmbDatum = False\<rparr>"

text \<open>
  A system of two measurement rows on one unknown, with the weights \<open>4\<close> and \<open>5\<close>,
  a resolver that fixes that unknown to \<open>3\<close> and one that fixes nothing.
\<close>

definition example_resolver :: resolver where
  "example_resolver sm cm = [(example_var 5, 3)]"

definition example_no_fix :: resolver where
  "example_no_fix sm cm = []"

definition example_system :: SolverUpdNL where
  "example_system =
     \<lparr>firstTime = False, measVector = [1, 2], hMatrix = Matrix_fill 2 1 1,
      rMatrix = \<lparr>rows = 2, cols = 2, elems = (\<lambda>i j. if i = j then 4 + real i else 0)\<rparr>,
      phiMatrix = Matrix_fill 1 1 1, qMatrix = Matrix_fill 1 1 0,
      xhat = [0], P = Matrix_fill 1 1 1, xhatminus = [0], Pminus = Matrix_fill 1 1 1,
      solution = [0], covMatrix = Matrix_fill 1 1 1, postfitResiduals = [], valid = True,
      index = 9510000, stateMap = Map.empty, covarianceMap = Map.empty,
      stateMapminus = Map.empty, covMapminus = Map.empty,
      ambFixedMap = [], isIndepAmbDatum = False\<rparr>"

section \<open>Rows of the ionospheric constraints\<close>

text \<open>
  The value of the row counter of a loop that skips the reference satellite: after
  \<open>n\<close> satellites \<open>skipped imax n\<close> rows are written, and row \<open>c\<close> belongs to
  satellite \<open>sat_of imax c\<close>.
\<close>

definition skipped :: "nat \<Rightarrow> nat \<Rightarrow> nat" where
  "skipped imax n = (if imax < n then n - 1 else n)"

definition sat_of :: "nat \<Rightarrow> nat \<Rightarrow> nat" where
  "sat_of imax c = (if c < imax then c else Suc c)"

text \<open>
  An epoch of five satellites. The second one is the highest; the fourth carries the
  weight \<open>w\<close> (or none), the others the weight \<open>2\<close>.
\<close>

definition example_sat :: "int \<Rightarrow> real \<Rightarrow> real \<Rightarrow> real option \<Rightarrow> SatID \<times> typeValueMap" where
  "example_sat n el io w = ((1, n), (map_of [(elevation, el), (ionoL1, io)])(weight := w))"

definition example_epoch :: "real option \<Rightarrow> gnssRinex" where
  "example_epoch w =
     \<lparr>zwdMap = map_of [(wetMap, 0.1)],
      body = [example_sat 1 30 2 (Some 2), example_sat 2 60 5 (Some 2),
              example_sat 3 45 3 (Some 2), example_sat 4 10 1 w, example_sat 5 20 4 (Some 2)]\<rparr>"

definition example_models :: StochasticModels where
  "example_models =
     \<lparr>tropoModel = (1, 0.0001), coordXModel = (1, 0), coordYModel = (1, 0), coordZModel = (1, 0),
      clockModel = (0, 90000000000), ionoModel = (\<lambda>sat. (1, 0.01)),
      ambiModelL1 = (\<lambda>sat. (1, 0)), ambiModelL2 = (\<lambda>sat. (1, 0))\<rparr>"

text \<open>An epoch of four satellites on the horizon: every elevation is \<open>0\<close>.\<close>

definition example_low :: gnssRinex where
  "example_low =
     \<lparr>zwdMap = map_of [(wetMap, 0.1)],
      body = [example_sat 1 0 2 None, example_sat 2 0 5 None,
              example_sat 3 0 3 None, example_sat 4 0 1 None]\<rparr>"

text \<open>The same epoch with only its first three satellites.\<close>

definition example_epoch3 :: gnssRinex where
  "example_epoch3 = (example_epoch None)\<lparr>body := take 3 (body (example_epoch None))\<rparr>"

text \<open>
  A solver after an epoch with the satellites 1, 2, 3 and 5: five core unknowns and twelve
  satellite-indexed ones, with a posterior state and covariance to be stored.
\<close>

definition example_posterior :: SolverPPPUC where
  "example_posterior =
     (SolverPPPUC_new False False)
       \<lparr>firstTime := False, numVar := 5,
        varUnknowns := build_varUnknowns [ionoL1, BL1, BL2] [(1, 1), (1, 2), (1, 3), (1, 5)],
        solution := map real [0..<17],
        covMatrix := \<lparr>rows = 17, cols = 17, elems = (\<lambda>i j. real (i * j + 1))\<rparr>\<rparr>"

text \<open>The epoch before: the five-satellite epoch without its fourth satellite.\<close>

definition example_previous :: gnssRinex where
  "example_previous =
     \<lparr>zwdMap = map_of [(wetMap, 0.1)],
      body = [example_sat 1 30 2 (Some 2), example_sat 2 60 5 (Some 2),
              example_sat 3 45 3 (Some 2), example_sat 5 20 4 (Some 2)]\<rparr>"

section \<open>Shapes of the matrix operations\<close>

lemma inverseDiag_shape: "inverseChol_shape inverseDiag"
  by (auto simp: inverseChol_shape_def inverseDiag_def isSquare_def split: if_splits)

lemma mat_mul_shape:
  "mat_mul A B = Some C \<Longrightarrow> cols A = rows B \<and> rows C = rows A \<and> cols C = cols B"
  by (auto simp: mat_mul_def split: if_splits)

lemma mat_add_shape:
  "mat_add A B = Some C \<Longrightarrow>
     rows A = rows B \<and> cols A = cols B \<and> rows C = rows A \<and> cols C = cols A"
  by (auto simp: mat_add_def split: if_splits)

section \<open>The measurement update\<close>

lemma checks_None:
  "MeasUpdate_checks z H R s = None \<longleftrightarrow>
     (isSquare R \<and> rows R = length z \<and> rows H = length z \<and> cols H = length (xhatminus s)
      \<and> cols (Pminus s) = length (xhatminus s))"
  by (simp add: MeasUpdate_checks_def)

lemma checks_valid [simp]:
  "MeasUpdate_checks z H R (s\<lparr>valid := b\<rparr>) = MeasUpdate_checks z H R s"
  by (simp add: MeasUpdate_checks_def)

lemma checks_error: "MeasUpdate_checks z H R s = Some e \<Longrightarrow> \<exists>msg. e = InvalidSolver msg"
  by (auto simp: MeasUpdate_checks_def split: if_splits)

text \<open>
  Once the checks have passed and both inversions have returned, every product and sum
  of the third block is defined: the state estimate cannot throw.
\<close>

lemma xhat_defined:
  assumes sh: "inverseChol_shape ic"
    and ck: "MeasUpdate_checks z H R s = None"
    and i1: "ic (Pminus s) = Some ip"
    and i2: "MeasUpdate_P ic (transpose_m H) R H ip = Some Pn"
  shows "\<exists>x. MeasUpdate_xhat Pn (transpose_m H) R z ip (xhatminus s) = Some x
             \<and> length x = cols H"
proof -
  from ck have c: "isSquare R" "rows R = length z" "rows H = length z"
      "cols H = length (xhatminus s)" "cols (Pminus s) = length (xhatminus s)"
    by (simp_all add: checks_None)
  from sh i1 have ip: "rows ip = rows (Pminus s)" "cols ip = cols (Pminus s)"
      "isSquare (Pminus s)"
    by (auto simp: inverseChol_shape_def)
  from i2 obtain a b info where a: "mat_mul (transpose_m H) R = Some a"
     and b: "mat_mul a H = Some b"
     and info: "mat_add b ip = Some info" and pn: "ic info = Some Pn"
    by (auto simp: MeasUpdate_P_def split: option.splits)
  from sh pn have pns: "rows Pn = rows info" "cols Pn = cols info"
    by (auto simp: inverseChol_shape_def)
  from a have as: "rows a = cols H" "cols a = cols R"
    by (auto dest!: mat_mul_shape simp: transpose_m_def)
  from b as have bs: "rows b = cols H" "cols b = cols H"
    by (auto dest!: mat_mul_shape)
  from info bs have ins: "rows info = cols H" "cols info = cols H"
    by (auto dest!: mat_add_shape)
  from as c obtain l where l: "mat_vec a z = Some l" "length l = cols H"
    by (auto simp: mat_vec_def isSquare_def)
  from ip c obtain r where r: "mat_vec ip (xhatminus s) = Some r" "length r = cols H"
    by (auto simp: mat_vec_def isSquare_def)
  from l r obtain t where t: "vec_add l r = Some t" "length t = cols H"
    by (auto simp: vec_add_def)
  from t pns ins obtain x where x: "mat_vec Pn t = Some x" "length x = cols H"
    by (auto simp: mat_vec_def)
  show ?thesis using a l r t x by (simp add: MeasUpdate_xhat_def)
qed

lemma postfit_defined:
  assumes "MeasUpdate_checks z H R s = None" and "length x = cols H"
  shows "\<exists>r. MeasUpdate_postfit z H x = Some r"
  using assms by (auto simp: checks_None MeasUpdate_postfit_def mat_vec_def vec_sub_def)

lemma MeasUpdate_P_spec:
  "ic Pm = Some ip \<Longrightarrow> MeasUpdate_P ic (transpose_m H) R H ip = spec_posteriorCov ic H R Pm"
  by (auto simp: MeasUpdate_P_def spec_posteriorCov_def split: option.splits)

lemma MeasUpdate_xhat_spec:
  "ic Pm = Some ip \<Longrightarrow>
     MeasUpdate_xhat Pn (transpose_m H) R z ip xm = spec_posteriorState ic H R z xm Pm Pn"
  by (auto simp: MeasUpdate_xhat_def spec_posteriorState_def split: option.splits)

lemma MeasUpdate_postfit_spec: "MeasUpdate_postfit z H x = spec_postfit z H x"
  by (auto simp: MeasUpdate_postfit_def spec_postfit_def split: option.splits)

lemma PPPUC_MeasUpdate_ok:
  assumes sh: "inverseChol_shape ic"
    and ck: "MeasUpdate_checks z H R s = None"
    and ok: "spec_posteriorCov ic H R (Pminus s) \<noteq> None"
  shows "\<exists>s'. PPPUC_MeasUpdate ic z H R s = (Inr 0, s') \<and>
           Some (P s') = spec_posteriorCov ic H R (Pminus s) \<and>
           Some (xhat s') = spec_posteriorState ic H R z (xhatminus s) (Pminus s) (P s') \<and>
           Some (postfitResiduals s') = spec_postfit z H (xhat s') \<and>
           solution s' = xhat s' \<and> covMatrix s' = P s' \<and> valid s'"
proof -
  from ok obtain ip where i1: "ic (Pminus s) = Some ip"
    by (auto simp: spec_posteriorCov_def split: Option.bind_splits)
  from ok MeasUpdate_P_spec[where ic=ic and Pm="Pminus s" and H=H and R=R, OF i1] obtain Pn where
    i2: "MeasUpdate_P ic (transpose_m H) R H ip = Some Pn" by fastforce
  from xhat_defined[OF sh ck i1 i2] obtain x where
    x: "MeasUpdate_xhat Pn (transpose_m H) R z ip (xhatminus s) = Some x" "length x = cols H"
    by blast
  from postfit_defined[OF ck x(2)] obtain r where r: "MeasUpdate_postfit z H x = Some r"
    by blast
  show ?thesis
    using ck i1 i2 x r MeasUpdate_P_spec[where ic=ic and Pm="Pminus s" and H=H and R=R, OF i1]
      MeasUpdate_xhat_spec[where ic=ic and Pm="Pminus s" and Pn=Pn and H=H and R=R and z=z
        and xm="xhatminus s", OF i1]
      MeasUpdate_postfit_spec[of z H x]
    by (simp add: PPPUC_MeasUpdate_def Let_def)
qed

lemma UpdNL_MeasUpdate_ok:
  assumes sh: "inverseChol_shape ic"
    and ck: "MeasUpdate_checks z H R s = None"
    and ok: "spec_posteriorCov ic H R (Pminus s) \<noteq> None"
  shows "\<exists>s'. UpdNL_MeasUpdate ic z H R s = (Inr 0, s') \<and>
           Some (P s') = spec_posteriorCov ic H R (Pminus s) \<and>
           Some (xhat s') = spec_posteriorState ic H R z (xhatminus s) (Pminus s) (P s') \<and>
           Some (postfitResiduals s') = spec_postfit z H (xhat s') \<and>
           solution s' = xhat s' \<and> covMatrix s' = P s' \<and> valid s'"
proof -
  from ok obtain ip where i1: "ic (Pminus s) = Some ip"
    by (auto simp: spec_posteriorCov_def split: Option.bind_splits)
  from ok MeasUpdate_P_spec[where ic=ic and Pm="Pminus s" and H=H and R=R, OF i1] obtain Pn where
    i2: "MeasUpdate_P ic (transpose_m H) R H ip = Some Pn" by fastforce
  from xhat_defined[OF sh ck i1 i2] obtain x where
    x: "MeasUpdate_xhat Pn (transpose_m H) R z ip (xhatminus s) = Some x" "length x = cols H"
    by blast
  from postfit_defined[OF ck x(2)] obtain r where r: "MeasUpdate_postfit z H x = Some r"
    by blast
  show ?thesis
    using ck i1 i2 x r MeasUpdate_P_spec[where ic=ic and Pm="Pminus s" and H=H and R=R, OF i1]
      MeasUpdate_xhat_spec[where ic=ic and Pm="Pminus s" and Pn=Pn and H=H and R=R and z=z
        and xm="xhatminus s", OF i1]
      MeasUpdate_postfit_spec[of z H x]
    by (simp add: UpdNL_MeasUpdate_def Let_def)
qed

text \<open>
  When an inversion fails, the update fails with \<^verbatim>\<open>InvalidSolver\<close> and only
  \<^verbatim>\<open>valid\<close> has been written.
\<close>

lemma PPPUC_inversion_fails:
  assumes N2: "spec_posteriorCov ic H R (Pminus s) = None"
  shows "\<exists>msg. PPPUC_MeasUpdate ic z H R s = (Inl (InvalidSolver msg), s\<lparr>valid := False\<rparr>)"
proof (cases "MeasUpdate_checks z H R s")
  case (Some e0)
  with checks_error[OF Some] show ?thesis
    by (auto simp: PPPUC_MeasUpdate_def Let_def)
next
  case None
  show ?thesis
  proof (cases "ic (Pminus s)")
    case N: None
    with None show ?thesis
      by (auto simp: PPPUC_MeasUpdate_def Let_def)
  next
    case (Some ip)
    with N2 MeasUpdate_P_spec[where ic=ic and Pm="Pminus s" and H=H and R=R, OF Some]
    have "MeasUpdate_P ic (transpose_m H) R H ip = None" by simp
    with Some None show ?thesis
      by (auto simp: PPPUC_MeasUpdate_def Let_def)
  qed
qed

lemma UpdNL_inversion_fails:
  assumes N2: "spec_posteriorCov ic H R (Pminus s) = None"
  shows "\<exists>msg. UpdNL_MeasUpdate ic z H R s = (Inl (InvalidSolver msg), s\<lparr>valid := False\<rparr>)"
proof (cases "MeasUpdate_checks z H R s")
  case (Some e0)
  with checks_error[OF Some] show ?thesis
    by (auto simp: UpdNL_MeasUpdate_def Let_def)
next
  case None
  show ?thesis
  proof (cases "ic (Pminus s)")
    case N: None
    with None show ?thesis
      by (auto simp: UpdNL_MeasUpdate_def Let_def)
  next
    case (Some ip)
    with N2 MeasUpdate_P_spec[where ic=ic and Pm="Pminus s" and H=H and R=R, OF Some]
    have "MeasUpdate_P ic (transpose_m H) R H ip = None" by simp
    with Some None show ?thesis
      by (auto simp: UpdNL_MeasUpdate_def Let_def)
  qed
qed

lemma PPPUC_MeasUpdate_fail:
  assumes sh: "inverseChol_shape ic"
    and res: "PPPUC_MeasUpdate ic z H R s = (Inl e, s')"
  shows "(\<exists>msg. e = InvalidSolver msg) \<and> s' = s\<lparr>valid := False\<rparr>"
proof (cases "MeasUpdate_checks z H R s")
  case (Some e0)
  with res checks_error[OF Some] show ?thesis
    by (auto simp: PPPUC_MeasUpdate_def Let_def)
next
  case None
  show ?thesis
  proof (cases "spec_posteriorCov ic H R (Pminus s)")
    case (Some Pn)
    then have "spec_posteriorCov ic H R (Pminus s) \<noteq> None" by simp
    from PPPUC_MeasUpdate_ok[OF sh None this] res show ?thesis by auto
  next
    case N2: None
    from PPPUC_inversion_fails[OF N2, of z] res show ?thesis by auto
  qed
qed

lemma UpdNL_MeasUpdate_fail:
  assumes sh: "inverseChol_shape ic"
    and res: "UpdNL_MeasUpdate ic z H R s = (Inl e, s')"
  shows "(\<exists>msg. e = InvalidSolver msg) \<and> s' = s\<lparr>valid := False\<rparr>"
proof (cases "MeasUpdate_checks z H R s")
  case (Some e0)
  with res checks_error[OF Some] show ?thesis
    by (auto simp: UpdNL_MeasUpdate_def Let_def)
next
  case None
  show ?thesis
  proof (cases "spec_posteriorCov ic H R (Pminus s)")
    case (Some Pn)
    then have "spec_posteriorCov ic H R (Pminus s) \<noteq> None" by simp
    from UpdNL_MeasUpdate_ok[OF sh None this] res show ?thesis by auto
  next
    case N2: None
    from UpdNL_inversion_fails[OF N2, of z] res show ?thesis by auto
  qed
qed

text \<open>
  C1. Whenever the five shape checks pass and both Cholesky inversions succeed, the
  measurement update of either solver returns normally, and the members it leaves are
  the information-form update: the posterior covariance is
  \<open>inverse(transpose(H) R H + inverse(Pminus))\<close>, the posterior state is that covariance
  applied to \<open>transpose(H) R prefit + inverse(Pminus) xhatminus\<close>, and the postfit
  residuals are \<open>prefit - H xhat\<close>; \<^verbatim>\<open>solution\<close> and \<^verbatim>\<open>covMatrix\<close> hold the same
  state and covariance.
\<close>

theorem MeasUpdate_information_form:
  assumes "inverseChol_shape inverseChol"
    and "isSquare R" and "rows R = length prefit" and "rows H = length prefit"
    and "cols H = length (xhatminus s)" and "cols (Pminus s) = length (xhatminus s)"
    and "spec_posteriorCov inverseChol H R (Pminus s) \<noteq> None"
  shows "(\<exists>s'. PPPUC_MeasUpdate inverseChol prefit H R s = (Inr 0, s') \<and>
            Some (P s') = spec_posteriorCov inverseChol H R (Pminus s) \<and>
            Some (xhat s') =
              spec_posteriorState inverseChol H R prefit (xhatminus s) (Pminus s) (P s') \<and>
            Some (postfitResiduals s') = spec_postfit prefit H (xhat s') \<and>
            solution s' = xhat s' \<and> covMatrix s' = P s' \<and> valid s') \<and>
         (\<exists>s'. UpdNL_MeasUpdate inverseChol prefit H R s = (Inr 0, s') \<and>
            Some (P s') = spec_posteriorCov inverseChol H R (Pminus s) \<and>
            Some (xhat s') =
              spec_posteriorState inverseChol H R prefit (xhatminus s) (Pminus s) (P s') \<and>
            Some (postfitResiduals s') = spec_postfit prefit H (xhat s') \<and>
            solution s' = xhat s' \<and> covMatrix s' = P s' \<and> valid s')"
proof -
  from assms(2-6) have ck: "MeasUpdate_checks prefit H R s = None"
    by (simp add: checks_None)
  show ?thesis
    using PPPUC_MeasUpdate_ok[OF assms(1) ck assms(7)] UpdNL_MeasUpdate_ok[OF assms(1) ck assms(7)]
    by blast
qed

theorem MeasUpdate_information_form_witness:
  "inverseChol_shape inverseDiag \<and>
   spec_posteriorCov inverseDiag (Matrix_fill 1 1 1) (Matrix_fill 1 1 4)
      (Pminus (example_filter (1/2))) \<noteq> None \<and>
   (\<exists>s'. PPPUC_MeasUpdate inverseDiag [3] (Matrix_fill 1 1 1) (Matrix_fill 1 1 4)
            (example_filter (1/2)) = (Inr 0, s') \<and>
      Some (P s') = spec_posteriorCov inverseDiag (Matrix_fill 1 1 1) (Matrix_fill 1 1 4)
                      (Pminus (example_filter (1/2))) \<and>
      Some (postfitResiduals s') = spec_postfit [3] (Matrix_fill 1 1 1) (xhat s'))"
proof -
  have ok: "spec_posteriorCov inverseDiag (Matrix_fill 1 1 1) (Matrix_fill 1 1 4)
      (Pminus (example_filter (1/2))) \<noteq> None"
    by (simp add: spec_posteriorCov_def inverseDiag_def is_diag_pos_def example_filter_def
        Matrix_fill_def mat_mul_def mat_add_def transpose_m_def)
  have sq: "isSquare (Matrix_fill 1 1 4)" by (simp add: isSquare_def Matrix_fill_def)
  have d: "rows (Matrix_fill 1 1 4) = length [3::real]" "rows (Matrix_fill 1 1 1) = length [3::real]"
    "cols (Matrix_fill 1 1 1) = length (xhatminus (example_filter (1/2)))"
    "cols (Pminus (example_filter (1/2))) = length (xhatminus (example_filter (1/2)))"
    by (simp_all add: Matrix_fill_def example_filter_def)
  from MeasUpdate_information_form[OF inverseDiag_shape sq d ok] inverseDiag_shape ok
  show ?thesis by blast
qed

text \<open>
  C4. A measurement update that fails raises \<^verbatim>\<open>InvalidSolver\<close> and has written
  nothing but \<^verbatim>\<open>valid\<close>: \<^verbatim>\<open>xhat\<close>, \<^verbatim>\<open>P\<close>, \<^verbatim>\<open>solution\<close> and \<^verbatim>\<open>covMatrix\<close>
  (and every other member) hold the values they had before the call. In particular a
  failed inversion, of the predicted covariance or of the information matrix, ends the
  call this way. This holds for both solvers.
\<close>

theorem MeasUpdate_failure_commits_nothing:
  assumes "inverseChol_shape inverseChol"
  shows "(spec_posteriorCov inverseChol H R (Pminus s) = None \<longrightarrow>
            (\<exists>msg. PPPUC_MeasUpdate inverseChol prefit H R s
                     = (Inl (InvalidSolver msg), s\<lparr>valid := False\<rparr>)) \<and>
            (\<exists>msg. UpdNL_MeasUpdate inverseChol prefit H R s
                     = (Inl (InvalidSolver msg), s\<lparr>valid := False\<rparr>))) \<and>
         (\<forall>e s'. PPPUC_MeasUpdate inverseChol prefit H R s = (Inl e, s') \<or>
                  UpdNL_MeasUpdate inverseChol prefit H R s = (Inl e, s') \<longrightarrow>
            (\<exists>msg. e = InvalidSolver msg) \<and>
            xhat s' = xhat s \<and> P s' = P s \<and> solution s' = solution s \<and>
            covMatrix s' = covMatrix s \<and> s' = s\<lparr>valid := False\<rparr>)"
proof (intro conjI impI allI)
  assume n: "spec_posteriorCov inverseChol H R (Pminus s) = None"
  from PPPUC_inversion_fails[OF n]
  show "\<exists>msg. PPPUC_MeasUpdate inverseChol prefit H R s
                     = (Inl (InvalidSolver msg), s\<lparr>valid := False\<rparr>)" .
  from UpdNL_inversion_fails[OF n]
  show "\<exists>msg. UpdNL_MeasUpdate inverseChol prefit H R s
                     = (Inl (InvalidSolver msg), s\<lparr>valid := False\<rparr>)" .
next
  fix e s'
  assume "PPPUC_MeasUpdate inverseChol prefit H R s = (Inl e, s') \<or>
          UpdNL_MeasUpdate inverseChol prefit H R s = (Inl e, s')"
  then have r: "(\<exists>msg. e = InvalidSolver msg) \<and> s' = s\<lparr>valid := False\<rparr>"
    using PPPUC_MeasUpdate_fail[OF assms] UpdNL_MeasUpdate_fail[OF assms] by blast
  then show "\<exists>msg. e = InvalidSolver msg" "xhat s' = xhat s" "P s' = P s"
    "solution s' = solution s" "covMatrix s' = covMatrix s" "s' = s\<lparr>valid := False\<rparr>"
    by simp_all
qed

theorem MeasUpdate_failure_commits_nothing_witness:
  "inverseChol_shape inverseDiag \<and>
   spec_posteriorCov inverseDiag (Matrix_fill 1 1 1) (Matrix_fill 1 1 4)
      (Pminus (example_filter 0)) = None \<and>
   (\<exists>msg. PPPUC_MeasUpdate inverseDiag [3] (Matrix_fill 1 1 1) (Matrix_fill 1 1 4)
            (example_filter 0) = (Inl (InvalidSolver msg), (example_filter 0)\<lparr>valid := False\<rparr>)) \<and>
   (\<exists>msg. UpdNL_MeasUpdate inverseDiag [3] (Matrix_fill 1 1 1) (Matrix_fill 1 1 4)
            (example_filter 0) = (Inl (InvalidSolver msg), (example_filter 0)\<lparr>valid := False\<rparr>)) \<and>
   xhat (snd (PPPUC_MeasUpdate inverseDiag [3] (Matrix_fill 1 1 1) (Matrix_fill 1 1 4)
            (example_filter 0))) = [7] \<and>
   solution (snd (UpdNL_MeasUpdate inverseDiag [3] (Matrix_fill 1 1 1) (Matrix_fill 1 1 4)
            (example_filter 0))) = [7]"
proof -
  have n: "spec_posteriorCov inverseDiag (Matrix_fill 1 1 1) (Matrix_fill 1 1 4)
      (Pminus (example_filter 0)) = None"
    by (simp add: spec_posteriorCov_def inverseDiag_def is_diag_pos_def example_filter_def
        Matrix_fill_def)
  have x: "xhat (example_filter 0) = [7]" "solution (example_filter 0) = [7]"
    by (simp_all add: example_filter_def)
  note t = MeasUpdate_failure_commits_nothing[OF inverseDiag_shape, of "Matrix_fill 1 1 1"
      "Matrix_fill 1 1 4" "example_filter 0" "[3]"]
  from t n obtain m1 m2 where
    r: "PPPUC_MeasUpdate inverseDiag [3] (Matrix_fill 1 1 1) (Matrix_fill 1 1 4)
            (example_filter 0) = (Inl (InvalidSolver m1), (example_filter 0)\<lparr>valid := False\<rparr>)"
       "UpdNL_MeasUpdate inverseDiag [3] (Matrix_fill 1 1 1) (Matrix_fill 1 1 4)
            (example_filter 0) = (Inl (InvalidSolver m2), (example_filter 0)\<lparr>valid := False\<rparr>)"
    by blast
  from r x inverseDiag_shape n show ?thesis by simp
qed


section \<open>Matrices and maps: reading after writing\<close>

lemma mget_mset [simp]: "mget (mset M i j v) r c = (if r = i \<and> c = j then v else mget M r c)"
  by (simp add: mget_def mset_def)
lemma rows_mset [simp]: "rows (mset M i j v) = rows M" by (simp add: mset_def)
lemma cols_mset [simp]: "cols (mset M i j v) = cols M" by (simp add: mset_def)
lemma mget_fill [simp]: "mget (Matrix_fill r c v) i j = v" by (simp add: mget_def Matrix_fill_def)
lemma rows_fill [simp]: "rows (Matrix_fill r c v) = r" by (simp add: Matrix_fill_def)
lemma cols_fill [simp]: "cols (Matrix_fill r c v) = c" by (simp add: Matrix_fill_def)

lemma map_at_fst [simp]: "fst (map_at m k) = lookup0 m k"
  by (simp add: map_at_def lookup0_def split: option.splits)
lemma map_at_snd_lookup [simp]: "lookup0 (snd (map_at m k)) k' = lookup0 m k'"
  by (simp add: map_at_def lookup0_def split: option.splits)
lemma map_at2_fst [simp]: "fst (map_at2 m k1 k2) = lookup2 m k1 k2"
  by (simp add: map_at2_def lookup2_def split: prod.splits) (metis fst_conv map_at_fst)
lemma map_at2_snd_lookup [simp]: "lookup2 (snd (map_at2 m k1 k2)) a b = lookup2 m a b"
  by (auto simp: map_at2_def lookup2_def map_inner_def split: prod.splits)
     (metis map_at_snd_lookup snd_conv)+
lemma map_at2_snd_present [simp]: "(snd (map_at2 m k1 k2)) k = None \<longleftrightarrow> k \<noteq> k1 \<and> m k = None"
  by (auto simp: map_at2_def split: prod.splits)

lemma lookup2_put2 [simp]:
  "lookup2 (map_put2 m k1 k2 v) a b = (if a = k1 \<and> b = k2 then v else lookup2 m a b)"
  by (auto simp: map_put2_def lookup2_def map_inner_def lookup0_def)
lemma present_put2 [simp]: "(map_put2 m k1 k2 v) k = None \<longleftrightarrow> k \<noteq> k1 \<and> m k = None"
  by (auto simp: map_put2_def)

lemma VariableSet_distinct: "is_VariableSet us \<Longrightarrow> distinct (map identity us)"
  unfolding is_VariableSet_def using strict_sorted_iff by blast

lemma set_erase_head: "identity v \<notin> identity ` set vs \<Longrightarrow> set_erase v (v # vs) = vs"
  by (induction vs) (auto simp: set_erase_def)

text \<open>The walk that fills the state vector reads \<open>lookup0\<close> of the stored map.\<close>
lemma fill_currentState_length: "length (fst (fill_currentState vs i (cs, sm))) = length cs"
  by (induction vs i "(cs, sm)" arbitrary: cs sm rule: fill_currentState.induct)
     (auto split: prod.splits)

lemma fill_currentState_nth:
  "i + length vs \<le> length cs \<Longrightarrow>
   fst (fill_currentState vs i (cs, sm)) ! k =
     (if i \<le> k \<and> k < i + length vs then lookup0 sm (identity (vs ! (k - i))) else cs ! k)"
proof (induction vs arbitrary: i cs sm)
  case Nil
  then show ?case by simp
next
  case (Cons v vs)
  obtain x sm' where m: "map_at sm (identity v) = (x, sm')" by force
  then have x: "x = lookup0 sm (identity v)" and sm': "\<And>k. lookup0 sm' k = lookup0 sm k"
    using map_at_fst[of sm "identity v"] map_at_snd_lookup[of sm "identity v"] by auto
  from Cons.prems have "Suc i + length vs \<le> length (cs[i := x])" by simp
  note ih = Cons.IH[OF this, of sm', unfolded sm']
  have step: "fst (fill_currentState (v # vs) i (cs, sm)) = fst (fill_currentState vs (Suc i) (cs[i := x], sm'))"
    using m by simp
  consider "k < i" | "k = i" | "i < k" by linarith
  then show ?case
  proof cases
    case 1
    then show ?thesis using ih step by simp
  next
    case 2
    then show ?thesis using ih step x Cons.prems by simp
  next
    case 3
    then have "(v # vs) ! (k - i) = vs ! (k - Suc i)" by (simp add: nth_Cons')
    with 3 show ?thesis using ih step by auto
  qed
qed


lemma store_state_other:
  "k \<notin> identity ` set vs \<Longrightarrow> store_state vs i sol sm k = sm k"
  by (induction vs arbitrary: i sm) auto

lemma store_state_nth:
  "distinct (map identity vs) \<Longrightarrow> a < length vs \<Longrightarrow>
   store_state vs i sol sm (identity (vs ! a)) = Some (sol ! (i + a))"
proof (induction vs arbitrary: i sm a)
  case Nil
  then show ?case by simp
next
  case (Cons v vs)
  show ?case
  proof (cases a)
    case 0
    with Cons.prems show ?thesis by (simp add: store_state_other)
  next
    case (Suc a')
    with Cons.prems Cons.IH[of a' "Suc i"] show ?thesis by simp
  qed
qed

text \<open>Storing one row of the covariance triangle.\<close>
lemma store_covRow_other:
  "\<not> (a = k1 \<and> b \<in> identity ` set vs) \<Longrightarrow>
   lookup2 (store_covRow k1 vs i j C cm) a b = lookup2 cm a b"
  by (induction vs arbitrary: j cm) auto

lemma store_covRow_nth:
  "distinct (map identity vs) \<Longrightarrow> t < length vs \<Longrightarrow>
   lookup2 (store_covRow k1 vs i j C cm) k1 (identity (vs ! t)) = mget C i (j + t)"
proof (induction vs arbitrary: j cm t)
  case Nil
  then show ?case by simp
next
  case (Cons v vs)
  show ?case
  proof (cases t)
    case 0
    with Cons.prems show ?thesis by (simp add: store_covRow_other)
  next
    case (Suc t')
    with Cons.prems Cons.IH[of t' "Suc j"] show ?thesis by simp
  qed
qed

lemma store_covRow_present:
  "store_covRow k1 vs i j C cm k = None \<longleftrightarrow> (k \<noteq> k1 \<or> vs = []) \<and> cm k = None"
  by (induction vs arbitrary: j cm) auto

text \<open>Storing the whole triangle.\<close>
lemma store_cov_present:
  "distinct (map identity vs) \<Longrightarrow>
   store_cov vs vs i C cm k = None \<longleftrightarrow> k \<notin> identity ` set vs \<and> cm k = None"
proof (induction vs arbitrary: i cm)
  case Nil
  then show ?case by simp
next
  case (Cons v vs)
  from Cons.prems have e: "set_erase v (v # vs) = vs" by (simp add: set_erase_head)
  from Cons.prems have d: "distinct (map identity vs)" by simp
  show ?case using Cons.IH[OF d] e
    by (auto simp: Let_def store_covRow_present)
qed

lemma store_cov_other:
  "distinct (map identity vs) \<Longrightarrow>
   \<not> (\<exists>a b. a \<le> b \<and> b < length vs \<and> k1 = identity (vs ! a) \<and> k2 = identity (vs ! b)) \<Longrightarrow>
   lookup2 (store_cov vs vs i C cm) k1 k2 = lookup2 cm k1 k2"
proof (induction vs arbitrary: i cm)
  case Nil
  then show ?case by simp
next
  case (Cons v vs)
  from Cons.prems have e: "set_erase v (v # vs) = vs" by (simp add: set_erase_head)
  from Cons.prems have d: "distinct (map identity vs)" by simp
  have n1: "\<not> (\<exists>a b. a \<le> b \<and> b < length vs \<and> k1 = identity (vs ! a) \<and> k2 = identity (vs ! b))"
  proof
    assume "\<exists>a b. a \<le> b \<and> b < length vs \<and> k1 = identity (vs ! a) \<and> k2 = identity (vs ! b)"
    then obtain a b where "a \<le> b" "b < length vs" "k1 = identity (vs ! a)" "k2 = identity (vs ! b)"
      by blast
    then have "Suc a \<le> Suc b \<and> Suc b < length (v # vs) \<and> k1 = identity ((v # vs) ! Suc a)
        \<and> k2 = identity ((v # vs) ! Suc b)" by simp
    with Cons.prems(2) show False by blast
  qed
  have n2: "\<not> (k1 = identity v \<and> k2 = identity v)"
  proof
    assume "k1 = identity v \<and> k2 = identity v"
    then have "(0::nat) \<le> 0 \<and> 0 < length (v # vs) \<and> k1 = identity ((v # vs) ! 0)
        \<and> k2 = identity ((v # vs) ! 0)" by simp
    with Cons.prems(2) show False by blast
  qed
  have n3: "\<not> (k1 = identity v \<and> k2 \<in> identity ` set vs)"
  proof
    assume h: "k1 = identity v \<and> k2 \<in> identity ` set vs"
    then obtain b where "b < length vs" "k2 = identity (vs ! b)"
      by (auto simp: in_set_conv_nth)
    with h have "0 \<le> Suc b \<and> Suc b < length (v # vs) \<and> k1 = identity ((v # vs) ! 0)
        \<and> k2 = identity ((v # vs) ! Suc b)" by simp
    with Cons.prems(2) show False by blast
  qed
  show ?case using Cons.IH[OF d n1] e n2 n3
    by (auto simp: Let_def store_covRow_other)
qed

lemma store_cov_nth:
  "distinct (map identity vs) \<Longrightarrow> a \<le> b \<Longrightarrow> b < length vs \<Longrightarrow>
   lookup2 (store_cov vs vs i C cm) (identity (vs ! a)) (identity (vs ! b)) = mget C (i + a) (i + b)"
proof (induction vs arbitrary: i cm a b)
  case Nil
  then show ?case by simp
next
  case (Cons v vs)
  from Cons.prems have e: "set_erase v (v # vs) = vs" by (simp add: set_erase_head)
  from Cons.prems have d: "distinct (map identity vs)" and nv: "identity v \<notin> identity ` set vs"
    by auto
  let ?cm2 = "store_covRow (identity v) vs i (Suc i) C
                (map_put2 cm (identity v) (identity v) (mget C i i))"
  have st: "store_cov (v # vs) (v # vs) i C cm = store_cov vs vs (Suc i) C ?cm2"
    using e by (simp add: Let_def)
  show ?case
  proof (cases a)
    case a0: 0
    have no: "\<not> (\<exists>a' b'. a' \<le> b' \<and> b' < length vs \<and> identity v = identity (vs ! a')
        \<and> k2 = identity (vs ! b'))" for k2
    proof
      assume "\<exists>a' b'. a' \<le> b' \<and> b' < length vs \<and> identity v = identity (vs ! a')
        \<and> k2 = identity (vs ! b')"
      then obtain a' b' where "a' \<le> b'" "b' < length vs" "identity v = identity (vs ! a')"
        by blast
      then have "identity v \<in> identity ` set vs" by (simp add: image_iff) (metis le_less_trans nth_mem)
      with nv show False by simp
    qed
    show ?thesis
    proof (cases b)
      case 0
      with a0 st no show ?thesis
        using nv by (simp add: store_cov_other[OF d] store_covRow_other)
    next
      case (Suc b')
      with Cons.prems have "b' < length vs" by simp
      with a0 Suc st no show ?thesis
        by (simp add: store_cov_other[OF d] store_covRow_nth[OF d])
    qed
  next
    case (Suc a')
    with Cons.prems obtain b' where b: "b = Suc b'" "a' \<le> b'" "b' < length vs"
      by (cases b) auto
    with Suc st Cons.IH[OF d b(2,3), of "Suc i" ?cm2] show ?thesis by simp
  qed
qed

section \<open>The carry-forward walks\<close>

lemma fill_covRow_Cons:
  "fill_covRow k1 (v2 # vs) i j (M, cm) =
     fill_covRow k1 vs i (Suc j)
       (mset (mset M j i (lookup2 cm k1 (identity v2))) i j (lookup2 cm k1 (identity v2)),
        snd (map_at2 cm k1 (identity v2)))"
  by (simp add: case_prod_beta)

lemma fill_covRow_map:
  "lookup2 (snd (fill_covRow k1 vs i j (M, cm))) a b = lookup2 cm a b \<and>
   (snd (fill_covRow k1 vs i j (M, cm)) k = None \<longleftrightarrow> (k \<noteq> k1 \<or> vs = []) \<and> cm k = None) \<and>
   rows (fst (fill_covRow k1 vs i j (M, cm))) = rows M \<and>
   cols (fst (fill_covRow k1 vs i j (M, cm))) = cols M"
proof (induction vs arbitrary: j M cm)
  case Nil
  then show ?case by simp
next
  case (Cons v vs)
  show ?case unfolding fill_covRow_Cons using Cons.IH by auto
qed

lemma fill_covRow_frame:
  "\<not> ((r = i \<and> j \<le> c \<and> c < j + length vs) \<or> (c = i \<and> j \<le> r \<and> r < j + length vs)) \<Longrightarrow>
   mget (fst (fill_covRow k1 vs i j (M, cm))) r c = mget M r c"
proof (induction vs arbitrary: j M cm)
  case Nil
  then show ?case by simp
next
  case (Cons v vs)
  from Cons.prems have
    "\<not> ((r = i \<and> Suc j \<le> c \<and> c < Suc j + length vs) \<or> (c = i \<and> Suc j \<le> r \<and> r < Suc j + length vs))"
    by auto
  then have ih: "\<And>M cm. mget (fst (fill_covRow k1 vs i (Suc j) (M, cm))) r c = mget M r c"
    using Cons.IH by blast
  define x where "x = lookup2 cm k1 (identity v)"
  have "mget (fst (fill_covRow k1 (v # vs) i j (M, cm))) r c = mget (mset (mset M j i x) i j x) r c"
    by (simp only: fill_covRow_Cons ih x_def)
  also have "\<dots> = mget M r c"
    using Cons.prems by (cases "r = i"; cases "c = j"; cases "r = j"; cases "c = i"; simp)
  finally show ?case .
qed

lemma fill_covRow_nth:
  "i < j \<Longrightarrow> t < length vs \<Longrightarrow>
   mget (fst (fill_covRow k1 vs i j (M, cm))) i (j + t) = lookup2 cm k1 (identity (vs ! t)) \<and>
   mget (fst (fill_covRow k1 vs i j (M, cm))) (j + t) i = lookup2 cm k1 (identity (vs ! t))"
proof (induction vs arbitrary: j M cm t)
  case Nil
  then show ?case by simp
next
  case (Cons v vs)
  show ?case
  proof (cases t)
    case 0
    with Cons.prems show ?thesis unfolding fill_covRow_Cons
      by (simp add: fill_covRow_frame)
  next
    case (Suc t')
    with Cons.prems have "i < Suc j" "t' < length vs" by simp_all
    from Cons.IH[OF this] Suc show ?thesis unfolding fill_covRow_Cons
      by (simp add: fill_covRow_map)
  qed
qed

lemma fill_currentErrorCov_Cons:
  "identity v1 \<notin> identity ` set vs \<Longrightarrow>
   fill_currentErrorCov (v1 # vs) (v1 # vs) i (M, cm) =
     fill_currentErrorCov vs vs (Suc i)
       (fill_covRow (identity v1) vs i (Suc i) (diag_step v1 i (M, cm)))"
  by (simp add: set_erase_head diag_step_def case_prod_beta Let_def)

lemma diag_step_props:
  "lookup2 (snd (diag_step v i (M, cm))) a b = lookup2 cm a b"
  "snd (diag_step v i (M, cm)) k = None \<longleftrightarrow> cm k = None"
  "rows (fst (diag_step v i (M, cm))) = rows M"
  "cols (fst (diag_step v i (M, cm))) = cols M"
  "mget (fst (diag_step v i (M, cm))) r c =
     (if r = i \<and> c = i
      then (if cm (identity v) \<noteq> None then lookup2 cm (identity v) (identity v)
            else getInitialVariance v)
      else mget M r c)"
  by (auto simp: diag_step_def)

lemma fill_currentErrorCov_shape:
  "distinct (map identity vs) \<Longrightarrow>
   rows (fst (fill_currentErrorCov vs vs i (M, cm))) = rows M \<and>
   cols (fst (fill_currentErrorCov vs vs i (M, cm))) = cols M"
proof (induction vs arbitrary: i M cm)
  case Nil
  then show ?case by simp
next
  case (Cons v vs)
  then have nv: "identity v \<notin> identity ` set vs" and d: "distinct (map identity vs)" by auto
  obtain M1 cm1 where s1: "diag_step v i (M, cm) = (M1, cm1)" by force
  obtain M2 cm2 where s2: "fill_covRow (identity v) vs i (Suc i) (M1, cm1) = (M2, cm2)" by force
  have "rows M2 = rows M" "cols M2 = cols M"
    using fill_covRow_map[of "identity v" vs i "Suc i" M1 cm1] diag_step_props(3,4)[of v i M cm] s1 s2
    by auto
  with Cons.IH[OF d, of "Suc i" M2 cm2] show ?case
    unfolding fill_currentErrorCov_Cons[OF nv] s1 s2 by simp
qed

lemma fill_currentErrorCov_frame:
  "distinct (map identity vs) \<Longrightarrow>
   r < i \<or> i + length vs \<le> r \<or> c < i \<or> i + length vs \<le> c \<Longrightarrow>
   mget (fst (fill_currentErrorCov vs vs i (M, cm))) r c = mget M r c"
proof (induction vs arbitrary: i M cm)
  case Nil
  then show ?case by simp
next
  case (Cons v vs)
  then have nv: "identity v \<notin> identity ` set vs" and d: "distinct (map identity vs)" by auto
  obtain M1 cm1 where s1: "diag_step v i (M, cm) = (M1, cm1)" by force
  obtain M2 cm2 where s2: "fill_covRow (identity v) vs i (Suc i) (M1, cm1) = (M2, cm2)" by force
  from Cons.prems(2) have o: "r < Suc i \<or> Suc i + length vs \<le> r \<or> c < Suc i \<or> Suc i + length vs \<le> c"
    by auto
  from Cons.prems(2) have
    f: "\<not> ((r = i \<and> Suc i \<le> c \<and> c < Suc i + length vs) \<or> (c = i \<and> Suc i \<le> r \<and> r < Suc i + length vs))"
    and nd: "\<not> (r = i \<and> c = i)"
    by auto
  have "mget M2 r c = mget M1 r c"
    using fill_covRow_frame[OF f, of "identity v" M1 cm1] s2 by simp
  also have "\<dots> = mget M r c"
    using diag_step_props(5)[of v i M cm r c] s1 nd by simp
  finally show ?case
    using Cons.IH[OF d o, of M2 cm2] unfolding fill_currentErrorCov_Cons[OF nv] s1 s2 by simp
qed

lemma fill_currentErrorCov_entries:
  "distinct (map identity vs) \<Longrightarrow> a \<le> b \<Longrightarrow> b < length vs \<Longrightarrow>
   mget (fst (fill_currentErrorCov vs vs i (M, cm))) (i + a) (i + b) =
     (if a = b
      then (if cm (identity (vs ! a)) \<noteq> None
            then lookup2 cm (identity (vs ! a)) (identity (vs ! a))
            else getInitialVariance (vs ! a))
      else lookup2 cm (identity (vs ! a)) (identity (vs ! b))) \<and>
   mget (fst (fill_currentErrorCov vs vs i (M, cm))) (i + b) (i + a) =
     mget (fst (fill_currentErrorCov vs vs i (M, cm))) (i + a) (i + b)"
proof (induction vs arbitrary: i M cm a b)
  case Nil
  then show ?case by simp
next
  case (Cons v vs)
  then have nv: "identity v \<notin> identity ` set vs" and d: "distinct (map identity vs)" by auto
  obtain M1 cm1 where s1: "diag_step v i (M, cm) = (M1, cm1)" by force
  obtain M2 cm2 where s2: "fill_covRow (identity v) vs i (Suc i) (M1, cm1) = (M2, cm2)" by force
  have l2: "\<And>x y. lookup2 cm2 x y = lookup2 cm x y"
    using fill_covRow_map[of "identity v" vs i "Suc i" M1 cm1] diag_step_props(1)[of v i M cm] s1 s2
    by simp
  have pr: "\<And>k. k \<noteq> identity v \<Longrightarrow> cm2 k = None \<longleftrightarrow> cm k = None"
    using fill_covRow_map[of "identity v" vs i "Suc i" M1 cm1] diag_step_props(2)[of v i M cm] s1 s2
    by simp
  have st: "fill_currentErrorCov (v # vs) (v # vs) i (M, cm)
      = fill_currentErrorCov vs vs (Suc i) (M2, cm2)"
    using fill_currentErrorCov_Cons[OF nv, of i M cm] s1 s2 by simp
  show ?case
  proof (cases a)
    case a0: 0
    show ?thesis
    proof (cases b)
      case 0
      have "mget M2 i i = mget M1 i i"
        using fill_covRow_frame[of i i "Suc i" i vs "identity v" M1 cm1] s2 by simp
      then show ?thesis unfolding st using a0 0 diag_step_props(5)[of v i M cm i i] s1
        by (simp add: fill_currentErrorCov_frame[OF d])
    next
      case (Suc b')
      with Cons.prems have b': "b' < length vs" by simp
      have "lookup2 cm1 x y = lookup2 cm x y" for x y
        using diag_step_props(1)[of v i M cm] s1 by simp
      with fill_covRow_nth[of i "Suc i" b' vs "identity v" M1 cm1] b' s2
      have "mget M2 i (Suc i + b') = lookup2 cm (identity v) (identity (vs ! b'))"
           "mget M2 (Suc i + b') i = lookup2 cm (identity v) (identity (vs ! b'))"
        by simp_all
      then show ?thesis unfolding st using a0 Suc
        by (simp add: fill_currentErrorCov_frame[OF d])
    qed
  next
    case (Suc a')
    with Cons.prems obtain b' where b: "b = Suc b'" "a' \<le> b'" "b' < length vs"
      by (cases b) auto
    then have "a' < length vs" by simp
    then have "identity (vs ! a') \<in> identity ` set vs" by simp
    with nv have ne: "identity (vs ! a') \<noteq> identity v" by auto
    have e1: "mget (fst (fill_currentErrorCov vs vs (Suc i) (M2, cm2))) (i + a) (i + b) =
     (if a' = b'
      then (if cm (identity (vs ! a')) \<noteq> None
            then lookup2 cm (identity (vs ! a')) (identity (vs ! a'))
            else getInitialVariance (vs ! a'))
      else lookup2 cm (identity (vs ! a')) (identity (vs ! b')))"
      and e2: "mget (fst (fill_currentErrorCov vs vs (Suc i) (M2, cm2))) (i + b) (i + a) =
        mget (fst (fill_currentErrorCov vs vs (Suc i) (M2, cm2))) (i + a) (i + b)"
      using Cons.IH[OF d b(2,3), of "Suc i" M2 cm2] Suc b(1) l2 pr[OF ne] by auto
    show ?thesis unfolding st e2 e1 using Suc b(1) by simp
  qed
qed

section \<open>Snapshot and carry-forward of SolverUpdNL\<close>

lemma UpdNL_postCompute_ok:
  assumes "length (getVarUnknowns eq) \<le> length (solution s)"
    and "length (getVarUnknowns eq) \<le> rows (covMatrix s)"
    and "length (getVarUnknowns eq) \<le> cols (covMatrix s)"
  shows "UpdNL_postCompute eq s =
     (Inr (), s\<lparr>stateMap := store_state (getVarUnknowns eq) 0 (solution s) Map.empty,
                 covarianceMap := store_cov (getVarUnknowns eq) (getVarUnknowns eq) 0 (covMatrix s) Map.empty\<rparr>)"
  using assms by (simp add: UpdNL_postCompute_def Let_def)

lemma UpdNL_preCompute_carry:
  assumes "\<not> firstTime s" and "length (getVarUnknowns eq) \<le> getTotalNumVariables eq"
  shows "\<exists>s2. UpdNL_preCompute eq s = (Inr (), s2) \<and>
     xhat s2 = fst (fill_currentState (getVarUnknowns eq) 0
                     (Vector_fill (getTotalNumVariables eq) 0, stateMap s)) \<and>
     P s2 = fst (fill_currentErrorCov (getVarUnknowns eq) (getVarUnknowns eq) 0
                     (Matrix_fill (getTotalNumVariables eq) (getTotalNumVariables eq) 0,
                      covarianceMap s))"
  using assms by (simp add: UpdNL_preCompute_def Let_def case_prod_beta)

lemma sorted_index_mono:
  fixes f :: "'a \<Rightarrow> 'b::linorder"
  assumes "sorted_wrt (<) (map f xs)" "a < length xs" "b < length xs" "f (xs ! a) < f (xs ! b)"
  shows "a < (b::nat)"
proof (rule ccontr)
  assume "\<not> a < b"
  then have "b \<le> a" by simp
  then consider "b = a" | "b < a" by linarith
  then show False
  proof cases
    case 1
    with assms(4) show False by simp
  next
    case 2
    with assms(1,2) have "f (xs ! b) < f (xs ! a)"
      by (simp add: sorted_wrt_iff_nth_less)
    with assms(4) show False by simp
  qed
qed

text \<open>
  C2. Storing a posterior state and a symmetric posterior covariance of the size of the
  Variable set with \<^verbatim>\<open>postCompute\<close>, then rebuilding state and covariance from the
  same Variable set with the carry-forward branch of \<^verbatim>\<open>preCompute\<close>, gives back
  the state vector and every entry of the covariance matrix.
\<close>

theorem snapshot_materialize_roundtrip:
  assumes vs: "is_VariableSet (getVarUnknowns equSystem)"
    and same: "getVarUnknowns equSystem' = getVarUnknowns equSystem"
    and n: "getTotalNumVariables equSystem' = length (getVarUnknowns equSystem)"
    and lx: "length (solution s) = length (getVarUnknowns equSystem)"
    and rc: "rows (covMatrix s) = length (getVarUnknowns equSystem)"
            "cols (covMatrix s) = length (getVarUnknowns equSystem)"
    and sym: "\<forall>i<length (getVarUnknowns equSystem). \<forall>j<length (getVarUnknowns equSystem).
                 mget (covMatrix s) i j = mget (covMatrix s) j i"
    and nf: "\<not> firstTime s"
  shows "\<exists>s1 s2. UpdNL_postCompute equSystem s = (Inr (), s1) \<and>
           UpdNL_preCompute equSystem' s1 = (Inr (), s2) \<and>
           xhat s2 = solution s \<and>
           rows (P s2) = rows (covMatrix s) \<and> cols (P s2) = cols (covMatrix s) \<and>
           (\<forall>i<length (getVarUnknowns equSystem). \<forall>j<length (getVarUnknowns equSystem).
               mget (P s2) i j = mget (covMatrix s) i j)"
proof -
  let ?us = "getVarUnknowns equSystem"
  let ?n = "length ?us"
  let ?sm = "store_state ?us 0 (solution s) Map.empty"
  let ?cm = "store_cov ?us ?us 0 (covMatrix s) Map.empty"
  let ?s1 = "s\<lparr>stateMap := ?sm, covarianceMap := ?cm\<rparr>"
  from vs have d: "distinct (map identity ?us)" by (rule VariableSet_distinct)
  have p1: "UpdNL_postCompute equSystem s = (Inr (), ?s1)"
    using lx rc by (simp add: UpdNL_postCompute_ok)
  have "\<not> firstTime ?s1" using nf by simp
  moreover have "length (getVarUnknowns equSystem') \<le> getTotalNumVariables equSystem'"
    using same n by simp
  ultimately obtain s2 where p2: "UpdNL_preCompute equSystem' ?s1 = (Inr (), s2)"
    and x2: "xhat s2 = fst (fill_currentState ?us 0 (Vector_fill ?n 0, ?sm))"
    and P2: "P s2 = fst (fill_currentErrorCov ?us ?us 0 (Matrix_fill ?n ?n 0, ?cm))"
    using UpdNL_preCompute_carry[of ?s1 equSystem'] same n by auto
  have xs: "xhat s2 = solution s"
  proof (rule nth_equalityI)
    show "length (xhat s2) = length (solution s)"
      using x2 lx by (simp add: fill_currentState_length Vector_fill_def)
  next
    fix k assume "k < length (xhat s2)"
    then have k: "k < ?n" using x2 by (simp add: fill_currentState_length Vector_fill_def)
    then show "xhat s2 ! k = solution s ! k"
      using x2 store_state_nth[OF d k, of 0 "solution s" Map.empty]
      by (simp add: fill_currentState_nth Vector_fill_def lookup0_def)
  qed
  have sh: "rows (P s2) = rows (covMatrix s)" "cols (P s2) = cols (covMatrix s)"
    using P2 rc fill_currentErrorCov_shape[OF d, of 0 "Matrix_fill ?n ?n 0" ?cm] by simp_all
  have pres: "?cm (identity (?us ! a)) \<noteq> None" if "a < ?n" for a
    using store_cov_present[OF d, of 0 "covMatrix s" Map.empty "identity (?us ! a)"] that by simp
  have up: "mget (P s2) a b = mget (covMatrix s) a b \<and> mget (P s2) b a = mget (covMatrix s) a b"
    if "a \<le> b" "b < ?n" for a b
  proof -
    from that have a: "a < ?n" by simp
    show ?thesis
      using fill_currentErrorCov_entries[OF d that, of 0 "Matrix_fill ?n ?n 0" ?cm]
        store_cov_nth[OF d that, of 0 "covMatrix s" Map.empty]
        store_cov_nth[OF d order.refl a, of 0 "covMatrix s" Map.empty] pres[OF a] P2
      by (auto split: if_splits)
  qed
  have ent: "mget (P s2) i j = mget (covMatrix s) i j" if "i < ?n" "j < ?n" for i j
  proof (cases "i \<le> j")
    case True
    with up[OF True that(2)] show ?thesis by simp
  next
    case False
    then have "j \<le> i" by simp
    from up[OF this that(1)] sym that show ?thesis by simp
  qed
  show ?thesis using p1 p2 xs sh ent by blast
qed

text \<open>
  The carry-forward of SolverUpdNL, run on the maps that \<^verbatim>\<open>postCompute\<close> stored for
  the previous epoch: a Variable of the current set that is not a key of the covariance
  map gets state \<open>0\<close>, its initial variance on the diagonal and \<open>0\<close> covariance with
  every other unknown; a Variable of both epochs gets its stored mean, its stored
  variance, and with every other such Variable the stored covariance, in both triangles.
\<close>

lemma UpdNL_carry_forward:
  assumes old: "is_VariableSet (getVarUnknowns eqOld)"
    and new: "is_VariableSet (getVarUnknowns eqNew)"
    and n: "getTotalNumVariables eqNew = length (getVarUnknowns eqNew)"
    and lx: "length (solution s) = length (getVarUnknowns eqOld)"
    and rc: "rows (covMatrix s) = length (getVarUnknowns eqOld)"
            "cols (covMatrix s) = length (getVarUnknowns eqOld)"
    and nf: "\<not> firstTime s"
  shows "\<exists>s1 s2. UpdNL_postCompute eqOld s = (Inr (), s1) \<and>
           UpdNL_preCompute eqNew s1 = (Inr (), s2) \<and>
           length (xhat s2) = length (getVarUnknowns eqNew) \<and>
           rows (P s2) = length (getVarUnknowns eqNew) \<and>
           cols (P s2) = length (getVarUnknowns eqNew) \<and>
           (\<forall>i<length (getVarUnknowns eqNew).
              covarianceMap s1 (identity (getVarUnknowns eqNew ! i)) = None \<longrightarrow>
                xhat s2 ! i = 0 \<and>
                mget (P s2) i i = getInitialVariance (getVarUnknowns eqNew ! i) \<and>
                (\<forall>j<length (getVarUnknowns eqNew). j \<noteq> i \<longrightarrow>
                    mget (P s2) i j = 0 \<and> mget (P s2) j i = 0)) \<and>
           (\<forall>i<length (getVarUnknowns eqNew). \<forall>a<length (getVarUnknowns eqOld).
              identity (getVarUnknowns eqNew ! i) = identity (getVarUnknowns eqOld ! a) \<longrightarrow>
                covarianceMap s1 (identity (getVarUnknowns eqNew ! i)) \<noteq> None \<and>
                xhat s2 ! i = solution s ! a \<and>
                mget (P s2) i i = mget (covMatrix s) a a \<and>
                (\<forall>j<length (getVarUnknowns eqNew). \<forall>b<length (getVarUnknowns eqOld).
                    i < j \<and> identity (getVarUnknowns eqNew ! j) = identity (getVarUnknowns eqOld ! b)
                    \<longrightarrow> mget (P s2) i j = mget (covMatrix s) a b \<and>
                        mget (P s2) j i = mget (covMatrix s) a b))"
proof -
  let ?os = "getVarUnknowns eqOld"
  let ?us = "getVarUnknowns eqNew"
  let ?n = "length ?us"
  let ?sm = "store_state ?os 0 (solution s) Map.empty"
  let ?cm = "store_cov ?os ?os 0 (covMatrix s) Map.empty"
  let ?s1 = "s\<lparr>stateMap := ?sm, covarianceMap := ?cm\<rparr>"
  from old have dO: "distinct (map identity ?os)" by (rule VariableSet_distinct)
  from new have d: "distinct (map identity ?us)" by (rule VariableSet_distinct)
  have p1: "UpdNL_postCompute eqOld s = (Inr (), ?s1)"
    using lx rc by (simp add: UpdNL_postCompute_ok)
  have "\<not> firstTime ?s1" using nf by simp
  then obtain s2 where p2: "UpdNL_preCompute eqNew ?s1 = (Inr (), s2)"
    and x2: "xhat s2 = fst (fill_currentState ?us 0 (Vector_fill ?n 0, ?sm))"
    and P2: "P s2 = fst (fill_currentErrorCov ?us ?us 0 (Matrix_fill ?n ?n 0, ?cm))"
    using UpdNL_preCompute_carry[of ?s1 eqNew] n by auto
  have lenx: "length (xhat s2) = ?n"
    using x2 by (simp add: fill_currentState_length Vector_fill_def)
  have sh: "rows (P s2) = ?n" "cols (P s2) = ?n"
    using P2 fill_currentErrorCov_shape[OF d, of 0 "Matrix_fill ?n ?n 0" ?cm] by simp_all
  have xk: "xhat s2 ! k = lookup0 ?sm (identity (?us ! k))" if "k < ?n" for k
    using x2 that by (simp add: fill_currentState_nth Vector_fill_def)
  have pres: "?cm k = None \<longleftrightarrow> k \<notin> identity ` set ?os" for k
    using store_cov_present[OF dO, of 0 "covMatrix s" Map.empty k] by simp
  have ent: "mget (P s2) a b =
       (if a = b then (if ?cm (identity (?us ! a)) \<noteq> None
                       then lookup2 ?cm (identity (?us ! a)) (identity (?us ! a))
                       else getInitialVariance (?us ! a))
        else lookup2 ?cm (identity (?us ! a)) (identity (?us ! b)))
       \<and> mget (P s2) b a = mget (P s2) a b"
    if "a \<le> b" "b < ?n" for a b
    using fill_currentErrorCov_entries[OF d that, of 0 "Matrix_fill ?n ?n 0" ?cm] P2 by simp
  have l0: "lookup2 (Map.empty :: CovarianceMap) x y = 0" for x y
    by (simp add: lookup2_def map_inner_def lookup0_def)
  have new_part: "xhat s2 ! i = 0 \<and>
                mget (P s2) i i = getInitialVariance (?us ! i) \<and>
                (\<forall>j<?n. j \<noteq> i \<longrightarrow> mget (P s2) i j = 0 \<and> mget (P s2) j i = 0)"
    if i: "i < ?n" and ab: "?cm (identity (?us ! i)) = None" for i
  proof -
    from ab have nin: "identity (?us ! i) \<notin> identity ` set ?os" by (simp add: pres)
    have "xhat s2 ! i = 0"
      using xk[OF i] store_state_other[OF nin, of 0 "solution s" Map.empty]
      by (simp add: lookup0_def)
    moreover have "mget (P s2) i i = getInitialVariance (?us ! i)"
      using ent[OF order.refl i] ab by simp
    moreover have "mget (P s2) i j = 0 \<and> mget (P s2) j i = 0" if j: "j < ?n" "j \<noteq> i" for j
    proof -
      have z: "lookup2 ?cm k1 k2 = 0" if "k1 = identity (?us ! i) \<or> k2 = identity (?us ! i)" for k1 k2
      proof -
        have "\<not> (\<exists>a b. a \<le> b \<and> b < length ?os \<and> k1 = identity (?os ! a) \<and> k2 = identity (?os ! b))"
        proof
          assume "\<exists>a b. a \<le> b \<and> b < length ?os \<and> k1 = identity (?os ! a) \<and> k2 = identity (?os ! b)"
          then obtain a b where "a \<le> b" "b < length ?os" "k1 = identity (?os ! a)" "k2 = identity (?os ! b)"
            by blast
          then have "k1 \<in> identity ` set ?os" "k2 \<in> identity ` set ?os" by auto
          with that nin show False by blast
        qed
        from store_cov_other[OF dO this, of 0 "covMatrix s" Map.empty] show ?thesis by (simp add: l0)
      qed
      show ?thesis
      proof (cases "i < j")
        case True
        then have "i \<le> j" by simp
        from ent[OF this j(1)] True z show ?thesis by simp
      next
        case False
        with j have "j \<le> i" "j \<noteq> i" by simp_all
        from ent[OF this(1) i] this(2) z show ?thesis by simp
      qed
    qed
    ultimately show ?thesis by blast
  qed
  have old_part: "?cm (identity (?us ! i)) \<noteq> None \<and> xhat s2 ! i = solution s ! a \<and>
                mget (P s2) i i = mget (covMatrix s) a a \<and>
                (\<forall>j<?n. \<forall>b<length ?os.
                    i < j \<and> identity (?us ! j) = identity (?os ! b)
                    \<longrightarrow> mget (P s2) i j = mget (covMatrix s) a b \<and>
                        mget (P s2) j i = mget (covMatrix s) a b)"
    if i: "i < ?n" and a: "a < length ?os" and ia: "identity (?us ! i) = identity (?os ! a)" for i a
  proof -
    have pr: "?cm (identity (?us ! i)) \<noteq> None" using ia a by (simp add: pres)
    have "xhat s2 ! i = solution s ! a"
      using xk[OF i] ia store_state_nth[OF dO a, of 0 "solution s" Map.empty]
      by (simp add: lookup0_def)
    moreover have "mget (P s2) i i = mget (covMatrix s) a a"
      using ent[OF order.refl i] pr ia store_cov_nth[OF dO order.refl a, of 0 "covMatrix s" Map.empty]
      by simp
    moreover have "mget (P s2) i j = mget (covMatrix s) a b \<and> mget (P s2) j i = mget (covMatrix s) a b"
      if j: "j < ?n" and b: "b < length ?os" and ij: "i < j"
        and jb: "identity (?us ! j) = identity (?os ! b)" for j b
    proof -
      from new ij j have "identity (?us ! i) < identity (?us ! j)"
        by (simp add: is_VariableSet_def sorted_wrt_iff_nth_less)
      with ia jb have "identity (?os ! a) < identity (?os ! b)" by simp
      with old a b have "a < b"
        using sorted_index_mono[of identity ?os a b] by (simp add: is_VariableSet_def)
      then have ab: "a \<le> b" by simp
      from ij have "i \<le> j" "i \<noteq> j" by simp_all
      from ent[OF this(1) j] this(2) ia jb store_cov_nth[OF dO ab b, of 0 "covMatrix s" Map.empty]
      show ?thesis by simp
    qed
    ultimately show ?thesis using pr by blast
  qed
  show ?thesis
    apply (rule exI[of _ ?s1], rule exI[of _ s2])
    using p1 p2 lenx sh new_part old_part by simp
qed

lemma example_vars_set:
  "is_VariableSet [example_var 5, example_var 7]"
  "is_VariableSet [example_var 5, example_var 6, example_var 7]"
  by (simp_all add: is_VariableSet_def example_var_def identity_def setSatellite_def Variable_of_def)

theorem snapshot_materialize_roundtrip_witness:
  "is_VariableSet (getVarUnknowns (example_equ [example_var 5, example_var 7])) \<and>
   (\<exists>s1 s2. UpdNL_postCompute (example_equ [example_var 5, example_var 7]) example_UpdNL = (Inr (), s1) \<and>
      UpdNL_preCompute (example_equ [example_var 5, example_var 7]) s1 = (Inr (), s2) \<and>
      xhat s2 = [3, 4] \<and> mget (P s2) 0 1 = 1 \<and> mget (P s2) 1 0 = 1 \<and> mget (P s2) 1 1 = 2)"
proof -
  let ?eq = "example_equ [example_var 5, example_var 7]"
  have u: "getVarUnknowns ?eq = [example_var 5, example_var 7]"
    "getTotalNumVariables ?eq = length (getVarUnknowns ?eq)"
    by (simp_all add: example_equ_def)
  have vs: "is_VariableSet (getVarUnknowns ?eq)" using example_vars_set(1) u by simp
  have s: "length (solution example_UpdNL) = length (getVarUnknowns ?eq)"
    "rows (covMatrix example_UpdNL) = length (getVarUnknowns ?eq)"
    "cols (covMatrix example_UpdNL) = length (getVarUnknowns ?eq)"
    "\<not> firstTime example_UpdNL"
    by (simp_all add: example_UpdNL_def u)
  have sym: "\<forall>i<length (getVarUnknowns ?eq). \<forall>j<length (getVarUnknowns ?eq).
      mget (covMatrix example_UpdNL) i j = mget (covMatrix example_UpdNL) j i"
    by (auto simp: example_UpdNL_def mget_def)
  from snapshot_materialize_roundtrip[OF vs refl u(2) s(1,2,3) sym s(4)]
  obtain s1 s2 where r: "UpdNL_postCompute ?eq example_UpdNL = (Inr (), s1)"
     "UpdNL_preCompute ?eq s1 = (Inr (), s2)" "xhat s2 = solution example_UpdNL"
     "\<forall>i<length (getVarUnknowns ?eq). \<forall>j<length (getVarUnknowns ?eq).
               mget (P s2) i j = mget (covMatrix example_UpdNL) i j"
    by blast
  from r(4) have "mget (P s2) 0 1 = 1" "mget (P s2) 1 0 = 1" "mget (P s2) 1 1 = 2"
    by (simp_all add: u example_UpdNL_def mget_def)
  moreover have "xhat s2 = [3, 4]" using r(3) by (simp add: example_UpdNL_def)
  ultimately show ?thesis using vs r(1,2) by blast
qed

section \<open>The ambiguity constraints\<close>

lemma find_jcol_nth:
  "distinct (map identity us) \<Longrightarrow> c < length us \<Longrightarrow> identity a = identity (us ! c) \<Longrightarrow>
   find_jcol a us j = Some (j + c)"
proof (induction us arbitrary: j c)
  case Nil
  then show ?case by simp
next
  case (Cons u us)
  show ?case
  proof (cases c)
    case 0
    with Cons.prems show ?thesis by simp
  next
    case (Suc c')
    with Cons.prems have "c' < length us" "identity a = identity (us ! c')" by simp_all
    then have "identity a \<in> identity ` set us" by (metis image_eqI nth_mem)
    with Cons.prems(1) have "identity u \<noteq> identity a" by auto
    with Cons.IH[of c' "Suc j"] Cons.prems Suc show ?thesis by simp
  qed
qed

lemma find_jcol_None:
  "identity a \<notin> identity ` set us \<Longrightarrow> find_jcol a us j = None"
  by (induction us arbitrary: j) auto

lemma find_jcol_Some:
  "find_jcol a us j = Some c \<Longrightarrow> j \<le> c \<and> c < j + length us \<and> identity (us ! (c - j)) = identity a"
proof (induction us arbitrary: j)
  case Nil
  then show ?case by simp
next
  case (Cons u us)
  show ?case
  proof (cases "identity u \<noteq> identity a")
    case True
    with Cons.prems have f: "find_jcol a us (Suc j) = Some c" by simp
    from Cons.IH[OF f] have "Suc j \<le> c" "c < Suc j + length us"
      "identity (us ! (c - Suc j)) = identity a" by simp_all
    moreover from this(1) have "(u # us) ! (c - j) = us ! (c - Suc j)" by (simp add: nth_Cons')
    ultimately show ?thesis by simp
  next
    case False
    with Cons.prems show ?thesis by simp
  qed
qed

text \<open>Loops that write one entry per iteration.\<close>

lemma fold_upd_length [simp]:
  "length (fold (\<lambda>i tp. tp[f i := g i]) xs tp) = length tp"
  by (induction xs arbitrary: tp) simp_all

lemma fold_copy_vec:
  "rs + n \<le> length tp \<Longrightarrow>
   fold (\<lambda>i tp. tp[rs + i := mv ! i]) [0..<n] tp ! k =
     (if rs \<le> k \<and> k < rs + n then mv ! (k - rs) else tp ! k)"
proof (induction n)
  case 0
  then show ?case by auto
next
  case (Suc n)
  then have ih: "fold (\<lambda>i tp. tp[rs + i := mv ! i]) [0..<n] tp ! k =
     (if rs \<le> k \<and> k < rs + n then mv ! (k - rs) else tp ! k)" by simp
  show ?case
  proof (cases "k = rs + n")
    case True
    then show ?thesis using Suc.prems by (simp add: nth_list_update)
  next
    case False
    then show ?thesis using ih by (auto simp: nth_list_update)
  qed
qed

lemma fold_mset_shape [simp]:
  "rows (fold (\<lambda>j g. mset g (r j) (c j) (f j)) xs G) = rows G"
  "cols (fold (\<lambda>j g. mset g (r j) (c j) (f j)) xs G) = cols G"
  by (induction xs arbitrary: G) simp_all

lemma fold_mset_row:
  "mget (fold (\<lambda>j g. mset g r j (f j)) [0..<n] G) a b =
     (if a = r \<and> b < n then f b else mget G a b)"
proof (induction n)
  case 0
  then show ?case by simp
next
  case (Suc n)
  show ?case
  proof (cases "a = r \<and> b = n")
    case True
    then show ?thesis by simp
  next
    case False
    then show ?thesis using Suc by (cases "a = r"; cases "b < n"; simp) 
  qed
qed

lemma fold_rows_shape [simp]:
  "rows (fold (\<lambda>i tg. fold (\<lambda>j g. mset g (ri i) (cj i j) (h i j)) (ys i) tg) xs G) = rows G"
  "cols (fold (\<lambda>i tg. fold (\<lambda>j g. mset g (ri i) (cj i j) (h i j)) (ys i) tg) xs G) = cols G"
  by (induction xs arbitrary: G) simp_all

lemma fold_copy_mat:
  "mget (fold (\<lambda>i tg. fold (\<lambda>j g. mset g (rs + i) j (h i j)) [0..<n] tg) [0..<cnt] G) a b =
     (if rs \<le> a \<and> a < rs + cnt \<and> b < n then h (a - rs) b else mget G a b)"
proof (induction cnt)
  case 0
  then show ?case by simp
next
  case (Suc cnt)
  show ?case
  proof (cases "a = rs + cnt")
    case True
    then show ?thesis using Suc by (simp add: fold_mset_row)
  next
    case False
    then show ?thesis using Suc by (auto simp: fold_mset_row)
  qed
qed

lemma fold_copy_diag:
  "mget (fold (\<lambda>i tw. mset tw (rs + i) (rs + i) (w i)) [0..<cnt] G) a b =
     (if a = b \<and> rs \<le> a \<and> a < rs + cnt then w (a - rs) else mget G a b)"
proof (induction cnt)
  case 0
  then show ?case by simp
next
  case (Suc cnt)
  show ?case
  proof (cases "a = rs + cnt")
    case True
    then show ?thesis using Suc by (cases "b = rs + cnt"; simp)
  next
    case False
    then show ?thesis using Suc by auto
  qed
qed

lemma copy_rows_split:
  "fold (\<lambda>i. copy_row n rs i mv hm rm) xs (tp, tg, tw) =
     (fold (\<lambda>i tp. tp[rs + i := mv ! i]) xs tp,
      fold (\<lambda>i tg. fold (\<lambda>j g. mset g (rs + i) j (mget hm i j)) [0..<n] tg) xs tg,
      fold (\<lambda>i tw. mset tw (rs + i) (rs + i) (mget rm i i)) xs tw)"
  by (induction xs arbitrary: tp tg tw) (simp_all add: copy_row_def)

lemma identity_nth_inj:
  "distinct (map identity us) \<Longrightarrow> b < length us \<Longrightarrow> c < length us \<Longrightarrow>
   identity (us ! b) = identity (us ! c) \<longleftrightarrow> b = c"
  using nth_eq_iff_index_eq[of "map identity us" b c] by simp

lemma fixed_equations_ok:
  assumes d: "distinct (map identity us)"
    and mem: "\<forall>a\<in>set fx. identity (fst a) \<in> identity ` set us"
    and wide: "length us \<le> cols hm"
  shows "\<exists>mv' hm' rm'. fixed_equations fx us nrow (mv, hm, rm) = Inr (mv', hm', rm') \<and>
           length mv' = length mv \<and> rows hm' = rows hm \<and> cols hm' = cols hm \<and>
           rows rm' = rows rm \<and> cols rm' = cols rm \<and>
           (nrow + length fx \<le> length mv \<longrightarrow>
              (\<forall>k. mv' ! k = (if nrow \<le> k \<and> k < nrow + length fx
                               then snd (fx ! (k - nrow)) else mv ! k))) \<and>
           (\<forall>a b. mget hm' a b =
              (if nrow \<le> a \<and> a < nrow + length fx \<and> b < length us \<and>
                  identity (us ! b) = identity (fst (fx ! (a - nrow)))
               then 1 else mget hm a b)) \<and>
           (\<forall>a b. mget rm' a b =
              (if a = b \<and> nrow \<le> a \<and> a < nrow + length fx then 100000000000000
               else mget rm a b))"
  using mem wide
proof (induction fx arbitrary: nrow mv hm rm)
  case Nil
  then show ?case by simp
next
  case (Cons it rest)
  from Cons.prems(1) obtain c where c: "c < length us" "identity (fst it) = identity (us ! c)"
    by (auto simp: in_set_conv_nth)
  have fj: "find_jcol (fst it) us 0 = Some c"
    using find_jcol_nth[OF d c, of 0] by simp
  let ?mv1 = "mv[nrow := snd it]"
  let ?hm1 = "mset hm nrow c 1"
  let ?rm1 = "mset rm nrow nrow 100000000000000"
  have step: "fixed_equations (it # rest) us nrow (mv, hm, rm)
      = fixed_equations rest us (Suc nrow) (?mv1, ?hm1, ?rm1)"
    using fj c(1) Cons.prems(2) by simp
  have m': "\<forall>a\<in>set rest. identity (fst a) \<in> identity ` set us" using Cons.prems(1) by simp
  have w': "length us \<le> cols ?hm1" using Cons.prems(2) by simp
  from Cons.IH[OF m' w', of "Suc nrow" ?mv1 ?rm1] obtain mv' hm' rm' where
    r: "fixed_equations rest us (Suc nrow) (?mv1, ?hm1, ?rm1) = Inr (mv', hm', rm')"
    and sh: "length mv' = length mv" "rows hm' = rows hm" "cols hm' = cols hm"
            "rows rm' = rows rm" "cols rm' = cols rm"
    and pv: "Suc nrow + length rest \<le> length mv \<longrightarrow>
              (\<forall>k. mv' ! k = (if Suc nrow \<le> k \<and> k < Suc nrow + length rest
                               then snd (rest ! (k - Suc nrow)) else ?mv1 ! k))"
    and ph: "\<forall>a b. mget hm' a b =
              (if Suc nrow \<le> a \<and> a < Suc nrow + length rest \<and> b < length us \<and>
                  identity (us ! b) = identity (fst (rest ! (a - Suc nrow)))
               then 1 else mget ?hm1 a b)"
    and pr: "\<forall>a b. mget rm' a b =
              (if a = b \<and> Suc nrow \<le> a \<and> a < Suc nrow + length rest then 100000000000000
               else mget ?rm1 a b)"
    by auto
  have shift: "(it # rest) ! (a - nrow) = rest ! (a - Suc nrow)" if "nrow < a" for a
    using that by (simp add: nth_Cons')
  have v: "mv' ! k = (if nrow \<le> k \<and> k < nrow + length (it # rest)
                               then snd ((it # rest) ! (k - nrow)) else mv ! k)"
    if le: "nrow + length (it # rest) \<le> length mv" for k
  proof -
    from le pv have e: "mv' ! k = (if Suc nrow \<le> k \<and> k < Suc nrow + length rest
                               then snd (rest ! (k - Suc nrow)) else ?mv1 ! k)" by simp
    consider "k < nrow" | "k = nrow" | "nrow < k" by linarith
    then show ?thesis
    proof cases
      case 1
      then show ?thesis using e by simp
    next
      case 2
      then show ?thesis using e le by simp
    next
      case 3
      then show ?thesis using e shift[OF 3] by simp
    qed
  qed
  have h: "mget hm' a b =
              (if nrow \<le> a \<and> a < nrow + length (it # rest) \<and> b < length us \<and>
                  identity (us ! b) = identity (fst ((it # rest) ! (a - nrow)))
               then 1 else mget hm a b)" for a b
  proof -
    consider "a < nrow" | "a = nrow" | "nrow < a" by linarith
    then show ?thesis
    proof cases
      case 1
      then show ?thesis using ph by simp
    next
      case 2
      show ?thesis
      proof (cases "b < length us")
        case True
        then show ?thesis using ph 2 identity_nth_inj[OF d True c(1)] c(2) by auto
      next
        case False
        with c(1) have "b \<noteq> c" by auto
        then show ?thesis using ph 2 False by simp
      qed
    next
      case 3
      then show ?thesis using ph shift[OF 3] by simp
    qed
  qed
  have w: "mget rm' a b =
              (if a = b \<and> nrow \<le> a \<and> a < nrow + length (it # rest) then 100000000000000
               else mget rm a b)" for a b
  proof -
    consider "a < nrow" | "a = nrow" | "nrow < a" by linarith
    then show ?thesis
    proof cases
      case 1
      then show ?thesis using pr by simp
    next
      case 2
      then show ?thesis using pr by (cases "b = nrow"; simp)
    next
      case 3
      then show ?thesis using pr by simp
    qed
  qed
  show ?case unfolding step using r sh v h w by simp
qed

lemma after_resolver_fields [simp]:
  "measVector (after_resolver i a e s) = measVector s"
  "hMatrix (after_resolver i a e s) = hMatrix s"
  "rMatrix (after_resolver i a e s) = rMatrix s"
  by (simp_all add: after_resolver_def Let_def)

lemma AmbiguityConstr_empty:
  assumes "length (getVarUnknowns eq) \<le> length (xhatminus s)"
    "length (getVarUnknowns eq) \<le> rows (Pminus s)" "length (getVarUnknowns eq) \<le> cols (Pminus s)"
    and "ambFixedMap (after_resolver indep amb eq s) = []"
  shows "AmbiguityConstr indep amb eq s =
     (Inl (rethrow ''SolverUpdNL'' (index s)
             (ProcessingException ''The ambiguity constraint equation number is 0.'')),
      after_resolver indep amb eq s)"
  using assms
  by (cases "isIndepAmbDatum s")
     (simp_all add: AmbiguityConstr_def after_resolver_def Let_def)

lemma AmbiguityConstr_nonempty:
  assumes "length (getVarUnknowns eq) \<le> length (xhatminus s)"
    "length (getVarUnknowns eq) \<le> rows (Pminus s)" "length (getVarUnknowns eq) \<le> cols (Pminus s)"
    and "ambFixedMap (after_resolver indep amb eq s) \<noteq> []"
    and "fixed_equations (ambFixedMap (after_resolver indep amb eq s)) (getVarUnknowns eq) 0
           (Vector_fill (length (ambFixedMap (after_resolver indep amb eq s))) 0,
            Matrix_fill (length (ambFixedMap (after_resolver indep amb eq s))) (getTotalNumVariables eq) 0,
            Matrix_fill (length (ambFixedMap (after_resolver indep amb eq s)))
               (length (ambFixedMap (after_resolver indep amb eq s))) 0) = Inr (mvF, hmF, rmF)"
    and "length (measVector s) \<le> rows (hMatrix s)" "getTotalNumVariables eq \<le> cols (hMatrix s)"
        "length (measVector s) \<le> rows (rMatrix s)" "length (measVector s) \<le> cols (rMatrix s)"
  shows "AmbiguityConstr indep amb eq s =
     (Inr (), (after_resolver indep amb eq s)
        \<lparr>measVector :=
           fold (\<lambda>i tp. tp[length (measVector s) + i := mvF ! i])
             [0..<length (ambFixedMap (after_resolver indep amb eq s))]
             (fold (\<lambda>i tp. tp[0 + i := measVector s ! i]) [0..<length (measVector s)]
                (Vector_fill (length (measVector s) + length (ambFixedMap (after_resolver indep amb eq s))) 0)),
         hMatrix :=
           fold (\<lambda>i tg. fold (\<lambda>j g. mset g (length (measVector s) + i) j (mget hmF i j))
                            [0..<getTotalNumVariables eq] tg)
             [0..<length (ambFixedMap (after_resolver indep amb eq s))]
             (fold (\<lambda>i tg. fold (\<lambda>j g. mset g (0 + i) j (mget (hMatrix s) i j))
                            [0..<getTotalNumVariables eq] tg) [0..<length (measVector s)]
                (Matrix_fill (length (measVector s) + length (ambFixedMap (after_resolver indep amb eq s)))
                   (getTotalNumVariables eq) 0)),
         rMatrix :=
           fold (\<lambda>i tw. mset tw (length (measVector s) + i) (length (measVector s) + i) (mget rmF i i))
             [0..<length (ambFixedMap (after_resolver indep amb eq s))]
             (fold (\<lambda>i tw. mset tw (0 + i) (0 + i) (mget (rMatrix s) i i)) [0..<length (measVector s)]
                (Matrix_fill (length (measVector s) + length (ambFixedMap (after_resolver indep amb eq s)))
                   (length (measVector s) + length (ambFixedMap (after_resolver indep amb eq s))) 0))\<rparr>)"
proof -
  have a: "after_resolver indep amb eq s =
      s\<lparr>stateMapminus := store_state (getVarUnknowns eq) 0 (xhatminus s) Map.empty,
        covMapminus := store_cov (getVarUnknowns eq) (getVarUnknowns eq) 0 (Pminus s) Map.empty,
        ambFixedMap := (if isIndepAmbDatum s
           then indep (store_state (getVarUnknowns eq) 0 (xhatminus s) Map.empty)
                  (store_cov (getVarUnknowns eq) (getVarUnknowns eq) 0 (Pminus s) Map.empty)
           else amb (store_state (getVarUnknowns eq) 0 (xhatminus s) Map.empty)
                  (store_cov (getVarUnknowns eq) (getVarUnknowns eq) 0 (Pminus s) Map.empty))\<rparr>"
    by (simp add: after_resolver_def Let_def)
  show ?thesis
    using assms unfolding a
    by (cases "isIndepAmbDatum s")
       (simp_all add: AmbiguityConstr_def Let_def copy_rows_def copy_rows_split
          del: fixed_equations.simps)
qed

lemma AmbiguityConstr_ambFixedMap:
  assumes "length (getVarUnknowns eq) \<le> length (xhatminus s)"
    "length (getVarUnknowns eq) \<le> rows (Pminus s)" "length (getVarUnknowns eq) \<le> cols (Pminus s)"
  shows "ambFixedMap (snd (AmbiguityConstr indep amb eq s)) = ambFixedMap (after_resolver indep amb eq s)"
  using assms
  by (cases "isIndepAmbDatum s")
     (simp_all add: AmbiguityConstr_def after_resolver_def Let_def
        split: sum.splits prod.splits del: fixed_equations.simps)

lemma AmbiguityConstr_result:
  assumes vs: "is_VariableSet (getVarUnknowns equSystem)"
    and n: "getTotalNumVariables equSystem = length (getVarUnknowns equSystem)"
    and pm: "length (xhatminus s) = length (getVarUnknowns equSystem)"
            "rows (Pminus s) = length (getVarUnknowns equSystem)"
            "cols (Pminus s) = length (getVarUnknowns equSystem)"
    and hd: "rows (hMatrix s) = length (measVector s)"
            "cols (hMatrix s) = length (getVarUnknowns equSystem)"
    and rd: "rows (rMatrix s) = length (measVector s)" "cols (rMatrix s) = length (measVector s)"
    and res: "AmbiguityConstr indepAmbDatum ambiguityDatum equSystem s = (r, s')"
  shows "(ambFixedMap s' = [] \<longrightarrow>
            (\<exists>msg. r = Inl (ProcessingException msg)) \<and> measVector s' = measVector s \<and>
            hMatrix s' = hMatrix s \<and> rMatrix s' = rMatrix s) \<and>
         (ambFixedMap s' \<noteq> [] \<and>
          (\<forall>a\<in>set (ambFixedMap s'). identity (fst a) \<in> identity ` set (getVarUnknowns equSystem)) \<longrightarrow>
            r = Inr () \<and>
            length (measVector s') = length (measVector s) + length (ambFixedMap s') \<and>
            rows (hMatrix s') = length (measVector s) + length (ambFixedMap s') \<and>
            cols (hMatrix s') = length (getVarUnknowns equSystem) \<and>
            rows (rMatrix s') = length (measVector s) + length (ambFixedMap s') \<and>
            cols (rMatrix s') = length (measVector s) + length (ambFixedMap s') \<and>
            (\<forall>i<length (measVector s).
               measVector s' ! i = measVector s ! i \<and>
               (\<forall>j<length (getVarUnknowns equSystem). mget (hMatrix s') i j = mget (hMatrix s) i j) \<and>
               mget (rMatrix s') i i = mget (rMatrix s) i i) \<and>
            (\<forall>t<length (ambFixedMap s').
               measVector s' ! (length (measVector s) + t) = snd (ambFixedMap s' ! t) \<and>
               (\<forall>j<length (getVarUnknowns equSystem).
                  mget (hMatrix s') (length (measVector s) + t) j =
                    (if identity (getVarUnknowns equSystem ! j) = identity (fst (ambFixedMap s' ! t))
                     then 1 else 0)) \<and>
               mget (rMatrix s') (length (measVector s) + t) (length (measVector s) + t)
                 = 100000000000000) \<and>
            (\<forall>a b. a \<noteq> b \<longrightarrow> mget (rMatrix s') a b = 0))"
proof -
  let ?us = "getVarUnknowns equSystem"
  let ?s4 = "after_resolver indepAmbDatum ambiguityDatum equSystem s"
  let ?fx = "ambFixedMap ?s4"
  let ?m = "length (measVector s)"
  let ?k = "length ?fx"
  let ?n = "length ?us"
  from vs have d: "distinct (map identity ?us)" by (rule VariableSet_distinct)
  have g: "?n \<le> length (xhatminus s)" "?n \<le> rows (Pminus s)" "?n \<le> cols (Pminus s)"
    using pm by simp_all
  have fxeq: "ambFixedMap s' = ?fx"
    using AmbiguityConstr_ambFixedMap[OF g, of indepAmbDatum ambiguityDatum] res by simp
  show ?thesis
  proof (cases "?fx = []")
    case True
    with AmbiguityConstr_empty[OF g True] res fxeq show ?thesis by (auto simp: rethrow_def)
  next
    case False
    show ?thesis
    proof (intro conjI impI)
      assume "ambFixedMap s' = []"
      with False fxeq show "\<exists>msg. r = Inl (ProcessingException msg)" "measVector s' = measVector s"
        "hMatrix s' = hMatrix s" "rMatrix s' = rMatrix s" by simp_all
    next
      assume h: "ambFixedMap s' \<noteq> [] \<and>
          (\<forall>a\<in>set (ambFixedMap s'). identity (fst a) \<in> identity ` set ?us)"
      then have mem: "\<forall>a\<in>set ?fx. identity (fst a) \<in> identity ` set ?us" using fxeq by simp
      have wide: "?n \<le> cols (Matrix_fill ?k (getTotalNumVariables equSystem) 0)" using n by simp
      from fixed_equations_ok[OF d mem wide, of 0 "Vector_fill ?k 0" "Matrix_fill ?k ?k 0"]
      obtain mvF hmF rmF where
        fe: "fixed_equations ?fx ?us 0 (Vector_fill ?k 0,
               Matrix_fill ?k (getTotalNumVariables equSystem) 0, Matrix_fill ?k ?k 0)
             = Inr (mvF, hmF, rmF)"
        and lF: "length mvF = ?k"
        and vF: "\<forall>t. mvF ! t = (if t < ?k then snd (?fx ! t) else Vector_fill ?k 0 ! t)"
        and hF: "\<forall>a b. mget hmF a b =
              (if a < ?k \<and> b < ?n \<and> identity (?us ! b) = identity (fst (?fx ! a)) then 1 else 0)"
        and rF: "\<forall>a b. mget rmF a b = (if a = b \<and> a < ?k then 100000000000000 else 0)"
        by (auto simp: Vector_fill_def)
      have dims: "?m \<le> rows (hMatrix s)" "getTotalNumVariables equSystem \<le> cols (hMatrix s)"
        "?m \<le> rows (rMatrix s)" "?m \<le> cols (rMatrix s)"
        using hd rd n by simp_all
      note ac = AmbiguityConstr_nonempty[OF g False fe dims]
      from ac res have r: "r = Inr ()" by simp
      from ac res have mv: "measVector s' =
           fold (\<lambda>i tp. tp[?m + i := mvF ! i]) [0..<?k]
             (fold (\<lambda>i tp. tp[0 + i := measVector s ! i]) [0..<?m] (Vector_fill (?m + ?k) 0))"
        and hm: "hMatrix s' =
           fold (\<lambda>i tg. fold (\<lambda>j g. mset g (?m + i) j (mget hmF i j)) [0..<?n] tg) [0..<?k]
             (fold (\<lambda>i tg. fold (\<lambda>j g. mset g (0 + i) j (mget (hMatrix s) i j)) [0..<?n] tg)
                 [0..<?m] (Matrix_fill (?m + ?k) ?n 0))"
        and rm: "rMatrix s' =
           fold (\<lambda>i tw. mset tw (?m + i) (?m + i) (mget rmF i i)) [0..<?k]
             (fold (\<lambda>i tw. mset tw (0 + i) (0 + i) (mget (rMatrix s) i i)) [0..<?m]
                (Matrix_fill (?m + ?k) (?m + ?k) 0))"
        using n by auto
      have l1: "length (fold (\<lambda>i tp. tp[0 + i := measVector s ! i]) [0..<?m]
           (Vector_fill (?m + ?k) 0)) = ?m + ?k"
        by (simp add: Vector_fill_def)
      have mvk: "measVector s' ! q =
          (if ?m \<le> q \<and> q < ?m + ?k then mvF ! (q - ?m)
           else if q < ?m then measVector s ! q else Vector_fill (?m + ?k) 0 ! q)" for q
        unfolding mv
        using fold_copy_vec[of ?m ?k "fold (\<lambda>i tp. tp[0 + i := measVector s ! i]) [0..<?m]
           (Vector_fill (?m + ?k) 0)" mvF q]
          fold_copy_vec[of 0 ?m "Vector_fill (?m + ?k) 0" "measVector s" q] l1
        by (simp add: Vector_fill_def)
      have hmk: "mget (hMatrix s') a b =
          (if ?m \<le> a \<and> a < ?m + ?k \<and> b < ?n then mget hmF (a - ?m) b
           else if a < ?m \<and> b < ?n then mget (hMatrix s) a b else 0)" for a b
        unfolding hm by (simp add: fold_copy_mat fold_copy_mat[where rs=0, simplified])
      have rmk: "mget (rMatrix s') a b =
          (if a = b \<and> ?m \<le> a \<and> a < ?m + ?k then mget rmF (a - ?m) (a - ?m)
           else if a = b \<and> a < ?m then mget (rMatrix s) a a else 0)" for a b
        unfolding rm by (simp add: fold_copy_diag fold_copy_diag[where rs=0, simplified])
      show "r = Inr ()" by (rule r)
      show "length (measVector s') = ?m + length (ambFixedMap s')"
        unfolding mv fxeq by (simp add: Vector_fill_def)
      show "rows (hMatrix s') = ?m + length (ambFixedMap s')" unfolding hm fxeq by simp
      show "cols (hMatrix s') = ?n" unfolding hm by simp
      show "rows (rMatrix s') = ?m + length (ambFixedMap s')" unfolding rm fxeq by simp
      show "cols (rMatrix s') = ?m + length (ambFixedMap s')" unfolding rm fxeq by simp
      show "\<forall>i<?m. measVector s' ! i = measVector s ! i \<and>
               (\<forall>j<?n. mget (hMatrix s') i j = mget (hMatrix s) i j) \<and>
               mget (rMatrix s') i i = mget (rMatrix s) i i"
        by (simp add: mvk hmk rmk)
      show "\<forall>t<length (ambFixedMap s').
               measVector s' ! (?m + t) = snd (ambFixedMap s' ! t) \<and>
               (\<forall>j<?n. mget (hMatrix s') (?m + t) j =
                    (if identity (?us ! j) = identity (fst (ambFixedMap s' ! t)) then 1 else 0)) \<and>
               mget (rMatrix s') (?m + t) (?m + t) = 100000000000000"
        unfolding fxeq by (simp add: mvk hmk rmk vF hF rF)
      show "\<forall>a b. a \<noteq> b \<longrightarrow> mget (rMatrix s') a b = 0"
        by (simp add: rmk)
    qed
  qed
qed

text \<open>A fixed Variable without a column: the search runs past the end of the set.\<close>

lemma fixed_equations_absent:
  assumes d: "distinct (map identity us)"
    and ab: "\<exists>a\<in>set fx. identity (fst a) \<notin> identity ` set us"
    and wide: "length us \<le> cols hm"
  shows "\<exists>msg. fixed_equations fx us nrow (mv, hm, rm) = Inl (UndefinedBehaviour msg)"
  using ab wide
proof (induction fx arbitrary: nrow mv hm rm)
  case Nil
  then show ?case by simp
next
  case (Cons it rest)
  show ?case
  proof (cases "identity (fst it) \<in> identity ` set us")
    case False
    then have "find_jcol (fst it) us 0 = None" by (rule find_jcol_None)
    then show ?thesis by simp
  next
    case True
    then obtain c where c: "c < length us" "identity (fst it) = identity (us ! c)"
      by (auto simp: in_set_conv_nth)
    have fj: "find_jcol (fst it) us 0 = Some c"
      using find_jcol_nth[OF d c, of 0] by simp
    from True Cons.prems(1) have r: "\<exists>a\<in>set rest. identity (fst a) \<notin> identity ` set us"
      by auto
    have w: "length us \<le> cols (mset hm nrow c 1)" using Cons.prems(2) by simp
    from Cons.IH[OF r w, of "Suc nrow" "mv[nrow := snd it]" "mset rm nrow nrow 100000000000000"]
    show ?thesis using fj c(1) Cons.prems(2) by simp
  qed
qed

lemma AmbiguityConstr_absent:
  assumes "length (getVarUnknowns eq) \<le> length (xhatminus s)"
    "length (getVarUnknowns eq) \<le> rows (Pminus s)" "length (getVarUnknowns eq) \<le> cols (Pminus s)"
    and "ambFixedMap (after_resolver indep amb eq s) \<noteq> []"
    and "fixed_equations (ambFixedMap (after_resolver indep amb eq s)) (getVarUnknowns eq) 0
           (Vector_fill (length (ambFixedMap (after_resolver indep amb eq s))) 0,
            Matrix_fill (length (ambFixedMap (after_resolver indep amb eq s))) (getTotalNumVariables eq) 0,
            Matrix_fill (length (ambFixedMap (after_resolver indep amb eq s)))
               (length (ambFixedMap (after_resolver indep amb eq s))) 0) = Inl e"
  shows "fst (AmbiguityConstr indep amb eq s) = Inl e"
proof -
  have a: "after_resolver indep amb eq s =
      s\<lparr>stateMapminus := store_state (getVarUnknowns eq) 0 (xhatminus s) Map.empty,
        covMapminus := store_cov (getVarUnknowns eq) (getVarUnknowns eq) 0 (Pminus s) Map.empty,
        ambFixedMap := (if isIndepAmbDatum s
           then indep (store_state (getVarUnknowns eq) 0 (xhatminus s) Map.empty)
                  (store_cov (getVarUnknowns eq) (getVarUnknowns eq) 0 (Pminus s) Map.empty)
           else amb (store_state (getVarUnknowns eq) 0 (xhatminus s) Map.empty)
                  (store_cov (getVarUnknowns eq) (getVarUnknowns eq) 0 (Pminus s) Map.empty))\<rparr>"
    by (simp add: after_resolver_def Let_def)
  show ?thesis
    using assms unfolding a
    by (cases "isIndepAmbDatum s")
       (simp_all add: AmbiguityConstr_def Let_def del: fixed_equations.simps)
qed

text \<open>
  C5. For an equation system of \<open>m\<close> rows with a diagonal weight matrix,
  \<^verbatim>\<open>AmbiguityConstr\<close> raises a \<^verbatim>\<open>ProcessingException\<close> and leaves the system as it
  was when the resolver's map is empty. When the map has \<open>k \<ge> 1\<close> entries, each with
  a column in the system, it returns a system of \<open>m + k\<close> rows: the first \<open>m\<close> rows
  carry the original prefit values, design-matrix entries and weights; row \<open>m + t\<close>
  carries the \<open>t\<close>-th fixed value, coefficient \<open>1\<close> in the column of that Variable and
  \<open>0\<close> in every other column, and weight \<open>1.0E+14\<close> on the diagonal and \<open>0\<close> beside it.
  A fixed Variable that has no column in the system is searched for beyond the end of the
  set of unknowns, which is undefined.
\<close>

theorem AmbiguityConstr_rows:
  assumes vs: "is_VariableSet (getVarUnknowns equSystem)"
    and n: "getTotalNumVariables equSystem = length (getVarUnknowns equSystem)"
    and pm: "length (xhatminus s) = length (getVarUnknowns equSystem)"
            "rows (Pminus s) = length (getVarUnknowns equSystem)"
            "cols (Pminus s) = length (getVarUnknowns equSystem)"
    and hd: "rows (hMatrix s) = length (measVector s)"
            "cols (hMatrix s) = length (getVarUnknowns equSystem)"
    and rd: "rows (rMatrix s) = length (measVector s)" "cols (rMatrix s) = length (measVector s)"
    and dg: "\<forall>i<length (measVector s). \<forall>j<length (measVector s).
               i \<noteq> j \<longrightarrow> mget (rMatrix s) i j = 0"
    and res: "AmbiguityConstr indepAmbDatum ambiguityDatum equSystem s = (r, s')"
  shows "(ambFixedMap s' = [] \<longrightarrow>
            (\<exists>msg. r = Inl (ProcessingException msg)) \<and> measVector s' = measVector s \<and>
            hMatrix s' = hMatrix s \<and> rMatrix s' = rMatrix s) \<and>
         (ambFixedMap s' \<noteq> [] \<and>
          (\<forall>a\<in>set (ambFixedMap s'). identity (fst a) \<in> identity ` set (getVarUnknowns equSystem)) \<longrightarrow>
            r = Inr () \<and>
            length (measVector s') = length (measVector s) + length (ambFixedMap s') \<and>
            rows (hMatrix s') = length (measVector s) + length (ambFixedMap s') \<and>
            cols (hMatrix s') = length (getVarUnknowns equSystem) \<and>
            rows (rMatrix s') = length (measVector s) + length (ambFixedMap s') \<and>
            cols (rMatrix s') = length (measVector s) + length (ambFixedMap s') \<and>
            (\<forall>i<length (measVector s).
               measVector s' ! i = measVector s ! i \<and>
               (\<forall>j<length (getVarUnknowns equSystem). mget (hMatrix s') i j = mget (hMatrix s) i j) \<and>
               (\<forall>j<length (measVector s). mget (rMatrix s') i j = mget (rMatrix s) i j)) \<and>
            (\<forall>t<length (ambFixedMap s').
               measVector s' ! (length (measVector s) + t) = snd (ambFixedMap s' ! t) \<and>
               (\<forall>j<length (getVarUnknowns equSystem).
                  mget (hMatrix s') (length (measVector s) + t) j =
                    (if identity (getVarUnknowns equSystem ! j) = identity (fst (ambFixedMap s' ! t))
                     then 1 else 0)) \<and>
               mget (rMatrix s') (length (measVector s) + t) (length (measVector s) + t)
                 = 100000000000000 \<and>
               (\<forall>j. j \<noteq> length (measVector s) + t \<longrightarrow>
                  mget (rMatrix s') (length (measVector s) + t) j = 0 \<and>
                  mget (rMatrix s') j (length (measVector s) + t) = 0))) \<and>
         (ambFixedMap s' \<noteq> [] \<and>
          \<not> (\<forall>a\<in>set (ambFixedMap s'). identity (fst a) \<in> identity ` set (getVarUnknowns equSystem)) \<longrightarrow>
            (\<exists>msg. r = Inl (UndefinedBehaviour msg)))"
proof -
  note t = AmbiguityConstr_result[OF vs n pm hd rd res]
  from t have A: "ambFixedMap s' = [] \<longrightarrow>
            (\<exists>msg. r = Inl (ProcessingException msg)) \<and> measVector s' = measVector s \<and>
            hMatrix s' = hMatrix s \<and> rMatrix s' = rMatrix s" by (rule conjunct1)
  have B: "r = Inr () \<and>
            length (measVector s') = length (measVector s) + length (ambFixedMap s') \<and>
            rows (hMatrix s') = length (measVector s) + length (ambFixedMap s') \<and>
            cols (hMatrix s') = length (getVarUnknowns equSystem) \<and>
            rows (rMatrix s') = length (measVector s) + length (ambFixedMap s') \<and>
            cols (rMatrix s') = length (measVector s) + length (ambFixedMap s') \<and>
            (\<forall>i<length (measVector s).
               measVector s' ! i = measVector s ! i \<and>
               (\<forall>j<length (getVarUnknowns equSystem). mget (hMatrix s') i j = mget (hMatrix s) i j) \<and>
               (\<forall>j<length (measVector s). mget (rMatrix s') i j = mget (rMatrix s) i j)) \<and>
            (\<forall>t<length (ambFixedMap s').
               measVector s' ! (length (measVector s) + t) = snd (ambFixedMap s' ! t) \<and>
               (\<forall>j<length (getVarUnknowns equSystem).
                  mget (hMatrix s') (length (measVector s) + t) j =
                    (if identity (getVarUnknowns equSystem ! j) = identity (fst (ambFixedMap s' ! t))
                     then 1 else 0)) \<and>
               mget (rMatrix s') (length (measVector s) + t) (length (measVector s) + t)
                 = 100000000000000 \<and>
               (\<forall>j. j \<noteq> length (measVector s) + t \<longrightarrow>
                  mget (rMatrix s') (length (measVector s) + t) j = 0 \<and>
                  mget (rMatrix s') j (length (measVector s) + t) = 0))"
    if h: "ambFixedMap s' \<noteq> [] \<and>
          (\<forall>a\<in>set (ambFixedMap s'). identity (fst a) \<in> identity ` set (getVarUnknowns equSystem))"
  proof -
    from t h have c: "r = Inr ()"
      "length (measVector s') = length (measVector s) + length (ambFixedMap s')"
      "rows (hMatrix s') = length (measVector s) + length (ambFixedMap s')"
      "cols (hMatrix s') = length (getVarUnknowns equSystem)"
      "rows (rMatrix s') = length (measVector s) + length (ambFixedMap s')"
      "cols (rMatrix s') = length (measVector s) + length (ambFixedMap s')"
      and old: "\<forall>i<length (measVector s).
               measVector s' ! i = measVector s ! i \<and>
               (\<forall>j<length (getVarUnknowns equSystem). mget (hMatrix s') i j = mget (hMatrix s) i j) \<and>
               mget (rMatrix s') i i = mget (rMatrix s) i i"
      and fixed: "\<forall>t<length (ambFixedMap s').
               measVector s' ! (length (measVector s) + t) = snd (ambFixedMap s' ! t) \<and>
               (\<forall>j<length (getVarUnknowns equSystem).
                  mget (hMatrix s') (length (measVector s) + t) j =
                    (if identity (getVarUnknowns equSystem ! j) = identity (fst (ambFixedMap s' ! t))
                     then 1 else 0)) \<and>
               mget (rMatrix s') (length (measVector s) + t) (length (measVector s) + t)
                 = 100000000000000"
      and off: "\<forall>a b. a \<noteq> b \<longrightarrow> mget (rMatrix s') a b = 0"
      by blast+
    have w: "mget (rMatrix s') i j = mget (rMatrix s) i j"
      if "i < length (measVector s)" "j < length (measVector s)" for i j
    proof (cases "i = j")
      case True
      with old that show ?thesis by simp
    next
      case False
      with off dg that show ?thesis by simp
    qed
    have old': "\<forall>i<length (measVector s).
               measVector s' ! i = measVector s ! i \<and>
               (\<forall>j<length (getVarUnknowns equSystem). mget (hMatrix s') i j = mget (hMatrix s) i j) \<and>
               (\<forall>j<length (measVector s). mget (rMatrix s') i j = mget (rMatrix s) i j)"
    proof (intro allI impI)
      fix i assume i: "i < length (measVector s)"
      from old i have "measVector s' ! i = measVector s ! i"
        "\<forall>j<length (getVarUnknowns equSystem). mget (hMatrix s') i j = mget (hMatrix s) i j"
        by blast+
      moreover from w i
      have "\<forall>j<length (measVector s). mget (rMatrix s') i j = mget (rMatrix s) i j" by blast
      ultimately show "measVector s' ! i = measVector s ! i \<and>
               (\<forall>j<length (getVarUnknowns equSystem). mget (hMatrix s') i j = mget (hMatrix s) i j) \<and>
               (\<forall>j<length (measVector s). mget (rMatrix s') i j = mget (rMatrix s) i j)"
        by blast
    qed
    have fixed': "\<forall>t<length (ambFixedMap s').
               measVector s' ! (length (measVector s) + t) = snd (ambFixedMap s' ! t) \<and>
               (\<forall>j<length (getVarUnknowns equSystem).
                  mget (hMatrix s') (length (measVector s) + t) j =
                    (if identity (getVarUnknowns equSystem ! j) = identity (fst (ambFixedMap s' ! t))
                     then 1 else 0)) \<and>
               mget (rMatrix s') (length (measVector s) + t) (length (measVector s) + t)
                 = 100000000000000 \<and>
               (\<forall>j. j \<noteq> length (measVector s) + t \<longrightarrow>
                  mget (rMatrix s') (length (measVector s) + t) j = 0 \<and>
                  mget (rMatrix s') j (length (measVector s) + t) = 0)"
    proof (intro allI impI)
      fix t assume tt: "t < length (ambFixedMap s')"
      from fixed tt have f: "measVector s' ! (length (measVector s) + t) = snd (ambFixedMap s' ! t) \<and>
               (\<forall>j<length (getVarUnknowns equSystem).
                  mget (hMatrix s') (length (measVector s) + t) j =
                    (if identity (getVarUnknowns equSystem ! j) = identity (fst (ambFixedMap s' ! t))
                     then 1 else 0)) \<and>
               mget (rMatrix s') (length (measVector s) + t) (length (measVector s) + t)
                 = 100000000000000" by blast
      from off have "\<forall>j. j \<noteq> length (measVector s) + t \<longrightarrow>
                  mget (rMatrix s') (length (measVector s) + t) j = 0 \<and>
                  mget (rMatrix s') j (length (measVector s) + t) = 0" by simp
      with f show "measVector s' ! (length (measVector s) + t) = snd (ambFixedMap s' ! t) \<and>
               (\<forall>j<length (getVarUnknowns equSystem).
                  mget (hMatrix s') (length (measVector s) + t) j =
                    (if identity (getVarUnknowns equSystem ! j) = identity (fst (ambFixedMap s' ! t))
                     then 1 else 0)) \<and>
               mget (rMatrix s') (length (measVector s) + t) (length (measVector s) + t)
                 = 100000000000000 \<and>
               (\<forall>j. j \<noteq> length (measVector s) + t \<longrightarrow>
                  mget (rMatrix s') (length (measVector s) + t) j = 0 \<and>
                  mget (rMatrix s') j (length (measVector s) + t) = 0)" by blast
    qed
    from c old' fixed' show ?thesis by blast
  qed
  have C: "\<exists>msg. r = Inl (UndefinedBehaviour msg)"
    if h: "ambFixedMap s' \<noteq> [] \<and>
          \<not> (\<forall>a\<in>set (ambFixedMap s'). identity (fst a) \<in> identity ` set (getVarUnknowns equSystem))"
  proof -
    let ?us = "getVarUnknowns equSystem"
    let ?fx = "ambFixedMap (after_resolver indepAmbDatum ambiguityDatum equSystem s)"
    from vs have d: "distinct (map identity ?us)" by (rule VariableSet_distinct)
    have g: "length ?us \<le> length (xhatminus s)" "length ?us \<le> rows (Pminus s)"
      "length ?us \<le> cols (Pminus s)"
      using pm by simp_all
    have fxeq: "ambFixedMap s' = ?fx"
      using AmbiguityConstr_ambFixedMap[OF g, of indepAmbDatum ambiguityDatum] res by simp
    from h fxeq have ne: "?fx \<noteq> []"
      and ab: "\<exists>a\<in>set ?fx. identity (fst a) \<notin> identity ` set ?us" by auto
    have wide: "length ?us \<le> cols (Matrix_fill (length ?fx) (getTotalNumVariables equSystem) 0)"
      using n by simp
    from fixed_equations_absent[OF d ab wide, of 0 "Vector_fill (length ?fx) 0"
        "Matrix_fill (length ?fx) (length ?fx) 0"]
    obtain msg where "fixed_equations ?fx ?us 0 (Vector_fill (length ?fx) 0,
        Matrix_fill (length ?fx) (getTotalNumVariables equSystem) 0,
        Matrix_fill (length ?fx) (length ?fx) 0) = Inl (UndefinedBehaviour msg)" by blast
    from AmbiguityConstr_absent[OF g ne this] res show ?thesis by simp
  qed
  from A B C show ?thesis by blast
qed

lemma example_system_facts:
  "is_VariableSet (getVarUnknowns (example_equ [example_var 5]))"
  "getTotalNumVariables (example_equ [example_var 5]) = length (getVarUnknowns (example_equ [example_var 5]))"
  "length (xhatminus example_system) = length (getVarUnknowns (example_equ [example_var 5]))"
  "rows (Pminus example_system) = length (getVarUnknowns (example_equ [example_var 5]))"
  "cols (Pminus example_system) = length (getVarUnknowns (example_equ [example_var 5]))"
  "rows (hMatrix example_system) = length (measVector example_system)"
  "cols (hMatrix example_system) = length (getVarUnknowns (example_equ [example_var 5]))"
  "rows (rMatrix example_system) = length (measVector example_system)"
  "cols (rMatrix example_system) = length (measVector example_system)"
  "\<forall>i<length (measVector example_system). \<forall>j<length (measVector example_system).
      i \<noteq> j \<longrightarrow> mget (rMatrix example_system) i j = 0"
  by (simp_all add: example_equ_def example_system_def is_VariableSet_def mget_def)

lemma example_system_fixed:
  "ambFixedMap (snd (AmbiguityConstr example_resolver example_resolver
       (example_equ [example_var 5]) example_system)) = [(example_var 5, 3)]"
  using AmbiguityConstr_ambFixedMap[of "example_equ [example_var 5]" example_system
      example_resolver example_resolver] example_system_facts(3,4,5)
  by (simp add: after_resolver_def example_resolver_def Let_def)

lemma example_system_other:
  "is_VariableSet (getVarUnknowns (example_equ [example_var 7]))"
  "getTotalNumVariables (example_equ [example_var 7]) = length (getVarUnknowns (example_equ [example_var 7]))"
  "length (xhatminus example_system) = length (getVarUnknowns (example_equ [example_var 7]))"
  "rows (Pminus example_system) = length (getVarUnknowns (example_equ [example_var 7]))"
  "cols (Pminus example_system) = length (getVarUnknowns (example_equ [example_var 7]))"
  "rows (hMatrix example_system) = length (measVector example_system)"
  "cols (hMatrix example_system) = length (getVarUnknowns (example_equ [example_var 7]))"
  "rows (rMatrix example_system) = length (measVector example_system)"
  "cols (rMatrix example_system) = length (measVector example_system)"
  "\<forall>i<length (measVector example_system). \<forall>j<length (measVector example_system).
      i \<noteq> j \<longrightarrow> mget (rMatrix example_system) i j = 0"
  by (simp_all add: example_equ_def example_system_def is_VariableSet_def mget_def)

theorem AmbiguityConstr_rows_witness:
  "fst (AmbiguityConstr example_resolver example_resolver
          (example_equ [example_var 5]) example_system) = Inr () \<and>
   measVector (snd (AmbiguityConstr example_resolver example_resolver
          (example_equ [example_var 5]) example_system)) ! 2 = 3 \<and>
   length (measVector (snd (AmbiguityConstr example_resolver example_resolver
          (example_equ [example_var 5]) example_system))) = 3 \<and>
   mget (hMatrix (snd (AmbiguityConstr example_resolver example_resolver
          (example_equ [example_var 5]) example_system))) 2 0 = 1 \<and>
   mget (rMatrix (snd (AmbiguityConstr example_resolver example_resolver
          (example_equ [example_var 5]) example_system))) 2 2 = 100000000000000 \<and>
   mget (rMatrix (snd (AmbiguityConstr example_resolver example_resolver
          (example_equ [example_var 5]) example_system))) 2 1 = 0 \<and>
   mget (rMatrix (snd (AmbiguityConstr example_resolver example_resolver
          (example_equ [example_var 5]) example_system))) 1 1 = 5 \<and>
   mget (rMatrix (snd (AmbiguityConstr example_resolver example_resolver
          (example_equ [example_var 5]) example_system))) 0 1 = 0 \<and>
   (\<exists>msg. fst (AmbiguityConstr example_no_fix example_no_fix
          (example_equ [example_var 5]) example_system) = Inl (ProcessingException msg)) \<and>
   (\<exists>msg. fst (AmbiguityConstr example_resolver example_resolver
          (example_equ [example_var 7]) example_system) = Inl (UndefinedBehaviour msg))"
proof -
  let ?r = "AmbiguityConstr example_resolver example_resolver
          (example_equ [example_var 5]) example_system"
  let ?e = "AmbiguityConstr example_no_fix example_no_fix
          (example_equ [example_var 5]) example_system"
  have res: "?r = (fst ?r, snd ?r)" by simp
  note t = AmbiguityConstr_rows[OF example_system_facts res]
  have ne: "ambFixedMap (snd ?r) \<noteq> [] \<and>
      (\<forall>a\<in>set (ambFixedMap (snd ?r)).
         identity (fst a) \<in> identity ` set (getVarUnknowns (example_equ [example_var 5])))"
    by (simp only: example_system_fixed) (simp add: example_equ_def)
  from t ne have c: "fst ?r = Inr ()"
    "length (measVector (snd ?r)) = length (measVector example_system) + length (ambFixedMap (snd ?r))"
    "\<forall>i<length (measVector example_system). \<forall>j<length (measVector example_system).
        mget (rMatrix (snd ?r)) i j = mget (rMatrix example_system) i j"
    "\<forall>t<length (ambFixedMap (snd ?r)).
               measVector (snd ?r) ! (length (measVector example_system) + t)
                  = snd (ambFixedMap (snd ?r) ! t) \<and>
               (\<forall>j<length (getVarUnknowns (example_equ [example_var 5])).
                  mget (hMatrix (snd ?r)) (length (measVector example_system) + t) j =
                    (if identity (getVarUnknowns (example_equ [example_var 5]) ! j)
                        = identity (fst (ambFixedMap (snd ?r) ! t))
                     then 1 else 0)) \<and>
               mget (rMatrix (snd ?r)) (length (measVector example_system) + t)
                  (length (measVector example_system) + t) = 100000000000000 \<and>
               (\<forall>j. j \<noteq> length (measVector example_system) + t \<longrightarrow>
                  mget (rMatrix (snd ?r)) (length (measVector example_system) + t) j = 0 \<and>
                  mget (rMatrix (snd ?r)) j (length (measVector example_system) + t) = 0)"
    by blast+
  have m: "length (measVector example_system) = 2" by (simp add: example_system_def)
  from c(4)[rule_format, of 0] have
    "measVector (snd ?r) ! 2 = 3" "mget (hMatrix (snd ?r)) 2 0 = 1"
    "mget (rMatrix (snd ?r)) 2 2 = 100000000000000"
    "\<forall>j. j \<noteq> 2 \<longrightarrow> mget (rMatrix (snd ?r)) 2 j = 0"
    by (simp_all only: example_system_fixed m) (simp_all add: example_equ_def)
  then have f: "measVector (snd ?r) ! 2 = 3" "mget (hMatrix (snd ?r)) 2 0 = 1"
    "mget (rMatrix (snd ?r)) 2 2 = 100000000000000" "mget (rMatrix (snd ?r)) 2 1 = 0"
    by simp_all
  from c(3) have o: "mget (rMatrix (snd ?r)) 1 1 = 5" "mget (rMatrix (snd ?r)) 0 1 = 0"
    by (simp_all add: m) (simp_all add: example_system_def mget_def)
  from c(2) have l: "length (measVector (snd ?r)) = 3"
    by (simp add: example_system_fixed m)
  have rese: "?e = (fst ?e, snd ?e)" by simp
  have "ambFixedMap (snd ?e) = []"
    using AmbiguityConstr_ambFixedMap[of "example_equ [example_var 5]" example_system
      example_no_fix example_no_fix] example_system_facts(3,4,5)
    by (simp add: after_resolver_def example_no_fix_def Let_def)
  with AmbiguityConstr_rows[OF example_system_facts rese]
  have e: "\<exists>msg. fst ?e = Inl (ProcessingException msg)" by blast
  let ?q = "AmbiguityConstr example_resolver example_resolver
          (example_equ [example_var 7]) example_system"
  have resq: "?q = (fst ?q, snd ?q)" by simp
  have fq: "ambFixedMap (snd ?q) = [(example_var 5, 3)]"
    using AmbiguityConstr_ambFixedMap[of "example_equ [example_var 7]" example_system
      example_resolver example_resolver] example_system_other(3,4,5)
    by (simp add: after_resolver_def example_resolver_def Let_def)
  have "ambFixedMap (snd ?q) \<noteq> [] \<and>
      \<not> (\<forall>a\<in>set (ambFixedMap (snd ?q)).
         identity (fst a) \<in> identity ` set (getVarUnknowns (example_equ [example_var 7])))"
    by (simp only: fq)
       (simp add: example_equ_def example_var_def identity_def setSatellite_def Variable_of_def)
  with AmbiguityConstr_rows[OF example_system_other resq]
  have q: "\<exists>msg. fst ?q = Inl (UndefinedBehaviour msg)" by blast
  show ?thesis using c(1) f o l e q by blast
qed

section \<open>The equations of SolverPPPUC\<close>

lemma skipped_0 [simp]: "skipped imax 0 = 0" by (simp add: skipped_def)

lemma skipped_Suc:
  "skipped imax (Suc n) = (if n = imax then skipped imax n else Suc (skipped imax n))"
  by (auto simp: skipped_def)

lemma sat_of_skipped: "n \<noteq> imax \<Longrightarrow> sat_of imax (skipped imax n) = n"
  by (auto simp: sat_of_def skipped_def)

lemma skipped_sat_of: "skipped imax (sat_of imax c) = c"
  by (auto simp: sat_of_def skipped_def)

lemma sat_of_neq: "sat_of imax c \<noteq> imax"
  by (auto simp: sat_of_def)

lemma sat_of_less: "sat_of imax c < n \<longleftrightarrow> c < skipped imax n"
  by (auto simp: sat_of_def skipped_def)

lemma skipped_full: "imax < N \<Longrightarrow> skipped imax N = N - 1"
  by (simp add: skipped_def)

lemma skip_loop_fold:
  "fold (\<lambda>i (c1, X). if i \<noteq> imax then (Suc c1, upd c1 i X) else (c1, X)) [0..<n] (0, X) =
     (skipped imax n, fold (\<lambda>i X. if i \<noteq> imax then upd (skipped imax i) i X else X) [0..<n] X)"
  by (induction n) (simp_all add: skipped_Suc)

lemma skip_loop_eq:
  "skip_loop N imax upd X = fold (\<lambda>i X. if i \<noteq> imax then upd (skipped imax i) i X else X) [0..<N] X"
  by (simp add: skip_loop_def skip_loop_fold)

lemma skip_vec_length [simp]:
  "length (fold (\<lambda>i mv. if i \<noteq> imax then mv[f i := g i] else mv) xs mv) = length mv"
  by (induction xs arbitrary: mv) simp_all

lemma skip_vec:
  "off + skipped imax n \<le> length mv \<Longrightarrow>
   fold (\<lambda>i mv. if i \<noteq> imax then mv[skipped imax i + off := g i] else mv) [0..<n] mv ! k =
     (if off \<le> k \<and> k < off + skipped imax n then g (sat_of imax (k - off)) else mv ! k)"
proof (induction n)
  case 0
  then show ?case by auto
next
  case (Suc n)
  have le: "skipped imax n \<le> skipped imax (Suc n)" by (simp add: skipped_Suc)
  with Suc.prems have p: "off + skipped imax n \<le> length mv" by simp
  note ih = Suc.IH[OF p]
  show ?case
  proof (cases "n = imax")
    case True
    then show ?thesis using ih by (simp add: skipped_Suc)
  next
    case False
    have lt: "skipped imax n + off < length mv"
      using Suc.prems False by (simp add: skipped_Suc)
    show ?thesis
    proof (cases "k = skipped imax n + off")
      case True
      then show ?thesis using False lt by (simp add: skipped_Suc sat_of_skipped)
    next
      case k: False
      then show ?thesis using False ih by (auto simp: skipped_Suc)
    qed
  qed
qed

lemma skip_mat_shape [simp]:
  "rows (fold (\<lambda>i M. if i \<noteq> imax then mset M (f i) (g i) (h i) else M) xs M) = rows M"
  "cols (fold (\<lambda>i M. if i \<noteq> imax then mset M (f i) (g i) (h i) else M) xs M) = cols M"
  "rows (fold (\<lambda>i M. if i \<noteq> imax then mset (mset M (f i) (g i) (h i)) (f' i) (g' i) (h' i) else M) xs M) = rows M"
  "cols (fold (\<lambda>i M. if i \<noteq> imax then mset (mset M (f i) (g i) (h i)) (f' i) (g' i) (h' i) else M) xs M) = cols M"
  by (induction xs arbitrary: M) simp_all

lemma skip_diag:
  "mget (fold (\<lambda>i M. if i \<noteq> imax
                      then mset M (skipped imax i + off) (skipped imax i + off) (g i) else M)
           [0..<n] M) r c =
     (if r = c \<and> off \<le> r \<and> r < off + skipped imax n then g (sat_of imax (r - off))
      else mget M r c)"
proof (induction n)
  case 0
  then show ?case by auto
next
  case (Suc n)
  show ?case
  proof (cases "n = imax")
    case True
    then show ?thesis using Suc by (simp add: skipped_Suc)
  next
    case False
    show ?thesis
    proof (cases "r = skipped imax n + off")
      case True
      then show ?thesis using False Suc
        by (cases "c = skipped imax n + off"; simp add: skipped_Suc sat_of_skipped)
    next
      case k: False
      then show ?thesis using False Suc by (auto simp: skipped_Suc)
    qed
  qed
qed

lemma skip_rows:
  "mget (fold (\<lambda>i H. if i \<noteq> imax
                      then mset (mset H (skipped imax i + off) (nv + i) 1)
                             (skipped imax i + off) (nv + imax) (- 1) else H)
           [0..<n] H) r c =
     (if off \<le> r \<and> r < off + skipped imax n
      then (if c = nv + imax then - 1 else if c = nv + sat_of imax (r - off) then 1
            else mget H r c)
      else mget H r c)"
proof (induction n)
  case 0
  then show ?case by auto
next
  case (Suc n)
  show ?case
  proof (cases "n = imax")
    case True
    then show ?thesis using Suc by (simp add: skipped_Suc)
  next
    case False
    show ?thesis
    proof (cases "r = skipped imax n + off")
      case True
      then show ?thesis using False Suc
        by (cases "c = nv + imax"; cases "c = nv + n"; simp add: skipped_Suc sat_of_skipped)
    next
      case k: False
      then show ?thesis using False Suc by (auto simp: skipped_Suc)
    qed
  qed
qed

lemma diag4:
  "n \<le> N \<Longrightarrow>
   mget (fold (\<lambda>i M. mset (mset (mset (mset M i i (a i)) (i + N) (i + N) (b i))
                  (i + 2 * N) (i + 2 * N) (c i)) (i + 3 * N) (i + 3 * N) (d i)) [0..<n] M) r q =
     (if r = q then
        (if r < n then a r
         else if N \<le> r \<and> r < N + n then b (r - N)
         else if 2 * N \<le> r \<and> r < 2 * N + n then c (r - 2 * N)
         else if 3 * N \<le> r \<and> r < 3 * N + n then d (r - 3 * N)
         else mget M r q)
      else mget M r q)"
proof (induction n)
  case 0
  then show ?case by auto
next
  case (Suc n)
  then have ih: "mget (fold (\<lambda>i M. mset (mset (mset (mset M i i (a i)) (i + N) (i + N) (b i))
                  (i + 2 * N) (i + 2 * N) (c i)) (i + 3 * N) (i + 3 * N) (d i)) [0..<n] M) r q =
     (if r = q then
        (if r < n then a r
         else if N \<le> r \<and> r < N + n then b (r - N)
         else if 2 * N \<le> r \<and> r < 2 * N + n then c (r - 2 * N)
         else if 3 * N \<le> r \<and> r < 3 * N + n then d (r - 3 * N)
         else mget M r q)
      else mget M r q)" and nN: "n < N" by simp_all
  show ?case
  proof (cases "r = q")
    case False
    then show ?thesis using ih by simp
  next
    case True
    consider "r = n" | "r = n + N" | "r = n + 2 * N" | "r = n + 3 * N"
      | "r \<noteq> n \<and> r \<noteq> n + N \<and> r \<noteq> n + 2 * N \<and> r \<noteq> n + 3 * N" by blast
    then show ?thesis
    proof cases
      case 1 then show ?thesis using True nN by simp
    next
      case 2 then show ?thesis using True nN by simp
    next
      case 3 then show ?thesis using True nN by simp
    next
      case 4 then show ?thesis using True nN by simp
    next
      case 5
      then show ?thesis using True nN ih by (simp; linarith?)
    qed
  qed
qed

lemma fold_frame:
  "(\<And>i M. i \<in> set xs \<Longrightarrow> mget (f i M) r c = mget M r c) \<Longrightarrow>
   mget (fold f xs M) r c = mget M r c"
  by (induction xs arbitrary: M) simp_all

lemma fold_rows: "(\<And>i M. rows (f i M) = rows M) \<Longrightarrow> rows (fold f xs M) = rows M"
  by (induction xs arbitrary: M) simp_all

lemma fold_cols: "(\<And>i M. cols (f i M) = cols M) \<Longrightarrow> cols (fold f xs M) = cols M"
  by (induction xs arbitrary: M) simp_all

lemma fold_vec_length: "(\<And>i v. length (f i v) = length v) \<Longrightarrow> length (fold f xs v) = length v"
  by (induction xs arbitrary: v) simp_all

lemma fold_vec_frame:
  "(\<And>i v. i \<in> set xs \<Longrightarrow> f i v ! k = v ! k) \<Longrightarrow> fold f xs v ! k = v ! k"
  by (induction xs arbitrary: v) simp_all

lemma count_numMeas_eq: "1 \<le> N \<Longrightarrow> count_numMeas N = 5 * N"
  by (simp add: count_numMeas_def Let_def)

lemma fill_prefits_length [simp]: "length (fill_prefits N a b c d mv) = length mv"
  unfolding fill_prefits_def by (rule fold_vec_length) simp

lemma fill_prefits_frame: "4 * N \<le> k \<Longrightarrow> fill_prefits N a b c d mv ! k = mv ! k"
  unfolding fill_prefits_def by (rule fold_vec_frame) simp

text \<open>The scan for the highest satellite.\<close>

lemma find_imax_inv:
  fixes elev :: "real list"
  shows "case fold (\<lambda>i (maxElev, imax). if elev ! i > maxElev then (elev ! i, Some i) else (maxElev, imax))
          [0..<n] (0, None) of
     (mx, im) \<Rightarrow> (\<forall>j<n. elev ! j \<le> mx) \<and>
        (case im of None \<Rightarrow> mx = 0 | Some m \<Rightarrow> m < n \<and> elev ! m = mx \<and> 0 < mx)"
proof (induction n)
  case 0
  then show ?case by simp
next
  case (Suc n)
  obtain mx im where f: "fold (\<lambda>i (maxElev, imax). if elev ! i > maxElev then (elev ! i, Some i)
        else (maxElev, imax)) [0..<n] (0, None) = (mx, im)" by force
  with Suc have ih: "\<forall>j<n. elev ! j \<le> mx"
    "case im of None \<Rightarrow> mx = 0 | Some m \<Rightarrow> m < n \<and> elev ! m = mx \<and> 0 < mx" by simp_all
  show ?case
  proof (cases "elev ! n > mx")
    case True
    have "0 \<le> mx" using ih(2) by (cases im) auto
    with True have "0 < elev ! n" by simp
    moreover have "\<forall>j<Suc n. elev ! j \<le> elev ! n"
      using ih(1) True by (auto simp: less_Suc_eq)
    ultimately show ?thesis using f True by simp
  next
    case False
    then have "\<forall>j<Suc n. elev ! j \<le> mx" using ih(1) by (auto simp: less_Suc_eq)
    moreover have "case im of None \<Rightarrow> mx = 0 | Some m \<Rightarrow> m < Suc n \<and> elev ! m = mx \<and> 0 < mx"
      using ih(2) by (cases im) auto
    ultimately show ?thesis using f False by simp
  qed
qed

lemma find_imax_Some:
  assumes "\<exists>i<N. 0 < elev ! i"
  shows "\<exists>m<N. snd (find_imax N elev) = Some m \<and> (\<forall>j<N. elev ! j \<le> elev ! m)"
proof -
  obtain mx im where f: "find_imax N elev = (mx, im)" by force
  with find_imax_inv[where elev=elev and n=N] have a: "\<forall>j<N. elev ! j \<le> mx"
    and b: "case im of None \<Rightarrow> mx = 0 | Some m \<Rightarrow> m < N \<and> elev ! m = mx \<and> 0 < mx"
    by (simp_all add: find_imax_def)
  from assms a have "0 < mx" by force
  with b obtain m where "im = Some m" "m < N" "elev ! m = mx" by (cases im) auto
  with a f show ?thesis by auto
qed

lemma find_imax_bound:
  "snd (find_imax N elev) = Some m \<Longrightarrow> m < N \<and> (\<forall>j<N. elev ! j \<le> elev ! m) \<and> 0 < elev ! m"
proof -
  assume s: "snd (find_imax N elev) = Some m"
  obtain mx im where f: "find_imax N elev = (mx, im)" by force
  with find_imax_inv[where elev=elev and n=N] have a: "\<forall>j<N. elev ! j \<le> mx"
    and b: "case im of None \<Rightarrow> mx = 0 | Some m \<Rightarrow> m < N \<and> elev ! m = mx \<and> 0 < mx"
    by (simp_all add: find_imax_def)
  from s f have "im = Some m" by simp
  with a b show ?thesis by auto
qed

lemma find_imax_None:
  "\<not> (\<exists>i<N. 0 < elev ! i) \<Longrightarrow> snd (find_imax N elev) = None"
proof (rule ccontr)
  assume n: "\<not> (\<exists>i<N. 0 < elev ! i)" and "snd (find_imax N elev) \<noteq> None"
  then obtain m where "snd (find_imax N elev) = Some m" by auto
  from find_imax_bound[OF this] n show False by auto
qed

text \<open>The measurement vector.\<close>

lemma assemble_measVector_length:
  "1 \<le> N \<Longrightarrow> length (assemble_measVector N gData imax) = 5 * N"
  by (simp add: assemble_measVector_def Let_def skip_loop_eq Vector_fill_def count_numMeas_eq)

lemma assemble_measVector_constraint:
  assumes N: "1 \<le> N" and im: "imax < N" and i: "i < N" "i \<noteq> imax"
  shows "assemble_measVector N gData imax ! (4 * N + skipped imax i) =
           getVectorOfTypeID ionoL1 (body gData) ! i - getVectorOfTypeID ionoL1 (body gData) ! imax"
proof -
  let ?io = "getVectorOfTypeID ionoL1 (body gData)"
  let ?mv1 = "fill_prefits N (getVectorOfTypeID prefitC (body gData))
                  (getVectorOfTypeID prefitP2 (body gData))
                  (getVectorOfTypeID prefitL1 (body gData))
                  (getVectorOfTypeID prefitL2 (body gData)) (Vector_fill (count_numMeas N) 0)"
  have l1: "length ?mv1 = 5 * N" using N by (simp add: Vector_fill_def count_numMeas_eq)
  have sk: "skipped imax i < N - 1" using im i by (auto simp: skipped_def)
  then have lt: "4 * N + skipped imax i < 5 * N - 1" by arith
  then have ne: "4 * N + skipped imax i \<noteq> 5 * N - 1" by simp
  have pre: "4 * N + skipped imax N \<le> length ?mv1" using l1 im by (simp add: skipped_full)
  have "fold (\<lambda>i mv. if i \<noteq> imax then mv[skipped imax i + 4 * N := ?io ! i - ?io ! imax] else mv)
          [0..<N] ?mv1 ! (4 * N + skipped imax i) = ?io ! i - ?io ! imax"
    using skip_vec[OF pre, of "\<lambda>i. ?io ! i - ?io ! imax" "4 * N + skipped imax i"] lt im i
    by (simp add: skipped_full sat_of_skipped)
  then show ?thesis using ne
    by (simp add: assemble_measVector_def Let_def skip_loop_eq)
qed

text \<open>The weight matrix, entry by entry, in both branches.\<close>

lemma filter_length_all: "length (filter Q xs) = length xs \<longleftrightarrow> (\<forall>x\<in>set xs. Q x)"
proof (induction xs)
  case Nil
  then show ?case by simp
next
  case (Cons x xs)
  have le: "length (filter Q xs) \<le> length xs" by (rule length_filter_le)
  show ?case
  proof (cases "Q x")
    case True
    then show ?thesis using Cons by simp
  next
    case False
    from le have "length (filter Q xs) \<noteq> Suc (length xs)" by linarith
    with False show ?thesis by simp
  qed
qed

lemma all_weights:
  "numSats (extractTypeID weight b) = length b \<longleftrightarrow> (\<forall>stv\<in>set b. snd stv weight \<noteq> None)"
  by (simp add: numSats_def extractTypeID_def filter_length_all)

lemma assemble_rMatrix_shape:
  "rows (assemble_rMatrix N gData imax iv tv) = count_numMeas N"
  "cols (assemble_rMatrix N gData imax iv tv) = count_numMeas N"
  by (simp_all add: assemble_rMatrix_def Let_def skip_loop_eq fold_rows fold_cols)

lemma assemble_rMatrix_scaled:
  assumes N: "1 \<le> N" and im: "imax < N"
    and all: "numSats (extractTypeID weight (body gData)) = N"
  shows "mget (assemble_rMatrix N gData imax iv tv) r c =
     (if r \<noteq> c then 0
      else if r < N then 11.111111 * getVectorOfTypeID weight (body gData) ! r
      else if r < 2 * N then 11.111111 * getVectorOfTypeID weight (body gData) ! (r - N)
      else if r < 3 * N then 111111.11 * getVectorOfTypeID weight (body gData) ! (r - 2 * N)
      else if r < 4 * N then 111111.11 * getVectorOfTypeID weight (body gData) ! (r - 3 * N)
      else if r < 5 * N - 1
        then 1 / iv * getVectorOfTypeID weight (body gData) ! (sat_of imax (r - 4 * N))
      else if r = 5 * N - 1 then 1 / tv else 0)"
proof -
  let ?w = "getVectorOfTypeID weight (body gData)"
  define R1 where "R1 = fold (\<lambda>i M.
                        mset (mset (mset (mset M i i (11.111111 * ?w ! i))
                          (i + N) (i + N) (11.111111 * ?w ! i))
                          (i + 2 * N) (i + 2 * N) (111111.11 * ?w ! i))
                          (i + 3 * N) (i + 3 * N) (111111.11 * ?w ! i)) [0..<N]
                     (Matrix_fill (count_numMeas N) (count_numMeas N) 0)"
  define R2 where "R2 = fold (\<lambda>i M. if i \<noteq> imax
                      then mset M (skipped imax i + 4 * N) (skipped imax i + 4 * N) (1 / iv * ?w ! i)
                      else M) [0..<N] R1"
  have R: "assemble_rMatrix N gData imax iv tv = mset R2 (5 * N - 1) (5 * N - 1) (1 / tv)"
    by (simp only: assemble_rMatrix_def Let_def skip_loop_eq R1_def R2_def all if_True simp_thms)
  have e1: "mget R1 r c =
     (if r = c then
        (if r < N then 11.111111 * ?w ! r
         else if N \<le> r \<and> r < N + N then 11.111111 * ?w ! (r - N)
         else if 2 * N \<le> r \<and> r < 2 * N + N then 111111.11 * ?w ! (r - 2 * N)
         else if 3 * N \<le> r \<and> r < 3 * N + N then 111111.11 * ?w ! (r - 3 * N)
         else 0)
      else 0)"
    unfolding R1_def by (subst diag4) simp_all
  have e2: "mget R2 r c =
     (if r = c \<and> 4 * N \<le> r \<and> r < 4 * N + skipped imax N
      then 1 / iv * ?w ! (sat_of imax (r - 4 * N)) else mget R1 r c)"
    unfolding R2_def by (subst skip_diag) simp
  have s: "4 * N + skipped imax N = 5 * N - 1" using im by (simp add: skipped_full)
  have e3: "mget (assemble_rMatrix N gData imax iv tv) r c =
      (if r = 5 * N - 1 \<and> c = 5 * N - 1 then 1 / tv else mget R2 r c)"
    unfolding R by simp
  show ?thesis
  proof (cases "r = c")
    case False
    then show ?thesis unfolding e3 e2 e1 by simp
  next
    case True
    consider "r < N" | "N \<le> r \<and> r < 2 * N" | "2 * N \<le> r \<and> r < 3 * N"
      | "3 * N \<le> r \<and> r < 4 * N" | "4 * N \<le> r \<and> r < 5 * N - 1" | "r = 5 * N - 1" | "5 * N - 1 < r"
      by linarith
    then show ?thesis
    proof cases
      case 1
      with N have "r \<noteq> 5 * N - 1" "\<not> 4 * N \<le> r" "r < 2 * N" "r < 3 * N" "r < 4 * N"
        "r < 5 * N - 1" by arith+
      with 1 True show ?thesis unfolding e3 e2 e1 by simp
    next
      case 2
      with N have "r \<noteq> 5 * N - 1" "\<not> 4 * N \<le> r" "\<not> r < N" "r < 3 * N" "r < 4 * N"
        "r < 5 * N - 1" "r < N + N" by arith+
      with 2 True show ?thesis unfolding e3 e2 e1 by simp
    next
      case 3
      with N have "r \<noteq> 5 * N - 1" "\<not> 4 * N \<le> r" "\<not> r < N" "\<not> r < 2 * N" "r < 4 * N"
        "r < 5 * N - 1" "\<not> r < N + N" "r < 2 * N + N" by arith+
      with 3 True show ?thesis unfolding e3 e2 e1 by simp
    next
      case 4
      with N have "r \<noteq> 5 * N - 1" "\<not> 4 * N \<le> r" "\<not> r < N" "\<not> r < 2 * N" "\<not> r < 3 * N"
        "r < 5 * N - 1" "\<not> r < N + N" "\<not> r < 2 * N + N" "r < 3 * N + N" by arith+
      with 4 True show ?thesis unfolding e3 e2 e1 by simp
    next
      case 5
      with N have "r \<noteq> 5 * N - 1" "\<not> r < N" "\<not> r < 2 * N" "\<not> r < 3 * N" "\<not> r < 4 * N"
        by arith+
      with 5 True show ?thesis unfolding e3 e2 s by simp
    next
      case 6
      with N have "\<not> r < N" "\<not> r < 2 * N" "\<not> r < 3 * N" "\<not> r < 4 * N" "\<not> r < 5 * N - 1"
        by arith+
      with 6 True show ?thesis unfolding e3 by simp
    next
      case 7
      with N have "r \<noteq> 5 * N - 1" "\<not> r < N" "\<not> r < 2 * N" "\<not> r < 3 * N" "\<not> r < 4 * N"
        "\<not> r < 5 * N - 1" "\<not> r < N + N" "\<not> r < 2 * N + N" "\<not> r < 3 * N + N" by arith+
      with 7 True show ?thesis unfolding e3 e2 e1 s by simp
    qed
  qed
qed

lemma assemble_rMatrix_plain:
  assumes N: "1 \<le> N" and im: "imax < N"
    and all: "numSats (extractTypeID weight (body gData)) \<noteq> N"
  shows "mget (assemble_rMatrix N gData imax iv tv) r c =
     (if r \<noteq> c then 0
      else if r < 2 * N then 11.111111
      else if r < 4 * N then 111111.11
      else if r < 5 * N - 1 then 1 / iv
      else if r = 5 * N - 1 then 1 / tv else 0)"
proof -
  define R1 where "R1 = fold (\<lambda>i M.
                        mset (mset (mset (mset M i i 11.111111)
                          (i + N) (i + N) 11.111111)
                          (i + 2 * N) (i + 2 * N) 111111.11)
                          (i + 3 * N) (i + 3 * N) 111111.11) [0..<N]
                     (Matrix_fill (count_numMeas N) (count_numMeas N) 0)"
  define R2 where "R2 = fold (\<lambda>i M. if i \<noteq> imax
                      then mset M (skipped imax i + 4 * N) (skipped imax i + 4 * N) (1 / iv)
                      else M) [0..<N] R1"
  have R: "assemble_rMatrix N gData imax iv tv = mset R2 (5 * N - 1) (5 * N - 1) (1 / tv)"
    using all by (simp only: assemble_rMatrix_def Let_def skip_loop_eq R1_def R2_def if_False simp_thms)
  have e1: "mget R1 r c =
     (if r = c then
        (if r < N then 11.111111
         else if N \<le> r \<and> r < N + N then 11.111111
         else if 2 * N \<le> r \<and> r < 2 * N + N then 111111.11
         else if 3 * N \<le> r \<and> r < 3 * N + N then 111111.11
         else 0)
      else 0)"
    unfolding R1_def by (subst diag4) simp_all
  have e2: "mget R2 r c =
     (if r = c \<and> 4 * N \<le> r \<and> r < 4 * N + skipped imax N
      then 1 / iv else mget R1 r c)"
    unfolding R2_def by (subst skip_diag) simp
  have s: "4 * N + skipped imax N = 5 * N - 1" using im by (simp add: skipped_full)
  have e3: "mget (assemble_rMatrix N gData imax iv tv) r c =
      (if r = 5 * N - 1 \<and> c = 5 * N - 1 then 1 / tv else mget R2 r c)"
    unfolding R by simp
  show ?thesis
  proof (cases "r = c")
    case False
    then show ?thesis unfolding e3 e2 e1 by simp
  next
    case True
    consider "r < N" | "N \<le> r \<and> r < 2 * N" | "2 * N \<le> r \<and> r < 3 * N"
      | "3 * N \<le> r \<and> r < 4 * N" | "4 * N \<le> r \<and> r < 5 * N - 1" | "r = 5 * N - 1" | "5 * N - 1 < r"
      by linarith
    then show ?thesis
    proof cases
      case 1
      with N have "r \<noteq> 5 * N - 1" "\<not> 4 * N \<le> r" "r < 2 * N" "r < 3 * N" "r < 4 * N"
        "r < 5 * N - 1" by arith+
      with 1 True show ?thesis unfolding e3 e2 e1 by simp
    next
      case 2
      with N have "r \<noteq> 5 * N - 1" "\<not> 4 * N \<le> r" "\<not> r < N" "r < 3 * N" "r < 4 * N"
        "r < 5 * N - 1" "r < N + N" by arith+
      with 2 True show ?thesis unfolding e3 e2 e1 by simp
    next
      case 3
      with N have "r \<noteq> 5 * N - 1" "\<not> 4 * N \<le> r" "\<not> r < N" "\<not> r < 2 * N" "r < 4 * N"
        "r < 5 * N - 1" "\<not> r < N + N" "r < 2 * N + N" by arith+
      with 3 True show ?thesis unfolding e3 e2 e1 by simp
    next
      case 4
      with N have "r \<noteq> 5 * N - 1" "\<not> 4 * N \<le> r" "\<not> r < N" "\<not> r < 2 * N" "\<not> r < 3 * N"
        "r < 5 * N - 1" "\<not> r < N + N" "\<not> r < 2 * N + N" "r < 3 * N + N" by arith+
      with 4 True show ?thesis unfolding e3 e2 e1 by simp
    next
      case 5
      with N have "r \<noteq> 5 * N - 1" "\<not> r < N" "\<not> r < 2 * N" "\<not> r < 3 * N" "\<not> r < 4 * N"
        by arith+
      with 5 True show ?thesis unfolding e3 e2 s by simp
    next
      case 6
      with N have "\<not> r < N" "\<not> r < 2 * N" "\<not> r < 3 * N" "\<not> r < 4 * N" "\<not> r < 5 * N - 1"
        by arith+
      with 6 True show ?thesis unfolding e3 by simp
    next
      case 7
      with N have "r \<noteq> 5 * N - 1" "\<not> r < N" "\<not> r < 2 * N" "\<not> r < 3 * N" "\<not> r < 4 * N"
        "\<not> r < 5 * N - 1" "\<not> r < N + N" "\<not> r < 2 * N + N" "\<not> r < 3 * N + N" by arith+
      with 7 True show ?thesis unfolding e3 e2 e1 s by simp
    qed
  qed
qed

lemma count_numUnknowns_eq: "count_numUnknowns nVar N = nVar + 3 * N"
  by (simp add: count_numUnknowns_def)

lemma assemble_hMatrix_shape:
  "rows (assemble_hMatrix N nVar srcTypes gData imax) = count_numMeas N"
  "cols (assemble_hMatrix N nVar srcTypes gData imax) = count_numUnknowns nVar N"
  by (simp_all add: assemble_hMatrix_def Let_def skip_loop_eq fold_rows fold_cols)

lemma assemble_hMatrix_constraint:
  assumes N: "1 \<le> N" and im: "imax < N" and len: "length (body gData) = N"
    and r: "4 * N \<le> r" "r < 5 * N - 1"
  shows "mget (assemble_hMatrix N nVar srcTypes gData imax) r c =
     (if c = nVar + imax then - 1 else if c = nVar + sat_of imax (r - 4 * N) then 1 else 0)"
proof -
  define dM where "dM = getMatrixOfTypes srcTypes (body gData)"
  define H0 where "H0 = Matrix_fill (count_numMeas N) (count_numUnknowns nVar N) 0"
  define H1 where "H1 = fold (\<lambda>i H. fold (\<lambda>j H.
                  mset (mset (mset (mset H i j (mget dM i j))
                    (i + N) j (mget dM i j))
                    (i + 2 * N) j (mget dM i j))
                    (i + 3 * N) j (mget dM i j)) [0..<nVar] H) [0..<N] H0"
  define H2 where "H2 = fold (\<lambda>count1 H.
                  mset (mset (mset (mset H count1 (nVar + count1) 1)
                    (count1 + N) (nVar + count1) 1.646944444)
                    (count1 + 2 * N) (nVar + count1) (- 1))
                    (count1 + 3 * N) (nVar + count1) (- 1.646944444))
                 [0..<length (getSatID (body gData))] H1"
  define H3 where "H3 = fold (\<lambda>count1 H.
                  mset (mset H (count1 + 2 * N) (nVar + N + count1) 0.190293672798)
                    (count1 + 3 * N) (nVar + 2 * N + count1) 0.244210213425)
                 [0..<length (getSatID (body gData))] H2"
  define H4 where "H4 = fold (\<lambda>i H. if i \<noteq> imax
                      then mset (mset H (skipped imax i + 4 * N) (nVar + i) 1)
                             (skipped imax i + 4 * N) (nVar + imax) (- 1) else H) [0..<N] H3"
  have H: "assemble_hMatrix N nVar srcTypes gData imax = mset H4 (5 * N - 1) 0 1"
    by (simp only: assemble_hMatrix_def Let_def skip_loop_eq dM_def H0_def H1_def H2_def H3_def H4_def)
  have ls: "length (getSatID (body gData)) = N" using len by (simp add: getSatID_def)
  have f1: "mget H1 r c = mget H0 r c"
    unfolding H1_def
  proof (rule fold_frame)
    fix i M assume i: "i \<in> set [0..<N]"
    show "mget (fold (\<lambda>j H. mset (mset (mset (mset H i j (mget dM i j))
                    (i + N) j (mget dM i j))
                    (i + 2 * N) j (mget dM i j))
                    (i + 3 * N) j (mget dM i j)) [0..<nVar] M) r c = mget M r c"
    proof (rule fold_frame)
      fix j M' assume "j \<in> set [0..<nVar]"
      from i r have "r \<noteq> i" "r \<noteq> i + N" "r \<noteq> i + 2 * N" "r \<noteq> i + 3 * N" by auto
      then show "mget (mset (mset (mset (mset M' i j (mget dM i j))
                    (i + N) j (mget dM i j))
                    (i + 2 * N) j (mget dM i j))
                    (i + 3 * N) j (mget dM i j)) r c = mget M' r c" by simp
    qed
  qed
  have f2: "mget H2 r c = mget H1 r c"
    unfolding H2_def ls
  proof (rule fold_frame)
    fix i M assume i: "i \<in> set [0..<N]"
    from i r have "r \<noteq> i" "r \<noteq> i + N" "r \<noteq> i + 2 * N" "r \<noteq> i + 3 * N" by auto
    then show "mget (mset (mset (mset (mset M i (nVar + i) 1)
                    (i + N) (nVar + i) 1.646944444)
                    (i + 2 * N) (nVar + i) (- 1))
                    (i + 3 * N) (nVar + i) (- 1.646944444)) r c = mget M r c" by simp
  qed
  have f3: "mget H3 r c = mget H2 r c"
    unfolding H3_def ls
  proof (rule fold_frame)
    fix i M assume i: "i \<in> set [0..<N]"
    from i r have "r \<noteq> i + 2 * N" "r \<noteq> i + 3 * N" by auto
    then show "mget (mset (mset M (i + 2 * N) (nVar + N + i) 0.190293672798)
                    (i + 3 * N) (nVar + 2 * N + i) 0.244210213425) r c = mget M r c" by simp
  qed
  have h0: "mget H0 r c = 0" by (simp add: H0_def)
  have s: "4 * N + skipped imax N = 5 * N - 1" using im by (simp add: skipped_full)
  have e4: "mget H4 r c =
     (if 4 * N \<le> r \<and> r < 4 * N + skipped imax N
      then (if c = nVar + imax then - 1 else if c = nVar + sat_of imax (r - 4 * N) then 1
            else mget H3 r c)
      else mget H3 r c)"
    unfolding H4_def by (rule skip_rows)
  from r have ne: "r \<noteq> 5 * N - 1" by simp
  show ?thesis unfolding H using ne r by (simp add: e4 s f3 f2 f1 h0)
qed

text \<open>What feeding the filter leaves alone, and the result of \<^verbatim>\<open>preCompute\<close>.\<close>

lemma copy_core_length:
  "length (fst (fold (\<lambda>i (cs, C). (cs[i := sol ! i], g i C)) xs (cs0, C0))) = length cs0"
  by (induction xs arbitrary: cs0 C0) simp_all

lemma feed_filter_Inr:
  assumes "feed_filter s = (Inr (), s')"
  shows "measVector s' = measVector s \<and> rMatrix s' = rMatrix s \<and> hMatrix s' = hMatrix s \<and>
         phiMatrix s' = phiMatrix s \<and> qMatrix s' = qMatrix s \<and>
         numMeas s' = numMeas s \<and> numVar s' = numVar s \<and> numUnknowns s' = numUnknowns s \<and>
         numCurrentSV s' = numCurrentSV s \<and> srcIndexedTypes s' = srcIndexedTypes s \<and>
         initialIonoVar s' = initialIonoVar s \<and> initialTropVar s' = initialTropVar s \<and>
         length (xhat s') = numUnknowns s"
  using assms
  by (auto simp: feed_filter_def Let_def case_prod_beta Vector_fill_def copy_core_def
        fill_currentState_length copy_core_length split: if_splits)

lemma fill_currentState_length': "length (fst (fill_currentState vs i X)) = length (fst X)"
  using fill_currentState_length[of vs i "fst X" "snd X"] by simp

lemma feed_filter_first:
  "firstTime s \<Longrightarrow> \<exists>s'. feed_filter s = (Inr (), s')"
  by (simp add: feed_filter_def)

lemma PPPUC_preCompute_few:
  "numSats (body gData) < 4 \<Longrightarrow>
   PPPUC_preCompute sto gData s =
     (Inl (SVNumException ''Satellite number is less than 4''),
      s\<lparr>currSatSet := getSatID (body gData),
        varUnknowns := build_varUnknowns (satIndexedTypes s) (getSatID (body gData)),
        numCurrentSV := numSats (body gData)\<rparr>)"
  by (simp add: PPPUC_preCompute_def Let_def)

lemma PPPUC_preCompute_Inr:
  assumes "PPPUC_preCompute sto gData s = (Inr (), s')"
  shows "4 \<le> numSats (body gData) \<and>
     (\<exists>imax. snd (find_imax (numSats (body gData)) (getVectorOfTypeID elevation (body gData)))
               = Some imax \<and>
        measVector s' = assemble_measVector (numSats (body gData)) gData imax \<and>
        rMatrix s' = assemble_rMatrix (numSats (body gData)) gData imax
                       (initialIonoVar s) (initialTropVar s) \<and>
        hMatrix s' = assemble_hMatrix (numSats (body gData)) (length (srcIndexedTypes s))
                       (srcIndexedTypes s) gData imax) \<and>
     numMeas s' = count_numMeas (numSats (body gData)) \<and>
     numVar s' = length (srcIndexedTypes s) \<and>
     numUnknowns s' = count_numUnknowns (length (srcIndexedTypes s)) (numSats (body gData)) \<and>
     numCurrentSV s' = numSats (body gData) \<and>
     length (xhat s') = numUnknowns s'"
proof -
  from assms have N: "4 \<le> numSats (body gData)"
    by (auto simp: PPPUC_preCompute_def Let_def split: if_splits)
  from assms N obtain imax where
    im: "snd (find_imax (numSats (body gData)) (getVectorOfTypeID elevation (body gData))) = Some imax"
    by (auto simp: PPPUC_preCompute_def Let_def split: if_splits option.splits)
  let ?N = "numSats (body gData)"
  let ?s10 = "s\<lparr>currSatSet := getSatID (body gData),
        varUnknowns := build_varUnknowns (satIndexedTypes s) (getSatID (body gData)),
        numCurrentSV := ?N, numMeas := count_numMeas ?N, numVar := length (srcIndexedTypes s),
        numUnknowns := count_numUnknowns (length (srcIndexedTypes s)) ?N,
        measVector := assemble_measVector ?N gData imax,
        rMatrix := assemble_rMatrix ?N gData imax (initialIonoVar s) (initialTropVar s),
        hMatrix := assemble_hMatrix ?N (length (srcIndexedTypes s)) (srcIndexedTypes s) gData imax,
        phiMatrix := fst (assemble_phiQ sto (fixCoordinate s) (length (srcIndexedTypes s)) ?N
                           (getSatID (body gData))),
        qMatrix := snd (assemble_phiQ sto (fixCoordinate s) (length (srcIndexedTypes s)) ?N
                           (getSatID (body gData)))\<rparr>"
  have "PPPUC_preCompute sto gData s = feed_filter ?s10"
    using N im by (simp add: PPPUC_preCompute_def Let_def)
  with assms have "feed_filter ?s10 = (Inr (), s')" by simp
  from feed_filter_Inr[OF this] N im show ?thesis by simp
qed

lemma PPPUC_preCompute_first:
  assumes "firstTime s" "4 \<le> numSats (body gData)"
    and "\<exists>i<numSats (body gData). 0 < getVectorOfTypeID elevation (body gData) ! i"
  shows "\<exists>s'. PPPUC_preCompute sto gData s = (Inr (), s')"
proof -
  from find_imax_Some[OF assms(3)] obtain m where
    "snd (find_imax (numSats (body gData)) (getVectorOfTypeID elevation (body gData))) = Some m"
    by blast
  then show ?thesis using assms(1,2)
    by (simp add: PPPUC_preCompute_def Let_def feed_filter_def)
qed

lemma ex_numSats [simp]: "numSats (body (example_epoch w)) = 5"
  by (simp add: example_epoch_def numSats_def)

lemma ex_elev: "getVectorOfTypeID elevation (body (example_epoch w)) = [30, 60, 45, 10, 20]"
  by (simp add: example_epoch_def getVectorOfTypeID_def example_sat_def lookup0_def)

lemma ex_iono: "getVectorOfTypeID ionoL1 (body (example_epoch w)) = [2, 5, 3, 1, 4]"
  by (simp add: example_epoch_def getVectorOfTypeID_def example_sat_def lookup0_def)

lemma ex_imax:
  "snd (find_imax (numSats (body (example_epoch w)))
          (getVectorOfTypeID elevation (body (example_epoch w)))) = Some 1"
proof -
  have u: "[0..<5] = [0, 1, 2, 3, 4::nat]" by code_simp
  show ?thesis by (simp add: ex_elev find_imax_def u)
qed

lemma ex_first: "firstTime (SolverPPPUC_new u f)"
  by (simp add: SolverPPPUC_new_def setNEU_def Let_def)

lemma ex_src: "srcIndexedTypes (SolverPPPUC_new False False) = [wetMap, dx, dy, dz, cdt]"
  by (simp add: SolverPPPUC_new_def setNEU_def Let_def)

lemma ex_vars:
  "initialTropVar (SolverPPPUC_new u f) = 1000000000"
  "initialIonoVar (SolverPPPUC_new u f) = 1000000000"
  by (simp_all add: SolverPPPUC_new_def setNEU_def Let_def)

lemma ex_pos: "\<exists>i<numSats (body (example_epoch w)).
    0 < getVectorOfTypeID elevation (body (example_epoch w)) ! i"
  by (rule exI[of _ 0]) (simp add: ex_elev)

lemma ex_pre: "\<exists>s'. PPPUC_preCompute example_models (example_epoch w) (SolverPPPUC_new u f) = (Inr (), s')"
  by (rule PPPUC_preCompute_first[OF ex_first _ ex_pos]) simp

text \<open>
  The dimensions of the system. For \<open>N \<ge> 4\<close> tracked satellites the measurement count
  is \<open>4 N + (N - 1) + 1 = 5 N\<close>; whenever \<^verbatim>\<open>preCompute\<close> returns, the prefit vector has
  \<open>5 N\<close> entries, the design matrix \<open>5 N\<close> rows and the weight matrix is \<open>5 N\<close> by
  \<open>5 N\<close>, and the number of unknowns (the columns of the design matrix) is the number of
  source-indexed types plus \<open>3 N\<close>. On the first epoch, with a satellite above the
  horizon, \<^verbatim>\<open>preCompute\<close> does return.
\<close>

lemma PPPUC_dimensions:
  assumes "4 \<le> numSats (body gData)"
  shows "count_numMeas (numSats (body gData))
           = 4 * numSats (body gData) + (numSats (body gData) - 1) + 1 \<and>
         count_numMeas (numSats (body gData)) = 5 * numSats (body gData) \<and>
         (\<forall>s'. PPPUC_preCompute sto gData s = (Inr (), s') \<longrightarrow>
            numMeas s' = 5 * numSats (body gData) \<and>
            length (measVector s') = 5 * numSats (body gData) \<and>
            rows (hMatrix s') = 5 * numSats (body gData) \<and>
            rows (rMatrix s') = 5 * numSats (body gData) \<and>
            cols (rMatrix s') = 5 * numSats (body gData) \<and>
            numVar s' = length (srcIndexedTypes s) \<and>
            numUnknowns s' = length (srcIndexedTypes s) + 3 * numSats (body gData) \<and>
            cols (hMatrix s') = numUnknowns s' \<and>
            length (xhat s') = numUnknowns s') \<and>
         (firstTime s \<and>
          (\<exists>i<numSats (body gData). 0 < getVectorOfTypeID elevation (body gData) ! i) \<longrightarrow>
            (\<exists>s'. PPPUC_preCompute sto gData s = (Inr (), s')))"
proof (intro conjI allI impI)
  let ?N = "numSats (body gData)"
  from assms have N1: "1 \<le> ?N" by simp
  show "count_numMeas ?N = 4 * ?N + (?N - 1) + 1" by (simp add: count_numMeas_def Let_def)
  show c5: "count_numMeas ?N = 5 * ?N" by (rule count_numMeas_eq[OF N1])
  {
    fix s' assume r: "PPPUC_preCompute sto gData s = (Inr (), s')"
    note p = PPPUC_preCompute_Inr[OF r]
    from p obtain imax where
      mv: "measVector s' = assemble_measVector ?N gData imax"
      and rm: "rMatrix s' = assemble_rMatrix ?N gData imax (initialIonoVar s) (initialTropVar s)"
      and hm: "hMatrix s' = assemble_hMatrix ?N (length (srcIndexedTypes s)) (srcIndexedTypes s)
                 gData imax"
      by blast
    show "numMeas s' = 5 * ?N" using p c5 by simp
    show "length (measVector s') = 5 * ?N" using mv N1 by (simp add: assemble_measVector_length)
    show "rows (hMatrix s') = 5 * ?N" using hm c5 by (simp add: assemble_hMatrix_shape)
    show "rows (rMatrix s') = 5 * ?N" using rm c5 by (simp add: assemble_rMatrix_shape)
    show "cols (rMatrix s') = 5 * ?N" using rm c5 by (simp add: assemble_rMatrix_shape)
    show "numVar s' = length (srcIndexedTypes s)" using p by simp
    show "numUnknowns s' = length (srcIndexedTypes s) + 3 * ?N"
      using p by (simp add: count_numUnknowns_eq)
    show "cols (hMatrix s') = numUnknowns s'" using p hm by (simp add: assemble_hMatrix_shape)
    show "length (xhat s') = numUnknowns s'" using p by simp
  }
  assume "firstTime s \<and> (\<exists>i<?N. 0 < getVectorOfTypeID elevation (body gData) ! i)"
  then show "\<exists>s'. PPPUC_preCompute sto gData s = (Inr (), s')"
    using PPPUC_preCompute_first[OF _ assms] by blast
qed

lemma ex_low: "snd (find_imax (numSats (body example_low))
                       (getVectorOfTypeID elevation (body example_low))) = None"
proof (rule find_imax_None)
  have "getVectorOfTypeID elevation (body example_low) = [0, 0, 0, 0]"
    by (simp add: example_low_def getVectorOfTypeID_def example_sat_def lookup0_def)
  moreover have "numSats (body example_low) = 4" by (simp add: example_low_def numSats_def)
  ultimately show "\<not> (\<exists>i<numSats (body example_low).
      0 < getVectorOfTypeID elevation (body example_low) ! i)"
    by (simp add: nth_Cons')
qed

text \<open>
  C6. An epoch of four tracked satellites none of which is above the horizon: the scan for
  the reference satellite assigns nothing to \<^verbatim>\<open>imax\<close>, which is read without a value
  when the constraint rows are filled. The measurement count is \<open>20\<close> and there are
  \<open>5 + 12\<close> unknowns, but the call does not return and neither the weight matrix nor the
  design matrix has been resized: no system of \<open>5 N\<close> rows is assembled.
\<close>

theorem system_dimensions_without_reference:
  "numSats (body example_low) = 4 \<and>
   fst (PPPUC_preCompute example_models example_low (SolverPPPUC_new False False))
     = Inl (UndefinedBehaviour ''preCompute: imax is read without a value'') \<and>
   numMeas (snd (PPPUC_preCompute example_models example_low (SolverPPPUC_new False False))) = 20 \<and>
   numUnknowns (snd (PPPUC_preCompute example_models example_low (SolverPPPUC_new False False)))
     = 17 \<and>
   rows (rMatrix (snd (PPPUC_preCompute example_models example_low
                        (SolverPPPUC_new False False)))) = 0 \<and>
   rows (hMatrix (snd (PPPUC_preCompute example_models example_low
                        (SolverPPPUC_new False False)))) = 0 \<and>
   cols (hMatrix (snd (PPPUC_preCompute example_models example_low
                        (SolverPPPUC_new False False)))) = 0"
proof -
  have N: "numSats (body example_low) = 4" by (simp add: example_low_def numSats_def)
  have m: "rows (rMatrix (SolverPPPUC_new False False)) = 0"
    "rows (hMatrix (SolverPPPUC_new False False)) = 0"
    "cols (hMatrix (SolverPPPUC_new False False)) = 0"
    by (simp_all add: SolverPPPUC_new_def setNEU_def Let_def)
  have il: "snd (find_imax 4 (getVectorOfTypeID elevation (body example_low))) = None"
    using ex_low N by simp
  show ?thesis
    using m by (simp add: PPPUC_preCompute_def Let_def N il ex_src count_numMeas_def
        count_numUnknowns_eq)
qed

text \<open>
  C7. When some satellite has positive elevation and \<^verbatim>\<open>preCompute\<close> returns, the
  reference satellite \<open>imax\<close> has the largest elevation, and every other satellite \<open>i\<close>
  has the constraint row \<open>4 N + skipped imax i\<close> (the rows \<open>4 N\<close> to \<open>5 N - 2\<close>, in the
  order of the satellites): its prefit is the a-priori ionospheric delay of \<open>i\<close> minus
  that of \<open>imax\<close>, its coefficient is \<open>1\<close> in the ionosphere column of \<open>i\<close>, \<open>-1\<close> in
  that of \<open>imax\<close> and \<open>0\<close> in every other column, and no other constraint row has a
  coefficient in the ionosphere column of \<open>i\<close>.
\<close>

theorem ionosphere_constraint_rows:
  assumes "4 \<le> numSats (body gData)"
    and "\<exists>i<numSats (body gData). 0 < getVectorOfTypeID elevation (body gData) ! i"
    and "PPPUC_preCompute sto gData s = (Inr (), s')"
  shows "\<exists>imax<numSats (body gData).
     snd (find_imax (numSats (body gData)) (getVectorOfTypeID elevation (body gData))) = Some imax \<and>
     (\<forall>j<numSats (body gData).
         getVectorOfTypeID elevation (body gData) ! j \<le> getVectorOfTypeID elevation (body gData) ! imax) \<and>
     numVar s' = length (srcIndexedTypes s) \<and>
     numUnknowns s' = numVar s' + 3 * numSats (body gData) \<and>
     (\<forall>i<numSats (body gData). i \<noteq> imax \<longrightarrow>
        4 * numSats (body gData) \<le> 4 * numSats (body gData) + skipped imax i \<and>
        4 * numSats (body gData) + skipped imax i < 5 * numSats (body gData) - 1 \<and>
        measVector s' ! (4 * numSats (body gData) + skipped imax i) =
          getVectorOfTypeID ionoL1 (body gData) ! i - getVectorOfTypeID ionoL1 (body gData) ! imax \<and>
        (\<forall>c<numUnknowns s'.
           mget (hMatrix s') (4 * numSats (body gData) + skipped imax i) c =
             (if c = numVar s' + i then 1 else if c = numVar s' + imax then - 1 else 0)) \<and>
        (\<forall>r. 4 * numSats (body gData) \<le> r \<and> r < 5 * numSats (body gData) - 1 \<and>
             r \<noteq> 4 * numSats (body gData) + skipped imax i \<longrightarrow>
             mget (hMatrix s') r (numVar s' + i) = 0))"
proof -
  let ?N = "numSats (body gData)"
  let ?el = "getVectorOfTypeID elevation (body gData)"
  let ?io = "getVectorOfTypeID ionoL1 (body gData)"
  let ?nv = "length (srcIndexedTypes s)"
  from assms(1) have N1: "1 \<le> ?N" by simp
  note p = PPPUC_preCompute_Inr[OF assms(3)]
  from p obtain imax where im: "snd (find_imax ?N ?el) = Some imax"
      and mv: "measVector s' = assemble_measVector ?N gData imax"
      and hm: "hMatrix s' = assemble_hMatrix ?N ?nv (srcIndexedTypes s) gData imax"
    by blast
  from find_imax_bound[OF im] have imN: "imax < ?N" and mx: "\<forall>j<?N. ?el ! j \<le> ?el ! imax"
    by simp_all
  have nv: "numVar s' = ?nv" "numUnknowns s' = numVar s' + 3 * ?N"
    using p by (simp_all add: count_numUnknowns_eq)
  have len: "length (body gData) = ?N" by (simp add: numSats_def)
  have rowp: "4 * ?N \<le> 4 * ?N + skipped imax i \<and> 4 * ?N + skipped imax i < 5 * ?N - 1 \<and>
        measVector s' ! (4 * ?N + skipped imax i) = ?io ! i - ?io ! imax \<and>
        (\<forall>c<numUnknowns s'.
           mget (hMatrix s') (4 * ?N + skipped imax i) c =
             (if c = numVar s' + i then 1 else if c = numVar s' + imax then - 1 else 0)) \<and>
        (\<forall>r. 4 * ?N \<le> r \<and> r < 5 * ?N - 1 \<and> r \<noteq> 4 * ?N + skipped imax i \<longrightarrow>
             mget (hMatrix s') r (numVar s' + i) = 0)"
    if i: "i < ?N" "i \<noteq> imax" for i
  proof -
    have sk: "skipped imax i < ?N - 1" using imN i by (auto simp: skipped_def)
    then have lt: "4 * ?N + skipped imax i < 5 * ?N - 1" by arith
    have m: "measVector s' ! (4 * ?N + skipped imax i) = ?io ! i - ?io ! imax"
      unfolding mv by (rule assemble_measVector_constraint[OF N1 imN i])
    have h: "mget (hMatrix s') (4 * ?N + skipped imax i) c =
             (if c = numVar s' + i then 1 else if c = numVar s' + imax then - 1 else 0)" for c
      unfolding hm nv(1)
      using assemble_hMatrix_constraint[OF N1 imN len _ lt, of ?nv "srcIndexedTypes s" c] i
      by (simp add: sat_of_skipped)
    have o: "mget (hMatrix s') r (numVar s' + i) = 0"
      if r: "4 * ?N \<le> r" "r < 5 * ?N - 1" "r \<noteq> 4 * ?N + skipped imax i" for r
    proof -
      have "sat_of imax (r - 4 * ?N) \<noteq> i"
      proof
        assume e: "sat_of imax (r - 4 * ?N) = i"
        have "skipped imax (sat_of imax (r - 4 * ?N)) = r - 4 * ?N" by (rule skipped_sat_of)
        with e have "skipped imax i = r - 4 * ?N" by simp
        with r show False by simp
      qed
      then show ?thesis
        unfolding hm nv(1)
        using assemble_hMatrix_constraint[OF N1 imN len r(1,2), of ?nv "srcIndexedTypes s" "?nv + i"] i
        by simp
    qed
    show ?thesis using lt m h o by simp
  qed
  show ?thesis
    apply (rule exI[of _ imax])
    using imN im mx nv rowp by simp
qed

theorem ionosphere_constraint_rows_witness:
  "4 \<le> numSats (body (example_epoch (Some 2))) \<and>
   (\<exists>s'. PPPUC_preCompute example_models (example_epoch (Some 2)) (SolverPPPUC_new False False)
           = (Inr (), s') \<and>
      measVector s' ! 20 = - 3 \<and> mget (hMatrix s') 20 5 = 1 \<and> mget (hMatrix s') 20 6 = - 1 \<and>
      mget (hMatrix s') 20 7 = 0 \<and> mget (hMatrix s') 21 5 = 0 \<and>
      measVector s' ! 21 = - 2 \<and> mget (hMatrix s') 21 7 = 1)"
proof -
  let ?g = "example_epoch (Some 2)"
  let ?s = "SolverPPPUC_new False False"
  have N: "4 \<le> numSats (body ?g)" by simp
  from ex_pre obtain s' where
    r: "PPPUC_preCompute example_models ?g ?s = (Inr (), s')" by blast
  from ionosphere_constraint_rows[OF N ex_pos r] ex_imax[of "Some 2"]
  have nv: "numVar s' = length (srcIndexedTypes ?s)"
       "numUnknowns s' = numVar s' + 3 * numSats (body ?g)"
    and rows: "\<forall>i<numSats (body ?g). i \<noteq> 1 \<longrightarrow>
        measVector s' ! (4 * numSats (body ?g) + skipped 1 i) =
          getVectorOfTypeID ionoL1 (body ?g) ! i - getVectorOfTypeID ionoL1 (body ?g) ! 1 \<and>
        (\<forall>c<numUnknowns s'.
           mget (hMatrix s') (4 * numSats (body ?g) + skipped 1 i) c =
             (if c = numVar s' + i then 1 else if c = numVar s' + 1 then - 1 else 0)) \<and>
        (\<forall>r. 4 * numSats (body ?g) \<le> r \<and> r < 5 * numSats (body ?g) - 1 \<and>
             r \<noteq> 4 * numSats (body ?g) + skipped 1 i \<longrightarrow>
             mget (hMatrix s') r (numVar s' + i) = 0)"
    by auto
  have nv5: "numVar s' = 5" "numUnknowns s' = 20" using nv by (simp_all add: ex_src)
  from rows[rule_format, of 0] have
    a: "measVector s' ! 20 = - 3"
       "\<forall>c<20. mget (hMatrix s') 20 c = (if c = 5 then 1 else if c = 6 then - 1 else 0)"
       "\<forall>r. 20 \<le> r \<and> r < 24 \<and> r \<noteq> 20 \<longrightarrow> mget (hMatrix s') r 5 = 0"
    by (simp_all add: nv5 ex_iono skipped_def)
  from rows[rule_format, of 2] have
    b: "measVector s' ! 21 = - 2"
       "\<forall>c<20. mget (hMatrix s') 21 c = (if c = 7 then 1 else if c = 6 then - 1 else 0)"
    by (simp_all add: nv5 ex_iono skipped_def)
  from a(2) have "mget (hMatrix s') 20 5 = 1" "mget (hMatrix s') 20 6 = - 1" "mget (hMatrix s') 20 7 = 0"
    by simp_all
  moreover from a(3) have "mget (hMatrix s') 21 5 = 0" by simp
  moreover from b(2) have "mget (hMatrix s') 21 7 = 1" by simp
  ultimately show ?thesis using N r a(1) b(1) by blast
qed

section \<open>Too few satellites, and the weight matrix of SolverPPPUC\<close>

text \<open>
  C8. When fewer than four satellites are tracked, \<^verbatim>\<open>Process\<close> ends with the
  \<^verbatim>\<open>SVNumException\<close> raised by \<^verbatim>\<open>preCompute\<close>, whatever the matrix inversion would have
  done: only the satellite set, the set of unknowns and the satellite count have been written,
  and the state vector, the covariance matrix, the a-priori copies, the solution and the stored
  maps are the ones from before the call.
\<close>

theorem Process_few_satellites:
  assumes "numSats (body gData) < 4"
  shows "\<exists>s'. PPPUC_Process inverseChol sto gData s
               = (Inl (SVNumException ''Satellite number is less than 4''), s') \<and>
           s' = s\<lparr>currSatSet := getSatID (body gData),
                  varUnknowns := build_varUnknowns (satIndexedTypes s) (getSatID (body gData)),
                  numCurrentSV := numSats (body gData)\<rparr> \<and>
           xhat s' = xhat s \<and> P s' = P s \<and> xhatminus s' = xhatminus s \<and> Pminus s' = Pminus s \<and>
           solution s' = solution s \<and> covMatrix s' = covMatrix s \<and>
           stateMapUC s' = stateMapUC s \<and> covarianceMapUC s' = covarianceMapUC s \<and>
           firstTime s' = firstTime s \<and> valid s' = valid s"
  using PPPUC_preCompute_few[OF assms, of sto s]
  by (simp add: PPPUC_Process_def rethrowUC_def)

theorem Process_few_satellites_witness:
  "numSats (body example_epoch3) < 4 \<and>
   (\<exists>s'. PPPUC_Process inverseDiag example_models example_epoch3 (SolverPPPUC_new False False)
               = (Inl (SVNumException ''Satellite number is less than 4''), s') \<and>
      xhat s' = xhat (SolverPPPUC_new False False) \<and> P s' = P (SolverPPPUC_new False False) \<and>
      firstTime s')"
proof -
  have n: "numSats (body example_epoch3) < 4"
    by (simp add: example_epoch3_def example_epoch_def numSats_def)
  from Process_few_satellites[OF n, of inverseDiag example_models "SolverPPPUC_new False False"]
    ex_first[of False False] n
  show ?thesis by auto
qed

lemma weight_vec:
  "i < length b \<Longrightarrow> getVectorOfTypeID weight b ! i = lookup0 (snd (b ! i)) weight"
  by (simp add: getVectorOfTypeID_def)

text \<open>
  C9. Whenever \<^verbatim>\<open>preCompute\<close> returns, the weight matrix is \<open>5 N\<close> by \<open>5 N\<close> and diagonal.
  With \<open>w\<^sub>i\<close> the weight of satellite \<open>i\<close> when every satellite carries one and \<open>1\<close>
  otherwise, the two code rows of satellite \<open>i\<close> weigh \<open>11.111111 w\<^sub>i\<close>, its two phase rows
  \<open>111111.11 w\<^sub>i\<close>, and the ionospheric constraint row of a satellite \<open>i\<close> other than the
  reference weighs \<open>w\<^sub>i / initialIonoVar\<close>: it is scaled by the satellite's weight as well.
  The tropospheric constraint row weighs \<open>1 / initialTropVar\<close>, and both variances are
  \<open>10\<^sup>9\<close> in a newly constructed solver.
\<close>

theorem weight_matrix_entries:
  assumes "PPPUC_preCompute sto gData s = (Inr (), s')"
  shows "\<exists>imax<numSats (body gData).
     snd (find_imax (numSats (body gData)) (getVectorOfTypeID elevation (body gData))) = Some imax \<and>
     rows (rMatrix s') = 5 * numSats (body gData) \<and>
     cols (rMatrix s') = 5 * numSats (body gData) \<and>
     (\<forall>r c. r \<noteq> c \<longrightarrow> mget (rMatrix s') r c = 0) \<and>
     (\<forall>i<numSats (body gData).
        mget (rMatrix s') i i
          = 11.111111 * (if \<forall>stv\<in>set (body gData). snd stv weight \<noteq> None
                          then lookup0 (snd (body gData ! i)) weight else 1) \<and>
        mget (rMatrix s') (i + numSats (body gData)) (i + numSats (body gData))
          = 11.111111 * (if \<forall>stv\<in>set (body gData). snd stv weight \<noteq> None
                          then lookup0 (snd (body gData ! i)) weight else 1) \<and>
        mget (rMatrix s') (i + 2 * numSats (body gData)) (i + 2 * numSats (body gData))
          = 111111.11 * (if \<forall>stv\<in>set (body gData). snd stv weight \<noteq> None
                          then lookup0 (snd (body gData ! i)) weight else 1) \<and>
        mget (rMatrix s') (i + 3 * numSats (body gData)) (i + 3 * numSats (body gData))
          = 111111.11 * (if \<forall>stv\<in>set (body gData). snd stv weight \<noteq> None
                          then lookup0 (snd (body gData ! i)) weight else 1) \<and>
        (i \<noteq> imax \<longrightarrow>
           mget (rMatrix s') (4 * numSats (body gData) + skipped imax i)
                             (4 * numSats (body gData) + skipped imax i)
             = 1 / initialIonoVar s * (if \<forall>stv\<in>set (body gData). snd stv weight \<noteq> None
                          then lookup0 (snd (body gData ! i)) weight else 1))) \<and>
     mget (rMatrix s') (5 * numSats (body gData) - 1) (5 * numSats (body gData) - 1)
       = 1 / initialTropVar s \<and>
     initialTropVar (SolverPPPUC_new useNEU fixPos) = 1000000000 \<and>
     initialIonoVar (SolverPPPUC_new useNEU fixPos) = 1000000000"
proof -
  let ?N = "numSats (body gData)"
  let ?all = "\<forall>stv\<in>set (body gData). snd stv weight \<noteq> None"
  define w where "w = (\<lambda>i. if ?all then lookup0 (snd (body gData ! i)) weight else (1::real))"
  note p = PPPUC_preCompute_Inr[OF assms]
  from p have N4: "4 \<le> ?N" by simp
  then have N1: "1 \<le> ?N" by simp
  from p obtain imax where
    im: "snd (find_imax ?N (getVectorOfTypeID elevation (body gData))) = Some imax"
    and rm: "rMatrix s' = assemble_rMatrix ?N gData imax (initialIonoVar s) (initialTropVar s)"
    by blast
  from find_imax_bound[OF im] have imN: "imax < ?N" by simp
  have len: "length (body gData) = ?N" by (simp add: numSats_def)
  have allN: "numSats (extractTypeID weight (body gData)) = ?N \<longleftrightarrow> ?all"
    using all_weights[of "body gData"] len by simp
  have c5: "count_numMeas ?N = 5 * ?N" by (rule count_numMeas_eq[OF N1])
  have ent: "mget (rMatrix s') r c =
     (if r \<noteq> c then 0
      else if r < ?N then 11.111111 * w r
      else if r < 2 * ?N then 11.111111 * w (r - ?N)
      else if r < 3 * ?N then 111111.11 * w (r - 2 * ?N)
      else if r < 4 * ?N then 111111.11 * w (r - 3 * ?N)
      else if r < 5 * ?N - 1 then 1 / initialIonoVar s * w (sat_of imax (r - 4 * ?N))
      else if r = 5 * ?N - 1 then 1 / initialTropVar s else 0)" for r c
  proof (cases ?all)
    case True
    then have a: "numSats (extractTypeID weight (body gData)) = ?N" using allN by simp
    have wv: "getVectorOfTypeID weight (body gData) ! k = lookup0 (snd (body gData ! k)) weight"
      if "k < ?N" for k using that len by (simp add: weight_vec)
    have s5: "sat_of imax (r - 4 * ?N) < ?N" if "4 * ?N \<le> r" "r < 5 * ?N - 1"
      using that imN by (auto simp: sat_of_def)
    show ?thesis
      unfolding rm assemble_rMatrix_scaled[OF N1 imN a] w_def
      using True wv s5 by (auto simp: not_less)
  next
    case False
    then have a: "numSats (extractTypeID weight (body gData)) \<noteq> ?N" using allN by simp
    show ?thesis
      unfolding rm assemble_rMatrix_plain[OF N1 imN a] w_def
      using False by auto
  qed
  have diag: "\<forall>r c. r \<noteq> c \<longrightarrow> mget (rMatrix s') r c = 0" by (simp add: ent)
  have rows: "mget (rMatrix s') i i = 11.111111 * w i \<and>
        mget (rMatrix s') (i + ?N) (i + ?N) = 11.111111 * w i \<and>
        mget (rMatrix s') (i + 2 * ?N) (i + 2 * ?N) = 111111.11 * w i \<and>
        mget (rMatrix s') (i + 3 * ?N) (i + 3 * ?N) = 111111.11 * w i \<and>
        (i \<noteq> imax \<longrightarrow>
           mget (rMatrix s') (4 * ?N + skipped imax i) (4 * ?N + skipped imax i)
             = 1 / initialIonoVar s * w i)" if i: "i < ?N" for i
  proof -
    have "mget (rMatrix s') i i = 11.111111 * w i" using i by (simp add: ent)
    moreover have "mget (rMatrix s') (i + ?N) (i + ?N) = 11.111111 * w i"
      using i by (simp add: ent)
    moreover have "mget (rMatrix s') (i + 2 * ?N) (i + 2 * ?N) = 111111.11 * w i"
      using i by (simp add: ent)
    moreover have "mget (rMatrix s') (i + 3 * ?N) (i + 3 * ?N) = 111111.11 * w i"
      using i by (simp add: ent)
    moreover have "mget (rMatrix s') (4 * ?N + skipped imax i) (4 * ?N + skipped imax i)
             = 1 / initialIonoVar s * w i" if ne: "i \<noteq> imax"
    proof -
      have "skipped imax i < ?N - 1" using imN i ne by (auto simp: skipped_def)
      then have "4 * ?N + skipped imax i < 5 * ?N - 1" by arith
      then show ?thesis using ne by (simp add: ent sat_of_skipped)
    qed
    ultimately show ?thesis by blast
  qed
  have trop: "mget (rMatrix s') (5 * ?N - 1) (5 * ?N - 1) = 1 / initialTropVar s"
  proof -
    have "\<not> 5 * ?N - 1 < ?N" "\<not> 5 * ?N - 1 < 2 * ?N" "\<not> 5 * ?N - 1 < 3 * ?N"
      "\<not> 5 * ?N - 1 < 4 * ?N" using N1 by arith+
    then show ?thesis unfolding ent by simp
  qed
  have sh: "rows (rMatrix s') = 5 * ?N" "cols (rMatrix s') = 5 * ?N"
    using rm c5 by (simp_all add: assemble_rMatrix_shape)
  show ?thesis
    apply (rule exI[of _ imax])
    using imN im sh diag rows trop ex_vars[of useNEU fixPos] unfolding w_def by simp
qed

lemma ex_weight0: "lookup0 (snd (body (example_epoch w) ! 0)) weight = 2"
  by (simp add: example_epoch_def example_sat_def lookup0_def)

lemma ex_all: "(\<forall>stv\<in>set (body (example_epoch w)). snd stv weight \<noteq> None) \<longleftrightarrow> w \<noteq> None"
  by (simp add: example_epoch_def example_sat_def)

theorem weight_matrix_entries_witness:
  "\<exists>s'. PPPUC_preCompute example_models (example_epoch (Some 2)) (SolverPPPUC_new False False)
           = (Inr (), s') \<and>
      rows (rMatrix s') = 25 \<and> cols (rMatrix s') = 25 \<and> mget (rMatrix s') 0 1 = 0 \<and>
      mget (rMatrix s') 0 0 = 11.111111 * 2 \<and> mget (rMatrix s') 5 5 = 11.111111 * 2 \<and>
      mget (rMatrix s') 10 10 = 111111.11 * 2 \<and> mget (rMatrix s') 15 15 = 111111.11 * 2 \<and>
      mget (rMatrix s') 20 20 = 1 / 1000000000 * 2 \<and>
      mget (rMatrix s') 24 24 = 1 / 1000000000"
proof -
  let ?g = "example_epoch (Some 2)"
  let ?s = "SolverPPPUC_new False False"
  from ex_pre obtain s' where
    r: "PPPUC_preCompute example_models ?g ?s = (Inr (), s')" by blast
  from weight_matrix_entries[OF r, of False False] ex_imax[of "Some 2"]
  have sh: "rows (rMatrix s') = 5 * numSats (body ?g)" "cols (rMatrix s') = 5 * numSats (body ?g)"
    and off: "\<forall>r c. r \<noteq> c \<longrightarrow> mget (rMatrix s') r c = 0"
    and rws: "\<forall>i<numSats (body ?g).
        mget (rMatrix s') i i
          = 11.111111 * (if \<forall>stv\<in>set (body ?g). snd stv weight \<noteq> None
                          then lookup0 (snd (body ?g ! i)) weight else 1) \<and>
        mget (rMatrix s') (i + numSats (body ?g)) (i + numSats (body ?g))
          = 11.111111 * (if \<forall>stv\<in>set (body ?g). snd stv weight \<noteq> None
                          then lookup0 (snd (body ?g ! i)) weight else 1) \<and>
        mget (rMatrix s') (i + 2 * numSats (body ?g)) (i + 2 * numSats (body ?g))
          = 111111.11 * (if \<forall>stv\<in>set (body ?g). snd stv weight \<noteq> None
                          then lookup0 (snd (body ?g ! i)) weight else 1) \<and>
        mget (rMatrix s') (i + 3 * numSats (body ?g)) (i + 3 * numSats (body ?g))
          = 111111.11 * (if \<forall>stv\<in>set (body ?g). snd stv weight \<noteq> None
                          then lookup0 (snd (body ?g ! i)) weight else 1) \<and>
        (i \<noteq> 1 \<longrightarrow>
           mget (rMatrix s') (4 * numSats (body ?g) + skipped 1 i)
                             (4 * numSats (body ?g) + skipped 1 i)
             = 1 / initialIonoVar ?s * (if \<forall>stv\<in>set (body ?g). snd stv weight \<noteq> None
                          then lookup0 (snd (body ?g ! i)) weight else 1))"
    and tr: "mget (rMatrix s') (5 * numSats (body ?g) - 1) (5 * numSats (body ?g) - 1)
       = 1 / initialTropVar ?s"
    by auto
  from rws[rule_format, of 0]
  have r0: "mget (rMatrix s') 0 0 = 11.111111 * 2" "mget (rMatrix s') 5 5 = 11.111111 * 2"
    "mget (rMatrix s') 10 10 = 111111.11 * 2" "mget (rMatrix s') 15 15 = 111111.11 * 2"
    "mget (rMatrix s') 20 20 = 1 / 1000000000 * 2"
    unfolding ex_all ex_weight0 by (simp_all add: ex_vars skipped_def)
  from off have o: "mget (rMatrix s') 0 1 = 0" by simp
  from tr have t: "mget (rMatrix s') 24 24 = 1 / 1000000000" by (simp add: ex_vars)
  from sh have sh': "rows (rMatrix s') = 25" "cols (rMatrix s') = 25" by simp_all
  show ?thesis using r sh' o r0 t by blast
qed

theorem ionosphere_weight_counterexample:
  "fst (PPPUC_preCompute example_models (example_epoch (Some 2)) (SolverPPPUC_new False False))
     = Inr () \<and>
   initialIonoVar (SolverPPPUC_new False False) = 1000000000 \<and>
   mget (rMatrix (snd (PPPUC_preCompute example_models (example_epoch (Some 2))
                          (SolverPPPUC_new False False)))) 20 20 = 2 / 1000000000"
proof -
  let ?g = "example_epoch (Some 2)"
  let ?s = "SolverPPPUC_new False False"
  from ex_pre obtain s' where
    r: "PPPUC_preCompute example_models ?g ?s = (Inr (), s')" by blast
  from PPPUC_preCompute_Inr[OF r] ex_imax[of "Some 2"]
  have rm: "rMatrix s' = assemble_rMatrix (numSats (body ?g)) ?g 1
                            (initialIonoVar ?s) (initialTropVar ?s)"
    by auto
  have len: "length (body ?g) = 5" by (simp add: example_epoch_def)
  have a: "numSats (extractTypeID weight (body ?g)) = numSats (body ?g)"
    using all_weights[of "body ?g"] ex_all[of "Some 2"] len by simp
  have N1: "1 \<le> numSats (body ?g)" and i1: "1 < numSats (body ?g)" by simp_all
  have w0: "getVectorOfTypeID weight (body ?g) ! 0 = 2"
    using weight_vec[of 0 "body ?g"] len ex_weight0[of "Some 2"] by simp
  have "mget (rMatrix s') 20 20 = 2 / 1000000000"
    unfolding rm assemble_rMatrix_scaled[OF N1 i1 a]
    by (simp add: sat_of_def w0 ex_vars)
  then show ?thesis using r by (simp add: ex_vars)
qed

text \<open>
  C10. Whenever \<^verbatim>\<open>preCompute\<close> returns: if some tracked satellite carries no weight, every
  entry of the weight matrix is the unscaled default (\<open>11.111111\<close> on the code rows,
  \<open>111111.11\<close> on the phase rows, \<open>1 / initialIonoVar\<close> on the ionospheric constraint rows,
  \<open>1 / initialTropVar\<close> on the tropospheric row, zero elsewhere), so the weights that were
  supplied are ignored; if every tracked satellite carries one, the code and phase rows are
  scaled by it.
\<close>

theorem partial_weights_ignored:
  assumes "PPPUC_preCompute sto gData s = (Inr (), s')"
  shows "((\<exists>stv\<in>set (body gData). snd stv weight = None) \<longrightarrow>
            (\<forall>r c. mget (rMatrix s') r c =
               (if r \<noteq> c then 0
                else if r < 2 * numSats (body gData) then 11.111111
                else if r < 4 * numSats (body gData) then 111111.11
                else if r < 5 * numSats (body gData) - 1 then 1 / initialIonoVar s
                else if r = 5 * numSats (body gData) - 1 then 1 / initialTropVar s
                else 0))) \<and>
         ((\<forall>stv\<in>set (body gData). snd stv weight \<noteq> None) \<longrightarrow>
            (\<forall>i<numSats (body gData).
               mget (rMatrix s') i i = 11.111111 * lookup0 (snd (body gData ! i)) weight \<and>
               mget (rMatrix s') (i + numSats (body gData)) (i + numSats (body gData))
                 = 11.111111 * lookup0 (snd (body gData ! i)) weight \<and>
               mget (rMatrix s') (i + 2 * numSats (body gData)) (i + 2 * numSats (body gData))
                 = 111111.11 * lookup0 (snd (body gData ! i)) weight \<and>
               mget (rMatrix s') (i + 3 * numSats (body gData)) (i + 3 * numSats (body gData))
                 = 111111.11 * lookup0 (snd (body gData ! i)) weight))"
proof -
  let ?N = "numSats (body gData)"
  let ?all = "\<forall>stv\<in>set (body gData). snd stv weight \<noteq> None"
  note p = PPPUC_preCompute_Inr[OF assms]
  from p have N4: "4 \<le> ?N" by simp
  then have N1: "1 \<le> ?N" by simp
  from p obtain imax where
    im: "snd (find_imax ?N (getVectorOfTypeID elevation (body gData))) = Some imax"
    and rm: "rMatrix s' = assemble_rMatrix ?N gData imax (initialIonoVar s) (initialTropVar s)"
    by blast
  from find_imax_bound[OF im] have imN: "imax < ?N" by simp
  have len: "length (body gData) = ?N" by (simp add: numSats_def)
  have allN: "numSats (extractTypeID weight (body gData)) = ?N \<longleftrightarrow> ?all"
    using all_weights[of "body gData"] len by simp
  have plain: "mget (rMatrix s') r c =
               (if r \<noteq> c then 0
                else if r < 2 * ?N then 11.111111
                else if r < 4 * ?N then 111111.11
                else if r < 5 * ?N - 1 then 1 / initialIonoVar s
                else if r = 5 * ?N - 1 then 1 / initialTropVar s
                else 0)" if "\<not> ?all" for r c
  proof -
    from that have a: "numSats (extractTypeID weight (body gData)) \<noteq> ?N" using allN by simp
    show ?thesis unfolding rm by (rule assemble_rMatrix_plain[OF N1 imN a])
  qed
  have scaled: "mget (rMatrix s') i i = 11.111111 * lookup0 (snd (body gData ! i)) weight \<and>
               mget (rMatrix s') (i + ?N) (i + ?N)
                 = 11.111111 * lookup0 (snd (body gData ! i)) weight \<and>
               mget (rMatrix s') (i + 2 * ?N) (i + 2 * ?N)
                 = 111111.11 * lookup0 (snd (body gData ! i)) weight \<and>
               mget (rMatrix s') (i + 3 * ?N) (i + 3 * ?N)
                 = 111111.11 * lookup0 (snd (body gData ! i)) weight"
    if al: ?all and i: "i < ?N" for i
  proof -
    from al have a: "numSats (extractTypeID weight (body gData)) = ?N" using allN by simp
    have wv: "getVectorOfTypeID weight (body gData) ! i = lookup0 (snd (body gData ! i)) weight"
      using i len by (simp add: weight_vec)
    show ?thesis
      unfolding rm assemble_rMatrix_scaled[OF N1 imN a]
      using i by (simp add: wv)
  qed
  have A: "(\<exists>stv\<in>set (body gData). snd stv weight = None) \<longrightarrow>
            (\<forall>r c. mget (rMatrix s') r c =
               (if r \<noteq> c then 0
                else if r < 2 * ?N then 11.111111
                else if r < 4 * ?N then 111111.11
                else if r < 5 * ?N - 1 then 1 / initialIonoVar s
                else if r = 5 * ?N - 1 then 1 / initialTropVar s
                else 0))"
  proof (intro impI allI)
    fix r c
    assume "\<exists>stv\<in>set (body gData). snd stv weight = None"
    then have "\<not> ?all" by blast
    then show "mget (rMatrix s') r c =
               (if r \<noteq> c then 0
                else if r < 2 * ?N then 11.111111
                else if r < 4 * ?N then 111111.11
                else if r < 5 * ?N - 1 then 1 / initialIonoVar s
                else if r = 5 * ?N - 1 then 1 / initialTropVar s
                else 0)" by (rule plain)
  qed
  from scaled have B: "?all \<longrightarrow>
            (\<forall>i<?N.
               mget (rMatrix s') i i = 11.111111 * lookup0 (snd (body gData ! i)) weight \<and>
               mget (rMatrix s') (i + ?N) (i + ?N)
                 = 11.111111 * lookup0 (snd (body gData ! i)) weight \<and>
               mget (rMatrix s') (i + 2 * ?N) (i + 2 * ?N)
                 = 111111.11 * lookup0 (snd (body gData ! i)) weight \<and>
               mget (rMatrix s') (i + 3 * ?N) (i + 3 * ?N)
                 = 111111.11 * lookup0 (snd (body gData ! i)) weight)"
    by blast
  from A B show ?thesis by (rule conjI)
qed

theorem partial_weights_ignored_witness:
  "(\<exists>s'. PPPUC_preCompute example_models (example_epoch None) (SolverPPPUC_new False False)
           = (Inr (), s') \<and>
      lookup0 (snd (body (example_epoch None) ! 0)) weight = 2 \<and>
      mget (rMatrix s') 0 0 = 11.111111 \<and> mget (rMatrix s') 5 5 = 11.111111 \<and>
      mget (rMatrix s') 10 10 = 111111.11 \<and> mget (rMatrix s') 15 15 = 111111.11 \<and>
      mget (rMatrix s') 20 20 = 1 / 1000000000 \<and> mget (rMatrix s') 24 24 = 1 / 1000000000 \<and>
      mget (rMatrix s') 0 1 = 0) \<and>
   (\<exists>s'. PPPUC_preCompute example_models (example_epoch (Some 3)) (SolverPPPUC_new False False)
           = (Inr (), s') \<and>
      mget (rMatrix s') 0 0 = 11.111111 * 2 \<and> mget (rMatrix s') 10 10 = 111111.11 * 2)"
proof -
  let ?s = "SolverPPPUC_new False False"
  from ex_pre obtain s1 where
    r1: "PPPUC_preCompute example_models (example_epoch None) ?s = (Inr (), s1)" by blast
  from ex_pre obtain s2 where
    r2: "PPPUC_preCompute example_models (example_epoch (Some 3)) ?s = (Inr (), s2)" by blast
  have m: "\<exists>stv\<in>set (body (example_epoch None)). snd stv weight = None"
    using ex_all[of None] by simp
  have al: "\<forall>stv\<in>set (body (example_epoch (Some 3))). snd stv weight \<noteq> None"
    using ex_all[of "Some 3"] by simp
  from partial_weights_ignored[OF r1] m
  have e: "\<And>r c. mget (rMatrix s1) r c =
               (if r \<noteq> c then 0
                else if r < 2 * numSats (body (example_epoch None)) then 11.111111
                else if r < 4 * numSats (body (example_epoch None)) then 111111.11
                else if r < 5 * numSats (body (example_epoch None)) - 1 then 1 / initialIonoVar ?s
                else if r = 5 * numSats (body (example_epoch None)) - 1 then 1 / initialTropVar ?s
                else 0)" by blast
  have p1: "mget (rMatrix s1) 0 0 = 11.111111" "mget (rMatrix s1) 5 5 = 11.111111"
      "mget (rMatrix s1) 10 10 = 111111.11" "mget (rMatrix s1) 15 15 = 111111.11"
      "mget (rMatrix s1) 20 20 = 1 / 1000000000" "mget (rMatrix s1) 24 24 = 1 / 1000000000"
      "mget (rMatrix s1) 0 1 = 0"
    by (simp_all add: e ex_vars)
  from partial_weights_ignored[OF r2] al
  have "\<forall>i<numSats (body (example_epoch (Some 3))).
               mget (rMatrix s2) i i
                 = 11.111111 * lookup0 (snd (body (example_epoch (Some 3)) ! i)) weight \<and>
               mget (rMatrix s2) (i + numSats (body (example_epoch (Some 3))))
                                 (i + numSats (body (example_epoch (Some 3))))
                 = 11.111111 * lookup0 (snd (body (example_epoch (Some 3)) ! i)) weight \<and>
               mget (rMatrix s2) (i + 2 * numSats (body (example_epoch (Some 3))))
                                 (i + 2 * numSats (body (example_epoch (Some 3))))
                 = 111111.11 * lookup0 (snd (body (example_epoch (Some 3)) ! i)) weight \<and>
               mget (rMatrix s2) (i + 3 * numSats (body (example_epoch (Some 3))))
                                 (i + 3 * numSats (body (example_epoch (Some 3))))
                 = 111111.11 * lookup0 (snd (body (example_epoch (Some 3)) ! i)) weight"
    by blast
  from this[rule_format, of 0]
  have p2: "mget (rMatrix s2) 0 0 = 11.111111 * 2" "mget (rMatrix s2) 10 10 = 111111.11 * 2"
    by (simp_all add: ex_weight0)
  show ?thesis using r1 r2 p1 p2 ex_weight0[of None] by blast
qed

section \<open>Snapshot and carry-forward of SolverPPPUC\<close>

text \<open>Reading the covariance map after writing it.\<close>

lemma sat_put_props [simp]:
  "lookupSat (sat_put cm k1 k2 v) a b = (if a = k1 \<and> b = k2 then v else lookupSat cm a b)"
  "lookupSrc (sat_put cm k1 k2 v) a ty = lookupSrc cm a ty"
  "sat_put cm k1 k2 v k = None \<longleftrightarrow> k \<noteq> k1 \<and> cm k = None"
  by (simp_all add: sat_put_def lookupSat_def lookupSrc_def varCov_at_def lookup0_def Let_def
        split: option.splits)

lemma src_put_props [simp]:
  "lookupSat (src_put cm k1 ty v) a b = lookupSat cm a b"
  "lookupSrc (src_put cm k1 ty v) a u = (if a = k1 \<and> u = ty then v else lookupSrc cm a u)"
  "src_put cm k1 ty v k = None \<longleftrightarrow> k \<noteq> k1 \<and> cm k = None"
  by (simp_all add: src_put_def lookupSat_def lookupSrc_def varCov_at_def lookup0_def Let_def
        split: option.splits)

lemma sat_at_props [simp]:
  "fst (sat_at cm k1 k2) = lookupSat cm k1 k2"
  "lookupSat (snd (sat_at cm k1 k2)) a b = lookupSat cm a b"
  "lookupSrc (snd (sat_at cm k1 k2)) a ty = lookupSrc cm a ty"
  "snd (sat_at cm k1 k2) k = None \<longleftrightarrow> k \<noteq> k1 \<and> cm k = None"
  by (simp_all add: sat_at_def lookupSat_def lookupSrc_def varCov_at_def lookup0_def Let_def
        map_at_def split: option.splits)

lemma src_at_props [simp]:
  "fst (src_at cm k1 ty) = lookupSrc cm k1 ty"
  "lookupSat (snd (src_at cm k1 ty)) a b = lookupSat cm a b"
  "lookupSrc (snd (src_at cm k1 ty)) a u = lookupSrc cm a u"
  "snd (src_at cm k1 ty) k = None \<longleftrightarrow> k \<noteq> k1 \<and> cm k = None"
  by (simp_all add: src_at_def lookupSat_def lookupSrc_def varCov_at_def lookup0_def Let_def
        map_at_def split: option.splits)

lemma lookup_empty [simp]:
  "lookupSat Map.empty a b = 0" "lookupSrc Map.empty a ty = 0"
  by (simp_all add: lookupSat_def lookupSrc_def varCov_at_def lookup0_def)

lemma store_covRowUC_other:
  "\<not> (a = k1 \<and> b \<in> identity ` set vs) \<Longrightarrow>
   lookupSat (store_covRowUC k1 vs i j C cm) a b = lookupSat cm a b"
  by (induction vs arbitrary: j cm) auto

lemma store_covRowUC_src [simp]:
  "lookupSrc (store_covRowUC k1 vs i j C cm) a ty = lookupSrc cm a ty"
  by (induction vs arbitrary: j cm) auto

lemma store_covRowUC_nth:
  "distinct (map identity vs) \<Longrightarrow> t < length vs \<Longrightarrow>
   lookupSat (store_covRowUC k1 vs i j C cm) k1 (identity (vs ! t)) = mget C i (j + t)"
proof (induction vs arbitrary: j cm t)
  case Nil
  then show ?case by simp
next
  case (Cons v vs)
  show ?case
  proof (cases t)
    case 0
    with Cons.prems show ?thesis by (simp add: store_covRowUC_other)
  next
    case (Suc t')
    with Cons.prems Cons.IH[of t' "Suc j"] show ?thesis by simp
  qed
qed

lemma store_covRowUC_present:
  "store_covRowUC k1 vs i j C cm k = None \<longleftrightarrow> (k \<noteq> k1 \<or> vs = []) \<and> cm k = None"
  by (induction vs arbitrary: j cm) auto

lemma store_srcRowUC_sat [simp]:
  "lookupSat (store_srcRowUC k1 tys i k C cm) a b = lookupSat cm a b"
  by (induction tys arbitrary: k cm) auto

lemma store_srcRowUC_other:
  "\<not> (a = k1 \<and> u \<in> set tys) \<Longrightarrow>
   lookupSrc (store_srcRowUC k1 tys i k C cm) a u = lookupSrc cm a u"
  by (induction tys arbitrary: k cm) auto

lemma store_srcRowUC_nth:
  "distinct tys \<Longrightarrow> t < length tys \<Longrightarrow>
   lookupSrc (store_srcRowUC k1 tys i k C cm) k1 (tys ! t) = mget C i (k + t)"
proof (induction tys arbitrary: k cm t)
  case Nil
  then show ?case by simp
next
  case (Cons ty tys)
  show ?case
  proof (cases t)
    case 0
    with Cons.prems show ?thesis by (simp add: store_srcRowUC_other)
  next
    case (Suc t')
    with Cons.prems Cons.IH[of t' "Suc k"] show ?thesis by simp
  qed
qed

lemma store_srcRowUC_present:
  "store_srcRowUC k1 tys i k C cm kk = None \<longleftrightarrow> (kk \<noteq> k1 \<or> tys = []) \<and> cm kk = None"
  by (induction tys arbitrary: k cm) auto

lemma store_covUC_Cons:
  "identity v \<notin> identity ` set vs \<Longrightarrow>
   store_covUC tys (v # vs) (v # vs) i C cm =
     store_covUC tys vs vs (Suc i) C
       (store_srcRowUC (identity v) tys i 0 C
          (store_covRowUC (identity v) vs i (Suc i) C
             (sat_put cm (identity v) (identity v) (mget C i i))))"
  by (simp add: Let_def set_erase_head)

lemma store_covUC_present:
  "distinct (map identity vs) \<Longrightarrow>
   store_covUC tys vs vs i C cm k = None \<longleftrightarrow> k \<notin> identity ` set vs \<and> cm k = None"
proof (induction vs arbitrary: i cm)
  case Nil
  then show ?case by simp
next
  case (Cons v vs)
  then have nv: "identity v \<notin> identity ` set vs" and d: "distinct (map identity vs)" by auto
  show ?case unfolding store_covUC_Cons[OF nv] Cons.IH[OF d]
    by (auto simp: store_srcRowUC_present store_covRowUC_present)
qed

lemma store_covUC_src_other:
  "distinct (map identity vs) \<Longrightarrow> k \<notin> identity ` set vs \<Longrightarrow>
   lookupSrc (store_covUC tys vs vs i C cm) k u = lookupSrc cm k u"
proof (induction vs arbitrary: i cm)
  case Nil
  then show ?case by simp
next
  case (Cons v vs)
  then have nv: "identity v \<notin> identity ` set vs" and d: "distinct (map identity vs)"
    and k: "k \<notin> identity ` set vs" "k \<noteq> identity v" by auto
  show ?case unfolding store_covUC_Cons[OF nv] Cons.IH[OF d k(1)]
    using k(2) by (simp add: store_srcRowUC_other)
qed

lemma store_covUC_src_nth:
  "distinct (map identity vs) \<Longrightarrow> distinct tys \<Longrightarrow> a < length vs \<Longrightarrow> t < length tys \<Longrightarrow>
   lookupSrc (store_covUC tys vs vs i C cm) (identity (vs ! a)) (tys ! t) = mget C (i + a) t"
proof (induction vs arbitrary: i cm a)
  case Nil
  then show ?case by simp
next
  case (Cons v vs)
  then have nv: "identity v \<notin> identity ` set vs" and d: "distinct (map identity vs)" by auto
  show ?case
  proof (cases a)
    case 0
    show ?thesis unfolding store_covUC_Cons[OF nv]
      using 0 nv Cons.prems(2,4)
      by (simp add: store_covUC_src_other[OF d] store_srcRowUC_nth)
  next
    case (Suc a')
    with Cons.prems have "a' < length vs" by simp
    from Cons.IH[OF d Cons.prems(2) this Cons.prems(4)] Suc
    show ?thesis unfolding store_covUC_Cons[OF nv] by simp
  qed
qed

lemma store_covUC_other:
  "distinct (map identity vs) \<Longrightarrow>
   \<not> (\<exists>a b. a \<le> b \<and> b < length vs \<and> k1 = identity (vs ! a) \<and> k2 = identity (vs ! b)) \<Longrightarrow>
   lookupSat (store_covUC tys vs vs i C cm) k1 k2 = lookupSat cm k1 k2"
proof (induction vs arbitrary: i cm)
  case Nil
  then show ?case by simp
next
  case (Cons v vs)
  then have nv: "identity v \<notin> identity ` set vs" and d: "distinct (map identity vs)" by auto
  have n1: "\<not> (\<exists>a b. a \<le> b \<and> b < length vs \<and> k1 = identity (vs ! a) \<and> k2 = identity (vs ! b))"
  proof
    assume "\<exists>a b. a \<le> b \<and> b < length vs \<and> k1 = identity (vs ! a) \<and> k2 = identity (vs ! b)"
    then obtain a b where "a \<le> b" "b < length vs" "k1 = identity (vs ! a)" "k2 = identity (vs ! b)"
      by blast
    then have "Suc a \<le> Suc b \<and> Suc b < length (v # vs) \<and> k1 = identity ((v # vs) ! Suc a)
        \<and> k2 = identity ((v # vs) ! Suc b)" by simp
    with Cons.prems(2) show False by blast
  qed
  have n2: "\<not> (k1 = identity v \<and> k2 = identity v)"
  proof
    assume "k1 = identity v \<and> k2 = identity v"
    then have "(0::nat) \<le> 0 \<and> 0 < length (v # vs) \<and> k1 = identity ((v # vs) ! 0)
        \<and> k2 = identity ((v # vs) ! 0)" by simp
    with Cons.prems(2) show False by blast
  qed
  have n3: "\<not> (k1 = identity v \<and> k2 \<in> identity ` set vs)"
  proof
    assume h: "k1 = identity v \<and> k2 \<in> identity ` set vs"
    then obtain b where "b < length vs" "k2 = identity (vs ! b)"
      by (auto simp: in_set_conv_nth)
    with h have "0 \<le> Suc b \<and> Suc b < length (v # vs) \<and> k1 = identity ((v # vs) ! 0)
        \<and> k2 = identity ((v # vs) ! Suc b)" by simp
    with Cons.prems(2) show False by blast
  qed
  have "lookupSat (store_covRowUC (identity v) vs i (Suc i) C
             (sat_put cm (identity v) (identity v) (mget C i i))) k1 k2
       = lookupSat (sat_put cm (identity v) (identity v) (mget C i i)) k1 k2"
    using n3 by (intro store_covRowUC_other) blast
  also have "\<dots> = lookupSat cm k1 k2" using n2 by (cases "k1 = identity v") simp_all
  finally show ?case unfolding store_covUC_Cons[OF nv] Cons.IH[OF d n1] by simp
qed

lemma store_covUC_nth:
  "distinct (map identity vs) \<Longrightarrow> a \<le> b \<Longrightarrow> b < length vs \<Longrightarrow>
   lookupSat (store_covUC tys vs vs i C cm) (identity (vs ! a)) (identity (vs ! b))
     = mget C (i + a) (i + b)"
proof (induction vs arbitrary: i cm a b)
  case Nil
  then show ?case by simp
next
  case (Cons v vs)
  then have nv: "identity v \<notin> identity ` set vs" and d: "distinct (map identity vs)" by auto
  show ?case
  proof (cases a)
    case a0: 0
    have no: "\<not> (\<exists>a' b'. a' \<le> b' \<and> b' < length vs \<and> identity v = identity (vs ! a')
        \<and> k2 = identity (vs ! b'))" for k2
    proof
      assume "\<exists>a' b'. a' \<le> b' \<and> b' < length vs \<and> identity v = identity (vs ! a')
        \<and> k2 = identity (vs ! b')"
      then obtain a' b' where ab: "a' \<le> b'" "b' < length vs" "identity v = identity (vs ! a')"
        by blast
      then have "a' < length vs" by simp
      then have "identity (vs ! a') \<in> identity ` set vs" by simp
      with nv ab(3) show False by simp
    qed
    show ?thesis
    proof (cases b)
      case 0
      with a0 no show ?thesis unfolding store_covUC_Cons[OF nv]
        using nv by (simp add: store_covUC_other[OF d] store_covRowUC_other)
    next
      case (Suc b')
      with Cons.prems have "b' < length vs" by simp
      with a0 Suc no show ?thesis unfolding store_covUC_Cons[OF nv]
        by (simp add: store_covUC_other[OF d] store_covRowUC_nth[OF d])
    qed
  next
    case (Suc a')
    with Cons.prems obtain b' where b: "b = Suc b'" "a' \<le> b'" "b' < length vs"
      by (cases b) auto
    from Cons.IH[OF d b(2,3)] Suc b(1) show ?thesis unfolding store_covUC_Cons[OF nv] by simp
  qed
qed

text \<open>The walks of the carry-forward.\<close>

lemma fill_covRowUC_Cons:
  "fill_covRowUC k1 (v2 # vs) c1 c2 (M, cm) =
     fill_covRowUC k1 vs c1 (Suc c2)
       (mset (mset M c2 c1 (lookupSat cm k1 (identity v2))) c1 c2 (lookupSat cm k1 (identity v2)),
        snd (sat_at cm k1 (identity v2)))"
  using sat_at_props(1)[of cm k1 "identity v2"]
  by (simp add: case_prod_beta del: sat_at_props)

lemma fill_covRowUC_map:
  "lookupSat (snd (fill_covRowUC k1 vs c1 c2 (M, cm))) a b = lookupSat cm a b \<and>
   lookupSrc (snd (fill_covRowUC k1 vs c1 c2 (M, cm))) a ty = lookupSrc cm a ty \<and>
   (snd (fill_covRowUC k1 vs c1 c2 (M, cm)) k = None \<longleftrightarrow> (k \<noteq> k1 \<or> vs = []) \<and> cm k = None) \<and>
   rows (fst (fill_covRowUC k1 vs c1 c2 (M, cm))) = rows M \<and>
   cols (fst (fill_covRowUC k1 vs c1 c2 (M, cm))) = cols M"
proof (induction vs arbitrary: c2 M cm)
  case Nil
  then show ?case by simp
next
  case (Cons v vs)
  show ?case unfolding fill_covRowUC_Cons using Cons.IH by auto
qed

lemma fill_covRowUC_frame:
  "\<not> ((r = c1 \<and> c2 \<le> c \<and> c < c2 + length vs) \<or> (c = c1 \<and> c2 \<le> r \<and> r < c2 + length vs)) \<Longrightarrow>
   mget (fst (fill_covRowUC k1 vs c1 c2 (M, cm))) r c = mget M r c"
proof (induction vs arbitrary: c2 M cm)
  case Nil
  then show ?case by simp
next
  case (Cons v vs)
  from Cons.prems have
    "\<not> ((r = c1 \<and> Suc c2 \<le> c \<and> c < Suc c2 + length vs)
        \<or> (c = c1 \<and> Suc c2 \<le> r \<and> r < Suc c2 + length vs))"
    by auto
  then have ih: "\<And>M cm. mget (fst (fill_covRowUC k1 vs c1 (Suc c2) (M, cm))) r c = mget M r c"
    using Cons.IH by blast
  define x where "x = lookupSat cm k1 (identity v)"
  have "mget (fst (fill_covRowUC k1 (v # vs) c1 c2 (M, cm))) r c
          = mget (mset (mset M c2 c1 x) c1 c2 x) r c"
    by (simp only: fill_covRowUC_Cons ih x_def)
  also have "\<dots> = mget M r c"
    using Cons.prems by (cases "r = c1"; cases "c = c2"; cases "r = c2"; cases "c = c1"; simp)
  finally show ?case .
qed

lemma fill_covRowUC_nth:
  "c1 < c2 \<Longrightarrow> t < length vs \<Longrightarrow>
   mget (fst (fill_covRowUC k1 vs c1 c2 (M, cm))) c1 (c2 + t) = lookupSat cm k1 (identity (vs ! t)) \<and>
   mget (fst (fill_covRowUC k1 vs c1 c2 (M, cm))) (c2 + t) c1 = lookupSat cm k1 (identity (vs ! t))"
proof (induction vs arbitrary: c2 M cm t)
  case Nil
  then show ?case by simp
next
  case (Cons v vs)
  show ?case
  proof (cases t)
    case 0
    with Cons.prems show ?thesis unfolding fill_covRowUC_Cons
      by (simp add: fill_covRowUC_frame)
  next
    case (Suc t')
    with Cons.prems have "c1 < Suc c2" "t' < length vs" by simp_all
    from Cons.IH[OF this] Suc show ?thesis unfolding fill_covRowUC_Cons
      by simp
  qed
qed

lemma fill_srcRowUC_Cons:
  "fill_srcRowUC k1 (ty # tys) c1 c3 (M, cm) =
     fill_srcRowUC k1 tys c1 (Suc c3)
       (mset (mset M c3 c1 (lookupSrc cm k1 ty)) c1 c3 (lookupSrc cm k1 ty),
        snd (src_at cm k1 ty))"
  using src_at_props(1)[of cm k1 ty]
  by (simp add: case_prod_beta del: src_at_props)

lemma fill_srcRowUC_map:
  "lookupSat (snd (fill_srcRowUC k1 tys c1 c3 (M, cm))) a b = lookupSat cm a b \<and>
   lookupSrc (snd (fill_srcRowUC k1 tys c1 c3 (M, cm))) a ty = lookupSrc cm a ty \<and>
   (snd (fill_srcRowUC k1 tys c1 c3 (M, cm)) k = None \<longleftrightarrow> (k \<noteq> k1 \<or> tys = []) \<and> cm k = None) \<and>
   rows (fst (fill_srcRowUC k1 tys c1 c3 (M, cm))) = rows M \<and>
   cols (fst (fill_srcRowUC k1 tys c1 c3 (M, cm))) = cols M"
proof (induction tys arbitrary: c3 M cm)
  case Nil
  then show ?case by simp
next
  case (Cons u tys)
  show ?case unfolding fill_srcRowUC_Cons using Cons.IH by auto
qed

lemma fill_srcRowUC_frame:
  "\<not> ((r = c1 \<and> c3 \<le> c \<and> c < c3 + length tys) \<or> (c = c1 \<and> c3 \<le> r \<and> r < c3 + length tys)) \<Longrightarrow>
   mget (fst (fill_srcRowUC k1 tys c1 c3 (M, cm))) r c = mget M r c"
proof (induction tys arbitrary: c3 M cm)
  case Nil
  then show ?case by simp
next
  case (Cons u tys)
  from Cons.prems have
    "\<not> ((r = c1 \<and> Suc c3 \<le> c \<and> c < Suc c3 + length tys)
        \<or> (c = c1 \<and> Suc c3 \<le> r \<and> r < Suc c3 + length tys))"
    by auto
  then have ih: "\<And>M cm. mget (fst (fill_srcRowUC k1 tys c1 (Suc c3) (M, cm))) r c = mget M r c"
    using Cons.IH by blast
  define x where "x = lookupSrc cm k1 u"
  have "mget (fst (fill_srcRowUC k1 (u # tys) c1 c3 (M, cm))) r c
          = mget (mset (mset M c3 c1 x) c1 c3 x) r c"
    by (simp only: fill_srcRowUC_Cons ih x_def)
  also have "\<dots> = mget M r c"
    using Cons.prems by (cases "r = c1"; cases "c = c3"; cases "r = c3"; cases "c = c1"; simp)
  finally show ?case .
qed

lemma fill_srcRowUC_nth:
  "c3 + length tys \<le> c1 \<Longrightarrow> t < length tys \<Longrightarrow>
   mget (fst (fill_srcRowUC k1 tys c1 c3 (M, cm))) c1 (c3 + t) = lookupSrc cm k1 (tys ! t) \<and>
   mget (fst (fill_srcRowUC k1 tys c1 c3 (M, cm))) (c3 + t) c1 = lookupSrc cm k1 (tys ! t)"
proof (induction tys arbitrary: c3 M cm t)
  case Nil
  then show ?case by simp
next
  case (Cons u tys)
  show ?case
  proof (cases t)
    case 0
    with Cons.prems show ?thesis unfolding fill_srcRowUC_Cons
      by (simp add: fill_srcRowUC_frame)
  next
    case (Suc t')
    with Cons.prems have "Suc c3 + length tys \<le> c1" "t' < length tys" by simp_all
    from Cons.IH[OF this] Suc show ?thesis unfolding fill_srcRowUC_Cons
      by (simp add: fill_srcRowUC_map)
  qed
qed

lemma diag_stepUC_props:
  "lookupSat (snd (diag_stepUC v i (M, cm))) a b = lookupSat cm a b"
  "lookupSrc (snd (diag_stepUC v i (M, cm))) a ty = lookupSrc cm a ty"
  "snd (diag_stepUC v i (M, cm)) k = None \<longleftrightarrow> cm k = None"
  "rows (fst (diag_stepUC v i (M, cm))) = rows M"
  "cols (fst (diag_stepUC v i (M, cm))) = cols M"
  "mget (fst (diag_stepUC v i (M, cm))) r c =
     (if r = i \<and> c = i
      then (if cm (identity v) \<noteq> None then lookupSat cm (identity v) (identity v)
            else getInitialVariance v)
      else mget M r c)"
  by (auto simp: diag_stepUC_def)

lemma fill_currentErrorCovUC_Cons:
  "identity v1 \<notin> identity ` set vs \<Longrightarrow>
   fill_currentErrorCovUC tys (v1 # vs) (v1 # vs) i (M, cm) =
     fill_currentErrorCovUC tys vs vs (Suc i)
       (fill_srcRowUC (identity v1) tys i 0
          (fill_covRowUC (identity v1) vs i (Suc i) (diag_stepUC v1 i (M, cm))))"
  using sat_at_props(1)[of cm "identity v1" "identity v1"]
  by (simp add: set_erase_head diag_stepUC_def case_prod_beta Let_def del: sat_at_props)

lemma fill_currentErrorCovUC_shape:
  "distinct (map identity vs) \<Longrightarrow>
   rows (fst (fill_currentErrorCovUC tys vs vs i (M, cm))) = rows M \<and>
   cols (fst (fill_currentErrorCovUC tys vs vs i (M, cm))) = cols M"
proof (induction vs arbitrary: i M cm)
  case Nil
  then show ?case by simp
next
  case (Cons v vs)
  then have nv: "identity v \<notin> identity ` set vs" and d: "distinct (map identity vs)" by auto
  obtain M1 cm1 where s1: "diag_stepUC v i (M, cm) = (M1, cm1)" by force
  obtain M2 cm2 where s2: "fill_covRowUC (identity v) vs i (Suc i) (M1, cm1) = (M2, cm2)" by force
  obtain M3 cm3 where s3: "fill_srcRowUC (identity v) tys i 0 (M2, cm2) = (M3, cm3)" by force
  have "rows M3 = rows M" "cols M3 = cols M"
    using fill_covRowUC_map[of "identity v" vs i "Suc i" M1 cm1]
      fill_srcRowUC_map[of "identity v" tys i 0 M2 cm2]
      diag_stepUC_props(4,5)[of v i M cm] s1 s2 s3
    by auto
  with Cons.IH[OF d, of "Suc i" M3 cm3] show ?case
    unfolding fill_currentErrorCovUC_Cons[OF nv] s1 s2 s3 by simp
qed

lemma fill_currentErrorCovUC_frame:
  "distinct (map identity vs) \<Longrightarrow> length tys \<le> i \<Longrightarrow>
   (r < i \<and> c < i) \<or> i + length vs \<le> r \<or> i + length vs \<le> c
     \<or> (length tys \<le> r \<and> r < i) \<or> (length tys \<le> c \<and> c < i) \<Longrightarrow>
   mget (fst (fill_currentErrorCovUC tys vs vs i (M, cm))) r c = mget M r c"
proof (induction vs arbitrary: i M cm)
  case Nil
  then show ?case by simp
next
  case (Cons v vs)
  then have nv: "identity v \<notin> identity ` set vs" and d: "distinct (map identity vs)" by auto
  obtain M1 cm1 where s1: "diag_stepUC v i (M, cm) = (M1, cm1)" by force
  obtain M2 cm2 where s2: "fill_covRowUC (identity v) vs i (Suc i) (M1, cm1) = (M2, cm2)" by force
  obtain M3 cm3 where s3: "fill_srcRowUC (identity v) tys i 0 (M2, cm2) = (M3, cm3)" by force
  from Cons.prems(2) have li: "length tys \<le> Suc i" by simp
  from Cons.prems(3) have
    o: "(r < Suc i \<and> c < Suc i) \<or> Suc i + length vs \<le> r \<or> Suc i + length vs \<le> c
         \<or> (length tys \<le> r \<and> r < Suc i) \<or> (length tys \<le> c \<and> c < Suc i)"
    by auto
  from Cons.prems(2,3) have
    f: "\<not> ((r = i \<and> Suc i \<le> c \<and> c < Suc i + length vs) \<or> (c = i \<and> Suc i \<le> r \<and> r < Suc i + length vs))"
    and g: "\<not> ((r = i \<and> 0 \<le> c \<and> c < 0 + length tys) \<or> (c = i \<and> 0 \<le> r \<and> r < 0 + length tys))"
    and nd: "\<not> (r = i \<and> c = i)"
    by auto
  have "mget M3 r c = mget M2 r c"
    using fill_srcRowUC_frame[OF g, of "identity v" M2 cm2] s3 by simp
  also have "\<dots> = mget M1 r c"
    using fill_covRowUC_frame[OF f, of "identity v" M1 cm1] s2 by simp
  also have "\<dots> = mget M r c"
    using diag_stepUC_props(6)[of v i M cm r c] s1 nd by simp
  finally show ?case
    using Cons.IH[OF d li o, of M3 cm3] unfolding fill_currentErrorCovUC_Cons[OF nv] s1 s2 s3 by simp
qed

lemma fill_currentErrorCovUC_entries:
  "distinct (map identity vs) \<Longrightarrow> length tys \<le> i \<Longrightarrow> a \<le> b \<Longrightarrow> b < length vs \<Longrightarrow>
   mget (fst (fill_currentErrorCovUC tys vs vs i (M, cm))) (i + a) (i + b) =
     (if a = b
      then (if cm (identity (vs ! a)) \<noteq> None
            then lookupSat cm (identity (vs ! a)) (identity (vs ! a))
            else getInitialVariance (vs ! a))
      else lookupSat cm (identity (vs ! a)) (identity (vs ! b))) \<and>
   mget (fst (fill_currentErrorCovUC tys vs vs i (M, cm))) (i + b) (i + a) =
     mget (fst (fill_currentErrorCovUC tys vs vs i (M, cm))) (i + a) (i + b)"
proof (induction vs arbitrary: i M cm a b)
  case Nil
  then show ?case by simp
next
  case (Cons v vs)
  then have nv: "identity v \<notin> identity ` set vs" and d: "distinct (map identity vs)" by auto
  from Cons.prems(2) have li: "length tys \<le> Suc i" by simp
  obtain M1 cm1 where s1: "diag_stepUC v i (M, cm) = (M1, cm1)" by force
  obtain M2 cm2 where s2: "fill_covRowUC (identity v) vs i (Suc i) (M1, cm1) = (M2, cm2)" by force
  obtain M3 cm3 where s3: "fill_srcRowUC (identity v) tys i 0 (M2, cm2) = (M3, cm3)" by force
  have l1: "\<And>x y. lookupSat cm1 x y = lookupSat cm x y"
    using diag_stepUC_props(1)[of v i M cm] s1 by simp
  have l3: "\<And>x y. lookupSat cm3 x y = lookupSat cm x y"
    using fill_covRowUC_map[of "identity v" vs i "Suc i" M1 cm1]
      fill_srcRowUC_map[of "identity v" tys i 0 M2 cm2] l1 s2 s3
    by simp
  have pr: "\<And>k. k \<noteq> identity v \<Longrightarrow> cm3 k = None \<longleftrightarrow> cm k = None"
    using fill_covRowUC_map[of "identity v" vs i "Suc i" M1 cm1]
      fill_srcRowUC_map[of "identity v" tys i 0 M2 cm2]
      diag_stepUC_props(3)[of v i M cm] s1 s2 s3
    by simp
  have st: "fill_currentErrorCovUC tys (v # vs) (v # vs) i (M, cm)
      = fill_currentErrorCovUC tys vs vs (Suc i) (M3, cm3)"
    using fill_currentErrorCovUC_Cons[OF nv, of tys i M cm] s1 s2 s3 by simp
  have src_keep: "mget M3 r c = mget M2 r c" if "length tys \<le> r" "length tys \<le> c" for r c
    using fill_srcRowUC_frame[of r i 0 c tys "identity v" M2 cm2] s3 that by simp
  show ?case
  proof (cases a)
    case a0: 0
    show ?thesis
    proof (cases b)
      case 0
      have "mget M2 i i = mget M1 i i"
        using fill_covRowUC_frame[of i i "Suc i" i vs "identity v" M1 cm1] s2 by simp
      moreover have "mget M3 i i = mget M2 i i" using src_keep Cons.prems(2) by simp
      ultimately show ?thesis unfolding st using a0 0 diag_stepUC_props(6)[of v i M cm i i] s1
        by (simp add: fill_currentErrorCovUC_frame[OF d li])
    next
      case (Suc b')
      with Cons.prems have b': "b' < length vs" by simp
      from fill_covRowUC_nth[of i "Suc i" b' vs "identity v" M1 cm1] b' s2 l1
      have "mget M2 i (Suc i + b') = lookupSat cm (identity v) (identity (vs ! b'))"
           "mget M2 (Suc i + b') i = lookupSat cm (identity v) (identity (vs ! b'))"
        by simp_all
      moreover have "mget M3 i (Suc i + b') = mget M2 i (Suc i + b')"
        "mget M3 (Suc i + b') i = mget M2 (Suc i + b') i"
        using src_keep Cons.prems(2) by simp_all
      moreover have "mget (fst (fill_currentErrorCovUC tys vs vs (Suc i) (M3, cm3))) i (Suc i + b')
          = mget M3 i (Suc i + b')"
        "mget (fst (fill_currentErrorCovUC tys vs vs (Suc i) (M3, cm3))) (Suc i + b') i
          = mget M3 (Suc i + b') i"
        using Cons.prems(2) by (simp_all add: fill_currentErrorCovUC_frame[OF d li])
      ultimately show ?thesis unfolding st using a0 Suc by simp
    qed
  next
    case (Suc a')
    with Cons.prems obtain b' where b: "b = Suc b'" "a' \<le> b'" "b' < length vs"
      by (cases b) auto
    then have "a' < length vs" by simp
    then have "identity (vs ! a') \<in> identity ` set vs" by simp
    with nv have ne: "identity (vs ! a') \<noteq> identity v" by auto
    have e1: "mget (fst (fill_currentErrorCovUC tys vs vs (Suc i) (M3, cm3))) (i + a) (i + b) =
     (if a' = b'
      then (if cm (identity (vs ! a')) \<noteq> None
            then lookupSat cm (identity (vs ! a')) (identity (vs ! a'))
            else getInitialVariance (vs ! a'))
      else lookupSat cm (identity (vs ! a')) (identity (vs ! b')))"
      and e2: "mget (fst (fill_currentErrorCovUC tys vs vs (Suc i) (M3, cm3))) (i + b) (i + a) =
        mget (fst (fill_currentErrorCovUC tys vs vs (Suc i) (M3, cm3))) (i + a) (i + b)"
      using Cons.IH[OF d li b(2,3), of M3 cm3] Suc b(1) l3 pr[OF ne] by auto
    show ?thesis unfolding st e2 e1 using Suc b(1) by simp
  qed
qed

lemma fill_currentErrorCovUC_src:
  "distinct (map identity vs) \<Longrightarrow> length tys \<le> i \<Longrightarrow> a < length vs \<Longrightarrow> t < length tys \<Longrightarrow>
   mget (fst (fill_currentErrorCovUC tys vs vs i (M, cm))) (i + a) t
     = lookupSrc cm (identity (vs ! a)) (tys ! t) \<and>
   mget (fst (fill_currentErrorCovUC tys vs vs i (M, cm))) t (i + a)
     = lookupSrc cm (identity (vs ! a)) (tys ! t)"
proof (induction vs arbitrary: i M cm a)
  case Nil
  then show ?case by simp
next
  case (Cons v vs)
  then have nv: "identity v \<notin> identity ` set vs" and d: "distinct (map identity vs)" by auto
  from Cons.prems(2) have li: "length tys \<le> Suc i" by simp
  obtain M1 cm1 where s1: "diag_stepUC v i (M, cm) = (M1, cm1)" by force
  obtain M2 cm2 where s2: "fill_covRowUC (identity v) vs i (Suc i) (M1, cm1) = (M2, cm2)" by force
  obtain M3 cm3 where s3: "fill_srcRowUC (identity v) tys i 0 (M2, cm2) = (M3, cm3)" by force
  have l2: "\<And>x y. lookupSrc cm2 x y = lookupSrc cm x y"
    using fill_covRowUC_map[of "identity v" vs i "Suc i" M1 cm1]
      diag_stepUC_props(2)[of v i M cm] s1 s2
    by simp
  have l3: "\<And>x y. lookupSrc cm3 x y = lookupSrc cm x y"
    using fill_srcRowUC_map[of "identity v" tys i 0 M2 cm2] l2 s3 by simp
  have st: "fill_currentErrorCovUC tys (v # vs) (v # vs) i (M, cm)
      = fill_currentErrorCovUC tys vs vs (Suc i) (M3, cm3)"
    using fill_currentErrorCovUC_Cons[OF nv, of tys i M cm] s1 s2 s3 by simp
  show ?case
  proof (cases a)
    case 0
    from fill_srcRowUC_nth[of 0 tys i t "identity v" M2 cm2] Cons.prems(2,4) s3 l2
    have "mget M3 i t = lookupSrc cm (identity v) (tys ! t)"
         "mget M3 t i = lookupSrc cm (identity v) (tys ! t)"
      by simp_all
    moreover have "mget (fst (fill_currentErrorCovUC tys vs vs (Suc i) (M3, cm3))) i t = mget M3 i t"
      "mget (fst (fill_currentErrorCovUC tys vs vs (Suc i) (M3, cm3))) t i = mget M3 t i"
      using Cons.prems(2,4) by (simp_all add: fill_currentErrorCovUC_frame[OF d li])
    ultimately show ?thesis unfolding st using 0 by simp
  next
    case (Suc a')
    with Cons.prems have a': "a' < length vs" by simp
    from Cons.IH[OF d li a' Cons.prems(4), of M3 cm3] l3 Suc
    show ?thesis unfolding st by simp
  qed
qed

text \<open>The core block, the set of unknowns, and the two methods.\<close>

lemma fold_pair:
  "fold (\<lambda>i (cs, C). (f i cs, g i C)) xs (cs0, C0) = (fold f xs cs0, fold g xs C0)"
  by (induction xs arbitrary: cs0 C0) simp_all

lemma copy_core_state:
  "n \<le> length cs \<Longrightarrow>
   fst (copy_core n sol cov (cs, C)) ! k = (if k < n then sol ! k else cs ! k)"
  using fold_copy_vec[of 0 n cs sol k]
  by (simp add: copy_core_def fold_pair)

lemma copy_core_length' [simp]: "length (fst (copy_core n sol cov (cs, C))) = length cs"
  by (simp add: copy_core_def fold_pair)

lemma copy_core_cov:
  "mget (snd (copy_core n sol cov (cs, C))) r c = (if r < n \<and> c < n then mget cov r c else mget C r c)"
  using fold_copy_mat[of 0 "\<lambda>i j. mget cov i j" n n C r c]
  by (simp add: copy_core_def fold_pair)

lemma copy_core_shape [simp]:
  "rows (snd (copy_core n sol cov (cs, C))) = rows C"
  "cols (snd (copy_core n sol cov (cs, C))) = cols C"
  by (simp_all add: copy_core_def fold_pair)

lemma set_insert_ids:
  "identity ` set (set_insert v us) = insert (identity v) (identity ` set us)"
  by (induction us) auto

lemma set_insert_sorted:
  "is_VariableSet us \<Longrightarrow> is_VariableSet (set_insert v us)"
proof (induction us)
  case Nil
  then show ?case by (simp add: is_VariableSet_def)
next
  case (Cons u us)
  then have su: "is_VariableSet us" and lt: "\<forall>x\<in>set us. identity u < identity x"
    by (simp_all add: is_VariableSet_def)
  consider "identity v < identity u" | "identity v = identity u" | "identity u < identity v"
    by (rule linorder_cases)
  then show ?case
  proof cases
    case 1
    with Cons.prems lt show ?thesis by (auto simp: is_VariableSet_def)
  next
    case 2
    with Cons.prems show ?thesis by simp
  next
    case 3
    have "\<forall>x\<in>set (set_insert v us). identity u < identity x"
    proof
      fix x assume "x \<in> set (set_insert v us)"
      then have "identity x \<in> identity ` set (set_insert v us)" by simp
      then have "identity x = identity v \<or> identity x \<in> identity ` set us"
        by (simp add: set_insert_ids)
      with 3 lt show "identity u < identity x" by auto
    qed
    moreover from 3 have "\<not> identity v < identity u" "identity v \<noteq> identity u" by auto
    ultimately show ?thesis using Cons.IH[OF su] by (simp add: is_VariableSet_def)
  qed
qed

lemma fold_set_insert_sorted:
  "is_VariableSet us \<Longrightarrow> is_VariableSet (fold (\<lambda>x vu. set_insert (h x) vu) xs us)"
  by (induction xs arbitrary: us) (simp_all add: set_insert_sorted)

lemma build_varUnknowns_sorted: "is_VariableSet (build_varUnknowns tys sats)"
proof -
  have "is_VariableSet us \<Longrightarrow>
     is_VariableSet (fold (\<lambda>ty vu. fold (\<lambda>sat vu. set_insert (setSatellite sat (Variable_of ty)) vu)
                              sats vu) tys us)" for us
    by (induction tys arbitrary: us) (simp_all add: fold_set_insert_sorted)
  then show ?thesis by (simp add: build_varUnknowns_def is_VariableSet_def)
qed

lemma PPPUC_postCompute_ok:
  assumes "numVar s + length (varUnknowns s) \<le> length (solution s)"
    and "numVar s + length (varUnknowns s) \<le> rows (covMatrix s)"
    and "numVar s + length (varUnknowns s) \<le> cols (covMatrix s)"
  shows "PPPUC_postCompute gData s =
     (Inr (), s\<lparr>stateMapUC := store_state (varUnknowns s) (numVar s) (solution s) Map.empty,
                 covarianceMapUC := store_covUC (srcIndexedTypes s) (varUnknowns s) (varUnknowns s)
                                      (numVar s) (covMatrix s) Map.empty,
                 numCurrentSV := numSats (body gData),
                 currSatSet := getSatID (body gData)\<rparr>)"
  using assms by (simp add: PPPUC_postCompute_def Let_def)

lemma PPPUC_postCompute_Inr:
  assumes "PPPUC_postCompute gData s = (Inr (), s')"
  shows "numVar s + length (varUnknowns s) \<le> length (solution s) \<and>
         numVar s + length (varUnknowns s) \<le> rows (covMatrix s) \<and>
         numVar s + length (varUnknowns s) \<le> cols (covMatrix s)"
  using assms by (auto simp: PPPUC_postCompute_def Let_def split: if_splits)

lemma feed_filter_carry:
  assumes "feed_filter s = (Inr (), s')" and "\<not> firstTime s"
  shows "numVar s \<le> length (solution s) \<and> numVar s \<le> rows (covMatrix s) \<and>
         numVar s \<le> cols (covMatrix s) \<and> numVar s + length (varUnknowns s) \<le> numUnknowns s \<and>
         varUnknowns s' = varUnknowns s \<and> solution s' = solution s \<and> covMatrix s' = covMatrix s \<and>
         xhat s' = fst (fill_currentState (varUnknowns s) (numVar s)
                         (fst (copy_core (numVar s) (solution s) (covMatrix s)
                                 (Vector_fill (numUnknowns s) 0,
                                  Matrix_fill (numUnknowns s) (numUnknowns s) 0)),
                          stateMapUC s)) \<and>
         P s' = fst (fill_currentErrorCovUC (srcIndexedTypes s) (varUnknowns s) (varUnknowns s)
                      (numVar s)
                      (snd (copy_core (numVar s) (solution s) (covMatrix s)
                                 (Vector_fill (numUnknowns s) 0,
                                  Matrix_fill (numUnknowns s) (numUnknowns s) 0)),
                       covarianceMapUC s))"
  using assms
  by (auto simp: feed_filter_def Let_def case_prod_beta split: if_splits)

lemma PPPUC_preCompute_carry:
  assumes r: "PPPUC_preCompute sto gData s = (Inr (), s')" and nf: "\<not> firstTime s"
  shows "varUnknowns s' = build_varUnknowns (satIndexedTypes s) (getSatID (body gData)) \<and>
         numVar s' = length (srcIndexedTypes s) \<and>
         numUnknowns s' = length (srcIndexedTypes s) + 3 * numSats (body gData) \<and>
         length (srcIndexedTypes s) \<le> length (solution s) \<and>
         length (srcIndexedTypes s) \<le> rows (covMatrix s) \<and>
         length (srcIndexedTypes s) \<le> cols (covMatrix s) \<and>
         length (srcIndexedTypes s) + length (varUnknowns s') \<le> numUnknowns s' \<and>
         xhat s' = fst (fill_currentState (varUnknowns s') (numVar s')
                         (fst (copy_core (numVar s') (solution s) (covMatrix s)
                                 (Vector_fill (numUnknowns s') 0,
                                  Matrix_fill (numUnknowns s') (numUnknowns s') 0)),
                          stateMapUC s)) \<and>
         P s' = fst (fill_currentErrorCovUC (srcIndexedTypes s) (varUnknowns s') (varUnknowns s')
                      (numVar s')
                      (snd (copy_core (numVar s') (solution s) (covMatrix s)
                                 (Vector_fill (numUnknowns s') 0,
                                  Matrix_fill (numUnknowns s') (numUnknowns s') 0)),
                       covarianceMapUC s))"
proof -
  from r have N: "4 \<le> numSats (body gData)"
    by (auto simp: PPPUC_preCompute_def Let_def split: if_splits)
  from r N obtain imax where
    im: "snd (find_imax (numSats (body gData)) (getVectorOfTypeID elevation (body gData))) = Some imax"
    by (auto simp: PPPUC_preCompute_def Let_def split: if_splits option.splits)
  let ?N = "numSats (body gData)"
  let ?s10 = "s\<lparr>currSatSet := getSatID (body gData),
        varUnknowns := build_varUnknowns (satIndexedTypes s) (getSatID (body gData)),
        numCurrentSV := ?N, numMeas := count_numMeas ?N, numVar := length (srcIndexedTypes s),
        numUnknowns := count_numUnknowns (length (srcIndexedTypes s)) ?N,
        measVector := assemble_measVector ?N gData imax,
        rMatrix := assemble_rMatrix ?N gData imax (initialIonoVar s) (initialTropVar s),
        hMatrix := assemble_hMatrix ?N (length (srcIndexedTypes s)) (srcIndexedTypes s) gData imax,
        phiMatrix := fst (assemble_phiQ sto (fixCoordinate s) (length (srcIndexedTypes s)) ?N
                           (getSatID (body gData))),
        qMatrix := snd (assemble_phiQ sto (fixCoordinate s) (length (srcIndexedTypes s)) ?N
                           (getSatID (body gData)))\<rparr>"
  have "PPPUC_preCompute sto gData s = feed_filter ?s10"
    using N im by (simp add: PPPUC_preCompute_def Let_def)
  with r have f: "feed_filter ?s10 = (Inr (), s')" by simp
  have nf10: "\<not> firstTime ?s10" using nf by simp
  note c = feed_filter_carry[OF f nf10]
  note i = feed_filter_Inr[OF f]
  from c have vu: "varUnknowns s' = build_varUnknowns (satIndexedTypes s) (getSatID (body gData))"
    by simp
  from i have nvar: "numVar s' = length (srcIndexedTypes s)"
    and nunk: "numUnknowns s' = length (srcIndexedTypes s) + 3 * ?N"
    by (simp_all add: count_numUnknowns_eq)
  from c have g: "length (srcIndexedTypes s) \<le> length (solution s)"
    "length (srcIndexedTypes s) \<le> rows (covMatrix s)"
    "length (srcIndexedTypes s) \<le> cols (covMatrix s)"
    "length (srcIndexedTypes s) + length (varUnknowns s') \<le> numUnknowns s'"
    unfolding vu nunk by (simp_all add: count_numUnknowns_eq)
  from c have x: "xhat s' = fst (fill_currentState (varUnknowns s') (numVar s')
                         (fst (copy_core (numVar s') (solution s) (covMatrix s)
                                 (Vector_fill (numUnknowns s') 0,
                                  Matrix_fill (numUnknowns s') (numUnknowns s') 0)),
                          stateMapUC s))"
    unfolding vu nvar nunk by (simp add: count_numUnknowns_eq)
  from c have p: "P s' = fst (fill_currentErrorCovUC (srcIndexedTypes s) (varUnknowns s') (varUnknowns s')
                      (numVar s')
                      (snd (copy_core (numVar s') (solution s) (covMatrix s)
                                 (Vector_fill (numUnknowns s') 0,
                                  Matrix_fill (numUnknowns s') (numUnknowns s') 0)),
                       covarianceMapUC s))"
    unfolding vu nvar nunk by (simp add: count_numUnknowns_eq)
  from vu nvar nunk g x p show ?thesis by blast
qed

lemma PPPUC_carry_forward:
  assumes old: "is_VariableSet (varUnknowns u)"
    and nv: "numVar u = length (srcIndexedTypes u)"
    and dT: "distinct (srcIndexedTypes u)"
    and nf: "\<not> firstTime u"
    and post: "PPPUC_postCompute gOld u = (Inr (), u1)"
    and pre: "PPPUC_preCompute sto gNew u1 = (Inr (), u2)"
  shows "numVar u2 = numVar u \<and>
         numUnknowns u2 = numVar u + 3 * numSats (body gNew) \<and>
         length (xhat u2) = numUnknowns u2 \<and>
         rows (P u2) = numUnknowns u2 \<and> cols (P u2) = numUnknowns u2 \<and>
         is_VariableSet (varUnknowns u2) \<and>
         numVar u + length (varUnknowns u2) \<le> numUnknowns u2 \<and>
         (\<forall>k<numVar u. xhat u2 ! k = solution u ! k \<and>
            (\<forall>l<numVar u. mget (P u2) k l = mget (covMatrix u) k l)) \<and>
         (\<forall>i<length (varUnknowns u2).
            covarianceMapUC u1 (identity (varUnknowns u2 ! i)) = None \<longrightarrow>
              xhat u2 ! (numVar u + i) = 0 \<and>
              mget (P u2) (numVar u + i) (numVar u + i) = getInitialVariance (varUnknowns u2 ! i) \<and>
              (\<forall>j<numUnknowns u2. j \<noteq> numVar u + i \<longrightarrow>
                  mget (P u2) (numVar u + i) j = 0 \<and> mget (P u2) j (numVar u + i) = 0)) \<and>
         (\<forall>i<length (varUnknowns u2). \<forall>a<length (varUnknowns u).
            identity (varUnknowns u2 ! i) = identity (varUnknowns u ! a) \<longrightarrow>
              covarianceMapUC u1 (identity (varUnknowns u2 ! i)) \<noteq> None \<and>
              xhat u2 ! (numVar u + i) = solution u ! (numVar u + a) \<and>
              mget (P u2) (numVar u + i) (numVar u + i)
                = mget (covMatrix u) (numVar u + a) (numVar u + a) \<and>
              (\<forall>k<numVar u.
                  mget (P u2) (numVar u + i) k = mget (covMatrix u) (numVar u + a) k \<and>
                  mget (P u2) k (numVar u + i) = mget (covMatrix u) (numVar u + a) k) \<and>
              (\<forall>j<length (varUnknowns u2). \<forall>b<length (varUnknowns u).
                  i < j \<and> identity (varUnknowns u2 ! j) = identity (varUnknowns u ! b) \<longrightarrow>
                    mget (P u2) (numVar u + i) (numVar u + j)
                      = mget (covMatrix u) (numVar u + a) (numVar u + b) \<and>
                    mget (P u2) (numVar u + j) (numVar u + i)
                      = mget (covMatrix u) (numVar u + a) (numVar u + b)))"
proof -
  let ?os = "varUnknowns u"
  let ?us = "varUnknowns u2"
  let ?tys = "srcIndexedTypes u"
  let ?nv = "numVar u"
  let ?nu = "numUnknowns u2"
  let ?sm = "store_state ?os ?nv (solution u) Map.empty"
  let ?cm = "store_covUC ?tys ?os ?os ?nv (covMatrix u) Map.empty"
  let ?cc = "copy_core ?nv (solution u) (covMatrix u) (Vector_fill ?nu 0, Matrix_fill ?nu ?nu 0)"
  from old have dO: "distinct (map identity ?os)" by (rule VariableSet_distinct)
  note g = PPPUC_postCompute_Inr[OF post]
  from PPPUC_postCompute_ok[of u gOld] g post
  have u1: "u1 = u\<lparr>stateMapUC := ?sm, covarianceMapUC := ?cm,
                    numCurrentSV := numSats (body gOld), currSatSet := getSatID (body gOld)\<rparr>"
    by simp
  have f1: "srcIndexedTypes u1 = ?tys" "solution u1 = solution u" "covMatrix u1 = covMatrix u"
    "stateMapUC u1 = ?sm" "covarianceMapUC u1 = ?cm" "\<not> firstTime u1"
    "satIndexedTypes u1 = satIndexedTypes u"
    using nf by (simp_all add: u1)
  note c = PPPUC_preCompute_carry[OF pre f1(6), unfolded f1(1-5,7)]
  from c have vu: "?us = build_varUnknowns (satIndexedTypes u) (getSatID (body gNew))" by blast
  have new: "is_VariableSet ?us" unfolding vu by (rule build_varUnknowns_sorted)
  then have d: "distinct (map identity ?us)" by (rule VariableSet_distinct)
  from c have c2: "numVar u2 = length ?tys" "?nu = length ?tys + 3 * numSats (body gNew)"
    "length ?tys + length ?us \<le> ?nu" by blast+
  from c2 nv have nv2: "numVar u2 = ?nv" and nu2: "?nu = ?nv + 3 * numSats (body gNew)"
    and fit: "?nv + length ?us \<le> ?nu" by simp_all
  from c have c3: "xhat u2 = fst (fill_currentState ?us (numVar u2)
                         (fst (copy_core (numVar u2) (solution u) (covMatrix u)
                                 (Vector_fill ?nu 0, Matrix_fill ?nu ?nu 0)),
                          ?sm))"
    "P u2 = fst (fill_currentErrorCovUC ?tys ?us ?us (numVar u2)
                      (snd (copy_core (numVar u2) (solution u) (covMatrix u)
                                 (Vector_fill ?nu 0, Matrix_fill ?nu ?nu 0)),
                       ?cm))"
    by blast+
  have x2: "xhat u2 = fst (fill_currentState ?us ?nv (fst ?cc, ?sm))"
    and P2: "P u2 = fst (fill_currentErrorCovUC ?tys ?us ?us ?nv (snd ?cc, ?cm))"
    using c3 unfolding nv2 by simp_all
  have lt: "length ?tys \<le> ?nv" using nv by simp
  have lcs: "length (fst ?cc) = ?nu" by (simp add: Vector_fill_def)
  have lenx: "length (xhat u2) = ?nu"
    unfolding x2 by (simp add: fill_currentState_length Vector_fill_def)
  have sh: "rows (P u2) = ?nu" "cols (P u2) = ?nu"
    unfolding P2 using fill_currentErrorCovUC_shape[OF d, of ?tys ?nv "snd ?cc" ?cm]
    by simp_all
  have xk: "xhat u2 ! k =
      (if ?nv \<le> k \<and> k < ?nv + length ?us then lookup0 ?sm (identity (?us ! (k - ?nv)))
       else fst ?cc ! k)" for k
    unfolding x2 using fit lcs by (intro fill_currentState_nth) simp
  have cck: "fst ?cc ! k = solution u ! k" if "k < ?nv" for k
    using copy_core_state[of ?nv "Vector_fill ?nu 0" "solution u" "covMatrix u" "Matrix_fill ?nu ?nu 0" k]
      fit that by (simp add: Vector_fill_def)
  have ccm: "mget (snd ?cc) r c = (if r < ?nv \<and> c < ?nv then mget (covMatrix u) r c else 0)" for r c
    by (simp add: copy_core_cov)
  have pres: "?cm k = None \<longleftrightarrow> k \<notin> identity ` set ?os" for k
    using store_covUC_present[OF dO, of ?tys ?nv "covMatrix u" Map.empty k] by simp
  have ent: "mget (P u2) (?nv + a) (?nv + b) =
       (if a = b then (if ?cm (identity (?us ! a)) \<noteq> None
                       then lookupSat ?cm (identity (?us ! a)) (identity (?us ! a))
                       else getInitialVariance (?us ! a))
        else lookupSat ?cm (identity (?us ! a)) (identity (?us ! b)))
       \<and> mget (P u2) (?nv + b) (?nv + a) = mget (P u2) (?nv + a) (?nv + b)"
    if "a \<le> b" "b < length ?us" for a b
    unfolding P2 by (rule fill_currentErrorCovUC_entries[OF d lt that])
  have srce: "mget (P u2) (?nv + a) t = lookupSrc ?cm (identity (?us ! a)) (?tys ! t) \<and>
              mget (P u2) t (?nv + a) = lookupSrc ?cm (identity (?us ! a)) (?tys ! t)"
    if "a < length ?us" "t < ?nv" for a t
    unfolding P2 using that(2) nv by (intro fill_currentErrorCovUC_src[OF d lt that(1)]) simp
  have frame: "mget (P u2) r c = mget (snd ?cc) r c"
    if "(r < ?nv \<and> c < ?nv) \<or> ?nv + length ?us \<le> r \<or> ?nv + length ?us \<le> c" for r c
    unfolding P2 using that by (intro fill_currentErrorCovUC_frame[OF d lt]) blast
  have core: "xhat u2 ! k = solution u ! k \<and>
            (\<forall>l<?nv. mget (P u2) k l = mget (covMatrix u) k l)" if k: "k < ?nv" for k
  proof -
    have "xhat u2 ! k = solution u ! k" using xk[of k] cck[OF k] k by simp
    moreover have "mget (P u2) k l = mget (covMatrix u) k l" if "l < ?nv" for l
      using frame[of k l] ccm[of k l] k that by simp
    ultimately show ?thesis by blast
  qed
  have new_part: "xhat u2 ! (?nv + i) = 0 \<and>
              mget (P u2) (?nv + i) (?nv + i) = getInitialVariance (?us ! i) \<and>
              (\<forall>j<?nu. j \<noteq> ?nv + i \<longrightarrow>
                  mget (P u2) (?nv + i) j = 0 \<and> mget (P u2) j (?nv + i) = 0)"
    if i: "i < length ?us" and ab: "?cm (identity (?us ! i)) = None" for i
  proof -
    from ab have nin: "identity (?us ! i) \<notin> identity ` set ?os" by (simp add: pres)
    have "xhat u2 ! (?nv + i) = 0"
      using xk[of "?nv + i"] i store_state_other[OF nin, of ?nv "solution u" Map.empty]
      by (simp add: lookup0_def)
    moreover have "mget (P u2) (?nv + i) (?nv + i) = getInitialVariance (?us ! i)"
      using ent[OF order.refl i] ab by simp
    moreover have "mget (P u2) (?nv + i) j = 0 \<and> mget (P u2) j (?nv + i) = 0"
      if j: "j \<noteq> ?nv + i" for j
    proof -
      have z: "lookupSat ?cm k1 k2 = 0"
        if "k1 = identity (?us ! i) \<or> k2 = identity (?us ! i)" for k1 k2
      proof -
        have "\<not> (\<exists>a b. a \<le> b \<and> b < length ?os \<and> k1 = identity (?os ! a) \<and> k2 = identity (?os ! b))"
        proof
          assume "\<exists>a b. a \<le> b \<and> b < length ?os \<and> k1 = identity (?os ! a) \<and> k2 = identity (?os ! b)"
          then obtain a b where "a \<le> b" "b < length ?os" "k1 = identity (?os ! a)"
            "k2 = identity (?os ! b)" by blast
          then have "k1 \<in> identity ` set ?os" "k2 \<in> identity ` set ?os" by auto
          with that nin show False by blast
        qed
        from store_covUC_other[OF dO this, of ?tys ?nv "covMatrix u" Map.empty]
        show ?thesis by simp
      qed
      consider "j < ?nv" | "?nv \<le> j" "j < ?nv + i" | "?nv + i < j" "j < ?nv + length ?us"
        | "?nv + length ?us \<le> j"
        using j by linarith
      then show ?thesis
      proof cases
        case 1
        from srce[OF i 1] store_covUC_src_other[OF dO nin, of ?tys ?nv "covMatrix u" Map.empty]
        show ?thesis by simp
      next
        case 2
        define b where "b = j - ?nv"
        with 2 have jb: "j = ?nv + b" "b \<le> i" "b \<noteq> i" by simp_all
        from ent[OF jb(2) i] jb(3) z show ?thesis unfolding jb(1) by simp
      next
        case 3
        define b where "b = j - ?nv"
        with 3 have jb: "j = ?nv + b" "i \<le> b" "i \<noteq> b" "b < length ?us" by simp_all
        from ent[OF jb(2) jb(4)] jb(3) z show ?thesis unfolding jb(1) by simp
      next
        case 4
        then have "mget (P u2) (?nv + i) j = mget (snd ?cc) (?nv + i) j"
          "mget (P u2) j (?nv + i) = mget (snd ?cc) j (?nv + i)"
          by (simp_all add: frame)
        then show ?thesis by (simp add: ccm)
      qed
    qed
    ultimately show ?thesis by blast
  qed
  have old_part: "?cm (identity (?us ! i)) \<noteq> None \<and>
              xhat u2 ! (?nv + i) = solution u ! (?nv + a) \<and>
              mget (P u2) (?nv + i) (?nv + i) = mget (covMatrix u) (?nv + a) (?nv + a) \<and>
              (\<forall>k<?nv.
                  mget (P u2) (?nv + i) k = mget (covMatrix u) (?nv + a) k \<and>
                  mget (P u2) k (?nv + i) = mget (covMatrix u) (?nv + a) k) \<and>
              (\<forall>j<length ?us. \<forall>b<length ?os.
                  i < j \<and> identity (?us ! j) = identity (?os ! b) \<longrightarrow>
                    mget (P u2) (?nv + i) (?nv + j) = mget (covMatrix u) (?nv + a) (?nv + b) \<and>
                    mget (P u2) (?nv + j) (?nv + i) = mget (covMatrix u) (?nv + a) (?nv + b))"
    if i: "i < length ?us" and a: "a < length ?os"
      and ia: "identity (?us ! i) = identity (?os ! a)" for i a
  proof -
    have pr: "?cm (identity (?us ! i)) \<noteq> None" using ia a by (simp add: pres)
    have "xhat u2 ! (?nv + i) = solution u ! (?nv + a)"
      using xk[of "?nv + i"] i ia store_state_nth[OF dO a, of ?nv "solution u" Map.empty]
      by (simp add: lookup0_def)
    moreover have "mget (P u2) (?nv + i) (?nv + i) = mget (covMatrix u) (?nv + a) (?nv + a)"
      using ent[OF order.refl i] pr ia
        store_covUC_nth[OF dO order.refl a, of ?tys ?nv "covMatrix u" Map.empty]
      by simp
    moreover have "mget (P u2) (?nv + i) k = mget (covMatrix u) (?nv + a) k \<and>
                   mget (P u2) k (?nv + i) = mget (covMatrix u) (?nv + a) k" if k: "k < ?nv" for k
    proof -
      from k nv have kt: "k < length ?tys" by simp
      from srce[OF i k] ia store_covUC_src_nth[OF dO dT a kt, of ?nv "covMatrix u" Map.empty]
      show ?thesis by simp
    qed
    moreover have "mget (P u2) (?nv + i) (?nv + j) = mget (covMatrix u) (?nv + a) (?nv + b) \<and>
                   mget (P u2) (?nv + j) (?nv + i) = mget (covMatrix u) (?nv + a) (?nv + b)"
      if j: "j < length ?us" and b: "b < length ?os" and ij: "i < j"
        and jb: "identity (?us ! j) = identity (?os ! b)" for j b
    proof -
      from new ij j have "identity (?us ! i) < identity (?us ! j)"
        by (simp add: is_VariableSet_def sorted_wrt_iff_nth_less)
      with ia jb have "identity (?os ! a) < identity (?os ! b)" by simp
      with old a b have "a < b"
        using sorted_index_mono[of identity ?os a b] by (simp add: is_VariableSet_def)
      then have ab: "a \<le> b" by simp
      from ij have "i \<le> j" "i \<noteq> j" by simp_all
      from ent[OF this(1) j] this(2) ia jb
        store_covUC_nth[OF dO ab b, of ?tys ?nv "covMatrix u" Map.empty]
      show ?thesis by simp
    qed
    ultimately show ?thesis using pr by blast
  qed
  have cmu: "covarianceMapUC u1 = ?cm" by (rule f1(5))
  show ?thesis
    unfolding cmu
    using nv2 nu2 lenx sh new fit core new_part old_part by simp
qed

lemma ex_sat_types: "satIndexedTypes (SolverPPPUC_new u f) = [ionoL1, BL1, BL2]"
  by (simp add: SolverPPPUC_new_def setNEU_def Let_def)

lemma ex_old_vars:
  "build_varUnknowns [ionoL1, BL1, BL2] [(1, 1), (1, 2), (1, 3), (1, 5)] =
     map (\<lambda>(ty, n). setSatellite (1, n) (Variable_of ty))
       [(ionoL1, 1), (ionoL1, 2), (ionoL1, 3), (ionoL1, 5),
        (BL1, 1), (BL1, 2), (BL1, 3), (BL1, 5),
        (BL2, 1), (BL2, 2), (BL2, 3), (BL2, 5)]"
  by (simp add: build_varUnknowns_def identity_def setSatellite_def Variable_of_def)

lemma ex_new_vars:
  "build_varUnknowns [ionoL1, BL1, BL2] [(1, 1), (1, 2), (1, 3), (1, 4), (1, 5)] =
     map (\<lambda>(ty, n). setSatellite (1, n) (Variable_of ty))
       [(ionoL1, 1), (ionoL1, 2), (ionoL1, 3), (ionoL1, 4), (ionoL1, 5),
        (BL1, 1), (BL1, 2), (BL1, 3), (BL1, 4), (BL1, 5),
        (BL2, 1), (BL2, 2), (BL2, 3), (BL2, 4), (BL2, 5)]"
  by (simp add: build_varUnknowns_def identity_def setSatellite_def Variable_of_def)

lemma ex_satIDs: "getSatID (body (example_epoch w)) = [(1, 1), (1, 2), (1, 3), (1, 4), (1, 5)]"
  by (simp add: example_epoch_def getSatID_def example_sat_def)

text \<open>Later epochs return, and the example posterior can be stored.\<close>

lemma PPPUC_preCompute_later:
  assumes "\<not> firstTime s" "4 \<le> numSats (body gData)"
    and "\<exists>i<numSats (body gData). 0 < getVectorOfTypeID elevation (body gData) ! i"
    and "length (srcIndexedTypes s) \<le> length (solution s)"
    and "length (srcIndexedTypes s) \<le> rows (covMatrix s)"
    and "length (srcIndexedTypes s) \<le> cols (covMatrix s)"
    and "length (build_varUnknowns (satIndexedTypes s) (getSatID (body gData)))
           \<le> 3 * numSats (body gData)"
  shows "\<exists>s'. PPPUC_preCompute sto gData s = (Inr (), s')"
proof -
  from find_imax_Some[OF assms(3)] obtain m where
    "snd (find_imax (numSats (body gData)) (getVectorOfTypeID elevation (body gData))) = Some m"
    by blast
  then show ?thesis using assms(1,2,4-7)
    by (simp add: PPPUC_preCompute_def Let_def feed_filter_def count_numUnknowns_eq
          case_prod_beta)
qed

lemma ex_posterior_fields:
  "varUnknowns example_posterior
     = build_varUnknowns [ionoL1, BL1, BL2] [(1, 1), (1, 2), (1, 3), (1, 5)]"
  "numVar example_posterior = 5"
  "srcIndexedTypes example_posterior = [wetMap, dx, dy, dz, cdt]"
  "satIndexedTypes example_posterior = [ionoL1, BL1, BL2]"
  "\<not> firstTime example_posterior"
  "solution example_posterior = map real [0..<17]"
  "covMatrix example_posterior = \<lparr>rows = 17, cols = 17, elems = (\<lambda>i j. real (i * j + 1))\<rparr>"
  by (simp_all add: example_posterior_def ex_src ex_sat_types)

lemma ex_post:
  "\<exists>u1. PPPUC_postCompute g example_posterior = (Inr (), u1) \<and>
     \<not> firstTime u1 \<and> srcIndexedTypes u1 = [wetMap, dx, dy, dz, cdt] \<and>
     satIndexedTypes u1 = [ionoL1, BL1, BL2] \<and>
     solution u1 = solution example_posterior \<and> covMatrix u1 = covMatrix example_posterior \<and>
     covarianceMapUC u1 = store_covUC (srcIndexedTypes example_posterior)
         (varUnknowns example_posterior) (varUnknowns example_posterior)
         (numVar example_posterior) (covMatrix example_posterior) Map.empty"
proof -
  have l: "length (varUnknowns example_posterior) = 12"
    unfolding ex_posterior_fields(1) ex_old_vars by simp
  have "numVar example_posterior + length (varUnknowns example_posterior)
           \<le> length (solution example_posterior)"
    "numVar example_posterior + length (varUnknowns example_posterior)
           \<le> rows (covMatrix example_posterior)"
    "numVar example_posterior + length (varUnknowns example_posterior)
           \<le> cols (covMatrix example_posterior)"
    unfolding l by (simp_all add: ex_posterior_fields)
  from PPPUC_postCompute_ok[OF this, of g]
  show ?thesis by (simp add: ex_posterior_fields)
qed

text \<open>
  C3. The carry-forward of both solvers, run on the maps that \<^verbatim>\<open>postCompute\<close> stored for
  the previous epoch. In SolverUpdNL, and among the satellite-indexed unknowns of
  SolverPPPUC (which follow the \<^verbatim>\<open>numVar\<close> core unknowns): a Variable of the current set
  that is not a key of the covariance map gets state \<open>0\<close>, its initial variance on the
  diagonal and \<open>0\<close> covariance with every other unknown, the core unknowns included; a
  Variable of both epochs gets its stored mean, its stored variance, with every other such
  Variable the stored covariance, in both triangles, and in SolverPPPUC its stored
  covariances with the core unknowns. The core unknowns of SolverPPPUC keep their block of
  the previous solution and covariance.
\<close>

theorem carry_forward_new_and_old:
  assumes old: "is_VariableSet (getVarUnknowns eqOld)"
    and new: "is_VariableSet (getVarUnknowns eqNew)"
    and n: "getTotalNumVariables eqNew = length (getVarUnknowns eqNew)"
    and lx: "length (solution s) = length (getVarUnknowns eqOld)"
    and rc: "rows (covMatrix s) = length (getVarUnknowns eqOld)"
            "cols (covMatrix s) = length (getVarUnknowns eqOld)"
    and nf: "\<not> firstTime s"
    and oldUC: "is_VariableSet (varUnknowns u)"
    and nvUC: "numVar u = length (srcIndexedTypes u)"
    and dT: "distinct (srcIndexedTypes u)"
    and nfUC: "\<not> firstTime u"
    and post: "PPPUC_postCompute gOld u = (Inr (), u1)"
    and pre: "PPPUC_preCompute sto gNew u1 = (Inr (), u2)"
  shows "(\<exists>s1 s2. UpdNL_postCompute eqOld s = (Inr (), s1) \<and>
           UpdNL_preCompute eqNew s1 = (Inr (), s2) \<and>
           length (xhat s2) = length (getVarUnknowns eqNew) \<and>
           rows (P s2) = length (getVarUnknowns eqNew) \<and>
           cols (P s2) = length (getVarUnknowns eqNew) \<and>
           (\<forall>i<length (getVarUnknowns eqNew).
              covarianceMap s1 (identity (getVarUnknowns eqNew ! i)) = None \<longrightarrow>
                xhat s2 ! i = 0 \<and>
                mget (P s2) i i = getInitialVariance (getVarUnknowns eqNew ! i) \<and>
                (\<forall>j<length (getVarUnknowns eqNew). j \<noteq> i \<longrightarrow>
                    mget (P s2) i j = 0 \<and> mget (P s2) j i = 0)) \<and>
           (\<forall>i<length (getVarUnknowns eqNew). \<forall>a<length (getVarUnknowns eqOld).
              identity (getVarUnknowns eqNew ! i) = identity (getVarUnknowns eqOld ! a) \<longrightarrow>
                covarianceMap s1 (identity (getVarUnknowns eqNew ! i)) \<noteq> None \<and>
                xhat s2 ! i = solution s ! a \<and>
                mget (P s2) i i = mget (covMatrix s) a a \<and>
                (\<forall>j<length (getVarUnknowns eqNew). \<forall>b<length (getVarUnknowns eqOld).
                    i < j \<and> identity (getVarUnknowns eqNew ! j) = identity (getVarUnknowns eqOld ! b)
                    \<longrightarrow> mget (P s2) i j = mget (covMatrix s) a b \<and>
                        mget (P s2) j i = mget (covMatrix s) a b))) \<and>
         (numVar u2 = numVar u \<and>
         numUnknowns u2 = numVar u + 3 * numSats (body gNew) \<and>
         length (xhat u2) = numUnknowns u2 \<and>
         rows (P u2) = numUnknowns u2 \<and> cols (P u2) = numUnknowns u2 \<and>
         is_VariableSet (varUnknowns u2) \<and>
         numVar u + length (varUnknowns u2) \<le> numUnknowns u2 \<and>
         (\<forall>k<numVar u. xhat u2 ! k = solution u ! k \<and>
            (\<forall>l<numVar u. mget (P u2) k l = mget (covMatrix u) k l)) \<and>
         (\<forall>i<length (varUnknowns u2).
            covarianceMapUC u1 (identity (varUnknowns u2 ! i)) = None \<longrightarrow>
              xhat u2 ! (numVar u + i) = 0 \<and>
              mget (P u2) (numVar u + i) (numVar u + i) = getInitialVariance (varUnknowns u2 ! i) \<and>
              (\<forall>j<numUnknowns u2. j \<noteq> numVar u + i \<longrightarrow>
                  mget (P u2) (numVar u + i) j = 0 \<and> mget (P u2) j (numVar u + i) = 0)) \<and>
         (\<forall>i<length (varUnknowns u2). \<forall>a<length (varUnknowns u).
            identity (varUnknowns u2 ! i) = identity (varUnknowns u ! a) \<longrightarrow>
              covarianceMapUC u1 (identity (varUnknowns u2 ! i)) \<noteq> None \<and>
              xhat u2 ! (numVar u + i) = solution u ! (numVar u + a) \<and>
              mget (P u2) (numVar u + i) (numVar u + i)
                = mget (covMatrix u) (numVar u + a) (numVar u + a) \<and>
              (\<forall>k<numVar u.
                  mget (P u2) (numVar u + i) k = mget (covMatrix u) (numVar u + a) k \<and>
                  mget (P u2) k (numVar u + i) = mget (covMatrix u) (numVar u + a) k) \<and>
              (\<forall>j<length (varUnknowns u2). \<forall>b<length (varUnknowns u).
                  i < j \<and> identity (varUnknowns u2 ! j) = identity (varUnknowns u ! b) \<longrightarrow>
                    mget (P u2) (numVar u + i) (numVar u + j)
                      = mget (covMatrix u) (numVar u + a) (numVar u + b) \<and>
                    mget (P u2) (numVar u + j) (numVar u + i)
                      = mget (covMatrix u) (numVar u + a) (numVar u + b))))"
  using UpdNL_carry_forward[OF old new n lx rc nf]
    PPPUC_carry_forward[OF oldUC nvUC dT nfUC post pre]
  by (rule conjI)

theorem carry_forward_new_and_old_witness:
  "(\<exists>s1 s2. UpdNL_postCompute (example_equ [example_var 5, example_var 7]) example_UpdNL = (Inr (), s1) \<and>
      UpdNL_preCompute (example_equ [example_var 5, example_var 6, example_var 7]) s1 = (Inr (), s2) \<and>
      covarianceMap s1 (identity (example_var 6)) = None \<and>
      xhat s2 ! 1 = 0 \<and> mget (P s2) 1 1 = 10000000000 \<and>
      mget (P s2) 1 0 = 0 \<and> mget (P s2) 1 2 = 0 \<and> mget (P s2) 2 1 = 0 \<and>
      xhat s2 ! 0 = 3 \<and> xhat s2 ! 2 = 4 \<and> mget (P s2) 0 0 = 2 \<and>
      mget (P s2) 0 2 = 1 \<and> mget (P s2) 2 0 = 1) \<and>
   (\<exists>u1 u2. PPPUC_postCompute example_previous example_posterior = (Inr (), u1) \<and>
      PPPUC_preCompute example_models (example_epoch (Some 2)) u1 = (Inr (), u2) \<and>
      varUnknowns u2 ! 3 = setSatellite (1, 4) (Variable_of ionoL1) \<and>
      covarianceMapUC u1 (identity (varUnknowns u2 ! 3)) = None \<and>
      xhat u2 ! 8 = 0 \<and> mget (P u2) 8 8 = 10000000000 \<and>
      mget (P u2) 8 0 = 0 \<and> mget (P u2) 0 8 = 0 \<and> mget (P u2) 8 5 = 0 \<and>
      mget (P u2) 9 8 = 0 \<and> mget (P u2) 8 19 = 0 \<and>
      xhat u2 ! 9 = 8 \<and> mget (P u2) 9 9 = 65 \<and> mget (P u2) 9 0 = 1 \<and>
      mget (P u2) 2 9 = 17 \<and> mget (P u2) 5 9 = 41 \<and> mget (P u2) 9 5 = 41 \<and>
      xhat u2 ! 1 = 1 \<and> mget (P u2) 1 2 = 3)"
proof -
  let ?old = "example_equ [example_var 5, example_var 7]"
  let ?new = "example_equ [example_var 5, example_var 6, example_var 7]"
  have u: "getVarUnknowns ?old = [example_var 5, example_var 7]"
    "getVarUnknowns ?new = [example_var 5, example_var 6, example_var 7]"
    "getTotalNumVariables ?new = length (getVarUnknowns ?new)"
    by (simp_all add: example_equ_def)
  have vs: "is_VariableSet (getVarUnknowns ?old)" "is_VariableSet (getVarUnknowns ?new)"
    using example_vars_set u by simp_all
  have s: "length (solution example_UpdNL) = length (getVarUnknowns ?old)"
    "rows (covMatrix example_UpdNL) = length (getVarUnknowns ?old)"
    "cols (covMatrix example_UpdNL) = length (getVarUnknowns ?old)"
    "\<not> firstTime example_UpdNL"
    by (simp_all add: example_UpdNL_def u)
  let ?u = example_posterior
  let ?g = "example_epoch (Some 2)"
  from ex_post[of example_previous] obtain u1 where
    post: "PPPUC_postCompute example_previous ?u = (Inr (), u1)"
    and f1: "\<not> firstTime u1" "srcIndexedTypes u1 = [wetMap, dx, dy, dz, cdt]"
       "satIndexedTypes u1 = [ionoL1, BL1, BL2]" "solution u1 = solution ?u"
       "covMatrix u1 = covMatrix ?u"
    and cm1: "covarianceMapUC u1 = store_covUC (srcIndexedTypes ?u) (varUnknowns ?u)
         (varUnknowns ?u) (numVar ?u) (covMatrix ?u) Map.empty"
    by blast
  have bl: "length (build_varUnknowns (satIndexedTypes u1) (getSatID (body ?g)))
              \<le> 3 * numSats (body ?g)"
    unfolding f1(3) ex_satIDs ex_new_vars by simp
  have sz: "length (srcIndexedTypes u1) \<le> length (solution u1)"
    "length (srcIndexedTypes u1) \<le> rows (covMatrix u1)"
    "length (srcIndexedTypes u1) \<le> cols (covMatrix u1)"
    by (simp_all add: f1 ex_posterior_fields)
  have N4: "4 \<le> numSats (body ?g)" by simp
  from PPPUC_preCompute_later[OF f1(1) N4 ex_pos sz bl, of example_models] obtain u2 where
    pre: "PPPUC_preCompute example_models ?g u1 = (Inr (), u2)" by blast
  have oldUC: "is_VariableSet (varUnknowns ?u)"
    unfolding ex_posterior_fields(1) by (rule build_varUnknowns_sorted)
  have nvUC: "numVar ?u = length (srcIndexedTypes ?u)" by (simp add: ex_posterior_fields)
  have dT: "distinct (srcIndexedTypes ?u)" by (simp add: ex_posterior_fields)
  note t = carry_forward_new_and_old[OF vs u(3) s oldUC nvUC dT ex_posterior_fields(5) post pre]
  from t[THEN conjunct1]
  obtain s1 s2 where r: "UpdNL_postCompute ?old example_UpdNL = (Inr (), s1)"
     "UpdNL_preCompute ?new s1 = (Inr (), s2)"
     and nw: "\<forall>i<length (getVarUnknowns ?new).
              covarianceMap s1 (identity (getVarUnknowns ?new ! i)) = None \<longrightarrow>
                xhat s2 ! i = 0 \<and>
                mget (P s2) i i = getInitialVariance (getVarUnknowns ?new ! i) \<and>
                (\<forall>j<length (getVarUnknowns ?new). j \<noteq> i \<longrightarrow>
                    mget (P s2) i j = 0 \<and> mget (P s2) j i = 0)"
     and od: "\<forall>i<length (getVarUnknowns ?new). \<forall>a<length (getVarUnknowns ?old).
              identity (getVarUnknowns ?new ! i) = identity (getVarUnknowns ?old ! a) \<longrightarrow>
                covarianceMap s1 (identity (getVarUnknowns ?new ! i)) \<noteq> None \<and>
                xhat s2 ! i = solution example_UpdNL ! a \<and>
                mget (P s2) i i = mget (covMatrix example_UpdNL) a a \<and>
                (\<forall>j<length (getVarUnknowns ?new). \<forall>b<length (getVarUnknowns ?old).
                    i < j \<and> identity (getVarUnknowns ?new ! j) = identity (getVarUnknowns ?old ! b)
                    \<longrightarrow> mget (P s2) i j = mget (covMatrix example_UpdNL) a b \<and>
                        mget (P s2) j i = mget (covMatrix example_UpdNL) a b)"
    by blast
  have ab: "covarianceMap s1 (identity (example_var 6)) = None"
    using r(1) s u(1) UpdNL_postCompute_ok[of ?old example_UpdNL]
      store_cov_present[of "[example_var 5, example_var 7]" 0 "covMatrix example_UpdNL" Map.empty
         "identity (example_var 6)"]
    by (auto simp: example_var_def identity_def setSatellite_def Variable_of_def)
  from nw[rule_format, of 1] ab u
  have n1: "xhat s2 ! 1 = 0" "mget (P s2) 1 1 = 10000000000"
    "\<forall>j<3. j \<noteq> 1 \<longrightarrow> mget (P s2) 1 j = 0 \<and> mget (P s2) j 1 = 0"
    by (simp_all add: example_var_def getInitialVariance_def setSatellite_def Variable_of_def)
  from n1(3) have n2: "mget (P s2) 1 0 = 0" "mget (P s2) 1 2 = 0" "mget (P s2) 2 1 = 0"
    by simp_all
  have ln: "0 < length (getVarUnknowns ?new)" "2 < length (getVarUnknowns ?new)"
    "0 < length (getVarUnknowns ?old)" "1 < length (getVarUnknowns ?old)"
    by (simp_all add: u)
  have ids: "identity (getVarUnknowns ?new ! 0) = identity (getVarUnknowns ?old ! 0)"
    "identity (getVarUnknowns ?new ! 2) = identity (getVarUnknowns ?old ! 1)"
    by (simp_all add: u)
  note a0 = od[rule_format, OF ln(1) ln(3) ids(1)]
  from a0 have o1: "xhat s2 ! 0 = 3" "mget (P s2) 0 0 = 2"
    by (simp_all add: example_UpdNL_def mget_def)
  from a0 have rest: "\<forall>j<length (getVarUnknowns ?new). \<forall>b<length (getVarUnknowns ?old).
        0 < j \<and> identity (getVarUnknowns ?new ! j) = identity (getVarUnknowns ?old ! b)
        \<longrightarrow> mget (P s2) 0 j = mget (covMatrix example_UpdNL) 0 b \<and>
            mget (P s2) j 0 = mget (covMatrix example_UpdNL) 0 b"
    by blast
  have "(0::nat) < 2 \<and> identity (getVarUnknowns ?new ! 2) = identity (getVarUnknowns ?old ! 1)"
    using ids(2) by simp
  from rest[rule_format, OF ln(2) ln(4) this]
  have o2: "mget (P s2) 0 2 = 1" "mget (P s2) 2 0 = 1"
    by (simp_all add: example_UpdNL_def mget_def)
  from od[rule_format, OF ln(2) ln(4) ids(2)] have o3: "xhat s2 ! 2 = 4"
    by (simp add: example_UpdNL_def)
  note B = t[THEN conjunct2]
  from B have nu: "numUnknowns u2 = numVar ?u + 3 * numSats (body ?g)"
    and b_core: "\<forall>k<numVar ?u. xhat u2 ! k = solution ?u ! k \<and>
            (\<forall>l<numVar ?u. mget (P u2) k l = mget (covMatrix ?u) k l)"
    and b_new: "\<forall>i<length (varUnknowns u2).
            covarianceMapUC u1 (identity (varUnknowns u2 ! i)) = None \<longrightarrow>
              xhat u2 ! (numVar ?u + i) = 0 \<and>
              mget (P u2) (numVar ?u + i) (numVar ?u + i) = getInitialVariance (varUnknowns u2 ! i) \<and>
              (\<forall>j<numUnknowns u2. j \<noteq> numVar ?u + i \<longrightarrow>
                  mget (P u2) (numVar ?u + i) j = 0 \<and> mget (P u2) j (numVar ?u + i) = 0)"
    and b_old: "\<forall>i<length (varUnknowns u2). \<forall>a<length (varUnknowns ?u).
            identity (varUnknowns u2 ! i) = identity (varUnknowns ?u ! a) \<longrightarrow>
              covarianceMapUC u1 (identity (varUnknowns u2 ! i)) \<noteq> None \<and>
              xhat u2 ! (numVar ?u + i) = solution ?u ! (numVar ?u + a) \<and>
              mget (P u2) (numVar ?u + i) (numVar ?u + i)
                = mget (covMatrix ?u) (numVar ?u + a) (numVar ?u + a) \<and>
              (\<forall>k<numVar ?u.
                  mget (P u2) (numVar ?u + i) k = mget (covMatrix ?u) (numVar ?u + a) k \<and>
                  mget (P u2) k (numVar ?u + i) = mget (covMatrix ?u) (numVar ?u + a) k) \<and>
              (\<forall>j<length (varUnknowns u2). \<forall>b<length (varUnknowns ?u).
                  i < j \<and> identity (varUnknowns u2 ! j) = identity (varUnknowns ?u ! b) \<longrightarrow>
                    mget (P u2) (numVar ?u + i) (numVar ?u + j)
                      = mget (covMatrix ?u) (numVar ?u + a) (numVar ?u + b) \<and>
                    mget (P u2) (numVar ?u + j) (numVar ?u + i)
                      = mget (covMatrix ?u) (numVar ?u + a) (numVar ?u + b))"
    by blast+
  have nv5: "numVar ?u = 5" by (rule ex_posterior_fields(2))
  have nu20: "numUnknowns u2 = 20" using nu nv5 by simp
  from PPPUC_preCompute_carry[OF pre f1(1)]
  have "varUnknowns u2 = build_varUnknowns (satIndexedTypes u1) (getSatID (body ?g))"
    by (rule conjunct1)
  then have vu2: "varUnknowns u2 = map (\<lambda>(ty, n). setSatellite (1, n) (Variable_of ty))
       [(ionoL1, 1), (ionoL1, 2), (ionoL1, 3), (ionoL1, 4), (ionoL1, 5),
        (BL1, 1), (BL1, 2), (BL1, 3), (BL1, 4), (BL1, 5),
        (BL2, 1), (BL2, 2), (BL2, 3), (BL2, 4), (BL2, 5)]"
    unfolding f1(3) ex_satIDs ex_new_vars .
  have vo: "varUnknowns ?u = map (\<lambda>(ty, n). setSatellite (1, n) (Variable_of ty))
       [(ionoL1, 1), (ionoL1, 2), (ionoL1, 3), (ionoL1, 5),
        (BL1, 1), (BL1, 2), (BL1, 3), (BL1, 5),
        (BL2, 1), (BL2, 2), (BL2, 3), (BL2, 5)]"
    unfolding ex_posterior_fields(1) ex_old_vars ..
  have l2: "length (varUnknowns u2) = 15" "length (varUnknowns ?u) = 12"
    unfolding vu2 vo by simp_all
  have new3: "varUnknowns u2 ! 3 = setSatellite (1, 4) (Variable_of ionoL1)"
    unfolding vu2 by simp
  have nin: "identity (varUnknowns u2 ! 3) \<notin> identity ` set (varUnknowns ?u)"
    unfolding new3 vo by (simp add: identity_def setSatellite_def Variable_of_def)
  have absent: "covarianceMapUC u1 (identity (varUnknowns u2 ! 3)) = None"
    unfolding cm1 using store_covUC_present[OF VariableSet_distinct[OF oldUC]] nin by simp
  have i3: "3 < length (varUnknowns u2)" unfolding l2 by simp
  from b_new[rule_format, OF i3 absent]
  have w1: "xhat u2 ! 8 = 0" "mget (P u2) 8 8 = 10000000000"
    and w2: "\<forall>j<20. j \<noteq> 8 \<longrightarrow> mget (P u2) 8 j = 0 \<and> mget (P u2) j 8 = 0"
    unfolding nv5 nu20 new3
    by (simp_all add: getInitialVariance_def setSatellite_def Variable_of_def)
  from w2 have w3: "mget (P u2) 8 0 = 0" "mget (P u2) 0 8 = 0" "mget (P u2) 8 5 = 0"
    "mget (P u2) 9 8 = 0" "mget (P u2) 8 19 = 0"
    by simp_all
  have i4: "4 < length (varUnknowns u2)" "3 < length (varUnknowns ?u)"
    "0 < length (varUnknowns u2)" "0 < length (varUnknowns ?u)"
    unfolding l2 by simp_all
  have ids: "identity (varUnknowns u2 ! 4) = identity (varUnknowns ?u ! 3)"
    "identity (varUnknowns u2 ! 0) = identity (varUnknowns ?u ! 0)"
    unfolding vu2 vo by simp_all
  have sol: "solution ?u ! k = real k" if "k < 17" for k
    using that by (simp add: ex_posterior_fields(6))
  have cov: "mget (covMatrix ?u) i j = real (i * j + 1)" for i j
    by (simp add: ex_posterior_fields(7) mget_def)
  note o4 = b_old[rule_format, OF i4(1) i4(2) ids(1), unfolded nv5 cov]
  from o4 have w4: "xhat u2 ! 9 = 8" "mget (P u2) 9 9 = 65"
    using sol[of 8] nv5 by simp_all
  from o4 have k4: "\<forall>k<5. mget (P u2) (5 + 4) k = real ((5 + 3) * k + 1) \<and>
                           mget (P u2) k (5 + 4) = real ((5 + 3) * k + 1)" by blast
  from k4[rule_format, of 0] k4[rule_format, of 2]
  have w5: "mget (P u2) 9 0 = 1" "mget (P u2) 2 9 = 17" by simp_all
  note o0 = b_old[rule_format, OF i4(3) i4(4) ids(2), unfolded nv5 cov]
  from o0 have j0: "\<forall>j<length (varUnknowns u2). \<forall>b<length (varUnknowns ?u).
                  0 < j \<and> identity (varUnknowns u2 ! j) = identity (varUnknowns ?u ! b) \<longrightarrow>
                    mget (P u2) (5 + 0) (5 + j) = real ((5 + 0) * (5 + b) + 1) \<and>
                    mget (P u2) (5 + j) (5 + 0) = real ((5 + 0) * (5 + b) + 1)" by blast
  have "(0::nat) < 4 \<and> identity (varUnknowns u2 ! 4) = identity (varUnknowns ?u ! 3)"
    using ids(1) by simp
  from j0[rule_format, OF i4(1) i4(2) this]
  have w6: "mget (P u2) 5 9 = 41" "mget (P u2) 9 5 = 41" by simp_all
  from b_core[rule_format, of 1] have c1: "xhat u2 ! 1 = solution ?u ! 1"
    "\<forall>l<numVar ?u. mget (P u2) 1 l = mget (covMatrix ?u) 1 l"
    unfolding nv5 by simp_all
  from c1(1) sol[of 1] have w7: "xhat u2 ! 1 = 1" by simp
  from c1(2)[rule_format, of 2] have w8: "mget (P u2) 1 2 = 3" unfolding nv5 cov by simp
  have U: "\<exists>s1 s2. UpdNL_postCompute ?old example_UpdNL = (Inr (), s1) \<and>
      UpdNL_preCompute ?new s1 = (Inr (), s2) \<and>
      covarianceMap s1 (identity (example_var 6)) = None \<and>
      xhat s2 ! 1 = 0 \<and> mget (P s2) 1 1 = 10000000000 \<and>
      mget (P s2) 1 0 = 0 \<and> mget (P s2) 1 2 = 0 \<and> mget (P s2) 2 1 = 0 \<and>
      xhat s2 ! 0 = 3 \<and> xhat s2 ! 2 = 4 \<and> mget (P s2) 0 0 = 2 \<and>
      mget (P s2) 0 2 = 1 \<and> mget (P s2) 2 0 = 1"
    using r ab n1(1,2) n2 o1 o2 o3 by blast
  have V: "\<exists>u1 u2. PPPUC_postCompute example_previous example_posterior = (Inr (), u1) \<and>
      PPPUC_preCompute example_models (example_epoch (Some 2)) u1 = (Inr (), u2) \<and>
      varUnknowns u2 ! 3 = setSatellite (1, 4) (Variable_of ionoL1) \<and>
      covarianceMapUC u1 (identity (varUnknowns u2 ! 3)) = None \<and>
      xhat u2 ! 8 = 0 \<and> mget (P u2) 8 8 = 10000000000 \<and>
      mget (P u2) 8 0 = 0 \<and> mget (P u2) 0 8 = 0 \<and> mget (P u2) 8 5 = 0 \<and>
      mget (P u2) 9 8 = 0 \<and> mget (P u2) 8 19 = 0 \<and>
      xhat u2 ! 9 = 8 \<and> mget (P u2) 9 9 = 65 \<and> mget (P u2) 9 0 = 1 \<and>
      mget (P u2) 2 9 = 17 \<and> mget (P u2) 5 9 = 41 \<and> mget (P u2) 9 5 = 41 \<and>
      xhat u2 ! 1 = 1 \<and> mget (P u2) 1 2 = 3"
    using post pre new3 absent w1 w3 w4 w5 w6 w7 w8 by blast
  from U V show ?thesis by (rule conjI)
qed

end
